(* ===== verification/Prelude.thy ===== *)
theory Prelude
  imports Complex_Main "HOL-Library.Multiset" "HOL-Library.List_Lexorder"
begin

text \<open>
  Shared vocabulary of the development: Go strings as lists of Unicode code points, the
  functions of package \<open>strings\<close> the services call, results with an error side, 64-bit
  signed integers, and the list lemmas the components share.

  A Go string that reached a service through a JSON body, a URL or a text column is valid
  UTF-8, so it is modelled by its code points; \<open>byte_len\<close> is what \<open>len(s)\<close> counts.
  Byte order of UTF-8 strings is code point order, so \<open>sort.Strings\<close> is \<open>sort\<close> on
  code point lists under the lexicographic order.
\<close>

named_theorems fcalc \<open>evaluation rules for 64-bit floating-point terms\<close>

section \<open>Lists\<close>

lemma sorted_wrt_trans_nth:
  "sorted_wrt r xs \<Longrightarrow> i < j \<Longrightarrow> j < length xs \<Longrightarrow> r (xs ! i) (xs ! j)"
  by (simp add: sorted_wrt_iff_nth_less)

lemma foldl_invariant:
  assumes "\<And>x a. x \<in> set xs \<Longrightarrow> P a \<Longrightarrow> P (f a x)" and "P a"
  shows "P (foldl f a xs)"
  using assms by (induction xs arbitrary: a) auto

lemma map_upt_eqI:
  "length xs = n \<Longrightarrow> (\<And>i. i < n \<Longrightarrow> xs ! i = f i) \<Longrightarrow> xs = map f [0..<n]"
  by (simp add: list_eq_iff_nth_eq)

lemma find_snoc: "find P xs = None \<Longrightarrow> find P (xs @ [x]) = (if P x then Some x else None)"
  by (induction xs) (auto split: if_splits)

section \<open>Results\<close>

fun sum_bind :: "'e + 'a \<Rightarrow> ('a \<Rightarrow> 'e + 'b) \<Rightarrow> 'e + 'b" where
  "sum_bind (Inl e) f = Inl e"
| "sum_bind (Inr x) f = f x"

fun is_ok :: "'e + 'a \<Rightarrow> bool" where
  "is_ok (Inl _) = False"
| "is_ok (Inr _) = True"

lemma sum_bind_eq_Inr: "sum_bind m f = Inr y \<longleftrightarrow> (\<exists>x. m = Inr x \<and> f x = Inr y)"
  by (cases m) auto

lemma sum_bind_eq_Inl: "sum_bind m f = Inl e \<longleftrightarrow> m = Inl e \<or> (\<exists>x. m = Inr x \<and> f x = Inl e)"
  by (cases m) auto

lemma is_ok_iff: "is_ok m \<longleftrightarrow> (\<exists>x. m = Inr x)"
  by (cases m) auto

section \<open>Strings\<close>

type_synonym rune = nat
type_synonym gostr = "rune list"
type_synonym uuid = nat

definition lit :: "string \<Rightarrow> gostr" where
  "lit s = map of_char s"

definition is_space :: "rune \<Rightarrow> bool" where
  \<comment> \<open>\<open>unicode.IsSpace\<close>: the code points with the White_Space property\<close>
  "is_space r \<longleftrightarrow> 9 \<le> r \<and> r \<le> 13 \<or> r = 32 \<or> r = 133 \<or> r = 160 \<or> r = 5760
     \<or> 8192 \<le> r \<and> r \<le> 8202 \<or> r = 8232 \<or> r = 8233 \<or> r = 8239 \<or> r = 8287 \<or> r = 12288"

definition trim_right :: "(rune \<Rightarrow> bool) \<Rightarrow> gostr \<Rightarrow> gostr" where
  "trim_right p s = rev (dropWhile p (rev s))"

definition trim_space :: "gostr \<Rightarrow> gostr" where
  "trim_space s = trim_right is_space (dropWhile is_space s)"

text \<open>
  Case mapping of the ASCII letters is written out; \<open>uc\<close> stands for the Unicode tables of
  the Go distribution and is only consulted for the other code points.
\<close>

definition upper_rune :: "(rune \<Rightarrow> rune) \<Rightarrow> rune \<Rightarrow> rune" where
  "upper_rune uc r = (if r < 128 then (if 97 \<le> r \<and> r \<le> 122 then r - 32 else r) else uc r)"

definition lower_rune :: "(rune \<Rightarrow> rune) \<Rightarrow> rune \<Rightarrow> rune" where
  "lower_rune uc r = (if r < 128 then (if 65 \<le> r \<and> r \<le> 90 then r + 32 else r) else uc r)"

definition to_upper :: "(rune \<Rightarrow> rune) \<Rightarrow> gostr \<Rightarrow> gostr" where
  "to_upper uc s = map (upper_rune uc) s"

definition to_lower :: "(rune \<Rightarrow> rune) \<Rightarrow> gostr \<Rightarrow> gostr" where
  "to_lower uc s = map (lower_rune uc) s"

definition rune_len :: "rune \<Rightarrow> nat" where
  "rune_len r = (if r < 128 then 1 else if r < 2048 then 2 else if r < 65536 then 3 else 4)"

definition byte_len :: "gostr \<Rightarrow> nat" where
  "byte_len s = sum_list (map rune_len s)"

lemma byte_len_Nil [simp]: "byte_len [] = 0"
  by (simp add: byte_len_def)

lemma byte_len_Cons [simp]: "byte_len (r # s) = rune_len r + byte_len s"
  by (simp add: byte_len_def)

lemma rune_len_pos [simp]: "0 < rune_len r"
  by (simp add: rune_len_def)

lemma length_le_byte_len: "length s \<le> byte_len s"
proof (induction s)
  case (Cons r s)
  have "1 \<le> rune_len r" by (simp add: Suc_leI)
  with Cons show ?case by simp
qed simp

lemma byte_len_eq_0_iff [simp]: "byte_len s = 0 \<longleftrightarrow> s = []"
  by (cases s) (auto simp: rune_len_def)

lemma length_to_upper [simp]: "length (to_upper uc s) = length s"
  by (simp add: to_upper_def)

section \<open>64-bit signed integers\<close>

definition wrap64 :: "int \<Rightarrow> int" where
  \<comment> \<open>the value a Go \<open>int\<close> holds after an operation whose exact result is \<open>x\<close>\<close>
  "wrap64 x = (x + 2 ^ 63) mod 2 ^ 64 - 2 ^ 63"

definition int64 :: "int \<Rightarrow> bool" where
  "int64 x \<longleftrightarrow> - (2 ^ 63) \<le> x \<and> x < 2 ^ 63"

lemma wrap64_id: "int64 x \<Longrightarrow> wrap64 x = x"
  by (simp add: wrap64_def int64_def)

lemma wrap64_int64: "int64 (wrap64 x)"
  by (simp add: wrap64_def int64_def algebra_simps)

section \<open>Calls to another service\<close>

text \<open>
  One HTTP exchange as a client sees it: no request could be built, no answer came, or a
  status with the decoded body (\<open>None\<close> when the body does not decode).
\<close>

datatype 'a http_exchange = ReqFailed | NoAnswer | Answer int "'a option"

text \<open>What a handler writes: a status with an encoded value, or the error body of every
  service, a status with a code and a message.\<close>

datatype 'b reply = Reply int 'b | ErrorReply int string gostr

fun reply_status :: "'b reply \<Rightarrow> int" where
  "reply_status (Reply st _) = st"
| "reply_status (ErrorReply st _ _) = st"

section \<open>Transactions\<close>

text \<open>
  How a Postgres commit ends for the client: it is confirmed, it fails, or its answer is
  lost after it took effect.
\<close>

datatype commit_outcome = CommitOk | CommitFailed | CommitLost

section \<open>One goroutine per element\<close>

text \<open>
  The services fan a list of calls out to one goroutine per element, each writing the slot
  of its own index, and wait for all of them. \<open>gather\<close> is such a run in which the
  goroutines finish in the order of the list of indices.
\<close>

definition gather :: "('a \<Rightarrow> 'b) \<Rightarrow> 'a list \<Rightarrow> nat list \<Rightarrow> 'b option list" where
  "gather call xs sched =
     foldl (\<lambda>slots i. slots[i := Some (call (xs ! i))]) (replicate (length xs) None) sched"

lemma length_gather [simp]: "length (gather call xs sched) = length xs"
  unfolding gather_def by (rule foldl_invariant [where P = "\<lambda>slots. length slots = length xs"]) simp_all

lemma gather_snoc: "gather call xs (sched @ [k]) = (gather call xs sched)[k := Some (call (xs ! k))]"
  by (simp add: gather_def)

lemma gather_nth: "i < length xs \<Longrightarrow> gather call xs sched ! i = (if i \<in> set sched then Some (call (xs ! i)) else None)"
proof (induction sched rule: rev_induct)
  case (snoc k sched)
  then show ?case by (cases "i = k") (simp_all add: gather_snoc)
qed (simp add: gather_def)

lemma gather_complete: "set sched = {..<length xs} \<Longrightarrow> gather call xs sched = map (\<lambda>x. Some (call x)) xs"
  by (rule nth_equalityI) (simp_all add: gather_nth)

end
