(* ===== verification/F64.thy ===== *)
theory F64
  imports Prelude
begin

text \<open>
  Go's \<open>float64\<close>: IEEE 754 binary64 with rounding to nearest, ties to even, as the Go
  specification and package \<open>math\<close> define it on a platform that does not fuse
  operations. A finite value is its exact rational; the negative zero is a constructor of
  its own. Arithmetic is the exact rational operation followed by one rounding, so every
  rounding error and overflow of the source is in the model. Comparison is Go's: every
  comparison with a NaN is false. The type is an instance of the syntactic classes only,
  so \<open>+\<close>, \<open>*\<close>, \<open><\<close> read as in the source and none of the laws of exact arithmetic
  apply to them.
\<close>

datatype f64 = NaN | FInf bool | FNegZero | FNum rat

section \<open>Rounding\<close>

definition rhe :: "rat \<Rightarrow> int" where
  \<comment> \<open>nearest integer, ties to even\<close>
  "rhe x = (let f = \<lfloor>x\<rfloor>; d = x - of_int f in
     if d < 1/2 then f else if d > 1/2 then f + 1 else if even f then f else f + 1)"

function bitlen :: "int \<Rightarrow> int" where
  "bitlen n = (if n \<le> 0 then 0 else bitlen (n div 2) + 1)"
  by pat_completeness auto
termination by (relation "measure nat") auto

declare bitlen.simps [simp del]

definition fexp :: "rat \<Rightarrow> int" where
  \<comment> \<open>for positive \<open>x\<close> the \<open>e\<close> with \<open>2^52 \<le> x / 2^e < 2^53\<close>\<close>
  "fexp x = (let (a, b) = quotient_of x;
                 e = bitlen a - bitlen b - 53
             in if x < 2 powi (e + 53) then e else e + 1)"

definition ulp_exp :: "rat \<Rightarrow> int" where
  "ulp_exp x = max (fexp x) (- 1074)"

definition rnd_pos :: "rat \<Rightarrow> rat" where
  "rnd_pos x = of_int (rhe (x / 2 powi ulp_exp x)) * 2 powi ulp_exp x"

definition rnd :: "rat \<Rightarrow> rat" where
  "rnd x = (if x = 0 then 0 else if 0 < x then rnd_pos x else - rnd_pos (- x))"

definition fl :: "bool \<Rightarrow> rat \<Rightarrow> f64" where
  \<comment> \<open>the float nearest to \<open>x\<close>; \<open>s\<close> is the sign a zero result takes\<close>
  "fl s x = (let r = rnd x in
     if r = 0 then (if s then FNegZero else FNum 0)
     else if 2 ^ 1024 \<le> r then FInf False
     else if r \<le> - (2 ^ 1024) then FInf True
     else FNum r)"

section \<open>Operations\<close>

fun fin :: "f64 \<Rightarrow> bool" where
  "fin FNegZero = True"
| "fin (FNum _) = True"
| "fin _ = False"

fun val :: "f64 \<Rightarrow> rat" where
  "val (FNum r) = r"
| "val _ = 0"

fun signbit :: "f64 \<Rightarrow> bool" where
  "signbit NaN = False"
| "signbit (FInf s) = s"
| "signbit FNegZero = True"
| "signbit (FNum r) = (r < 0)"

fun fneg :: "f64 \<Rightarrow> f64" where
  "fneg NaN = NaN"
| "fneg (FInf s) = FInf (\<not> s)"
| "fneg FNegZero = FNum 0"
| "fneg (FNum r) = (if r = 0 then FNegZero else FNum (- r))"

fun fadd :: "f64 \<Rightarrow> f64 \<Rightarrow> f64" where
  "fadd NaN _ = NaN"
| "fadd _ NaN = NaN"
| "fadd (FInf s) (FInf t) = (if s = t then FInf s else NaN)"
| "fadd (FInf s) _ = FInf s"
| "fadd _ (FInf t) = FInf t"
| "fadd FNegZero FNegZero = FNegZero"
| "fadd a b = fl False (val a + val b)"

fun fmul :: "f64 \<Rightarrow> f64 \<Rightarrow> f64" where
  "fmul NaN _ = NaN"
| "fmul _ NaN = NaN"
| "fmul (FInf s) b = (if fin b \<and> val b = 0 then NaN else FInf (s \<noteq> signbit b))"
| "fmul a (FInf t) = (if val a = 0 then NaN else FInf (signbit a \<noteq> t))"
| "fmul a b = fl (signbit a \<noteq> signbit b) (val a * val b)"

fun fdiv :: "f64 \<Rightarrow> f64 \<Rightarrow> f64" where
  "fdiv NaN _ = NaN"
| "fdiv _ NaN = NaN"
| "fdiv (FInf s) (FInf t) = NaN"
| "fdiv (FInf s) b = FInf (s \<noteq> signbit b)"
| "fdiv a (FInf t) = (if signbit a \<noteq> t then FNegZero else FNum 0)"
| "fdiv a b = (if val b = 0 then (if val a = 0 then NaN else FInf (signbit a \<noteq> signbit b))
               else fl (signbit a \<noteq> signbit b) (val a / val b))"

fun fle :: "f64 \<Rightarrow> f64 \<Rightarrow> bool" where
  "fle NaN _ = False"
| "fle _ NaN = False"
| "fle (FInf s) (FInf t) = (s \<or> \<not> t)"
| "fle (FInf s) _ = s"
| "fle _ (FInf t) = (\<not> t)"
| "fle a b = (val a \<le> val b)"

fun flt :: "f64 \<Rightarrow> f64 \<Rightarrow> bool" where
  "flt NaN _ = False"
| "flt _ NaN = False"
| "flt (FInf s) (FInf t) = (s \<and> \<not> t)"
| "flt (FInf s) _ = s"
| "flt _ (FInf t) = (\<not> t)"
| "flt a b = (val a < val b)"

instantiation f64 :: "{zero, one, plus, minus, uminus, times, inverse, ord, abs}"
begin
definition zero_f64 :: f64 where "0 = FNum 0"
definition one_f64 :: f64 where "1 = FNum 1"
definition plus_f64 :: "f64 \<Rightarrow> f64 \<Rightarrow> f64" where "a + b = fadd a b"
definition uminus_f64 :: "f64 \<Rightarrow> f64" where "- a = fneg a"
definition minus_f64 :: "f64 \<Rightarrow> f64 \<Rightarrow> f64" where "a - b = fadd a (fneg b)"
definition times_f64 :: "f64 \<Rightarrow> f64 \<Rightarrow> f64" where "a * b = fmul a b"
definition divide_f64 :: "f64 \<Rightarrow> f64 \<Rightarrow> f64" where "a div b = fdiv a b"
definition inverse_f64 :: "f64 \<Rightarrow> f64" where "inverse a = fdiv (FNum 1) a"
definition less_eq_f64 :: "f64 \<Rightarrow> f64 \<Rightarrow> bool" where "a \<le> b = fle a b"
definition less_f64 :: "f64 \<Rightarrow> f64 \<Rightarrow> bool" where "a < b = flt a b"
definition abs_f64 :: "f64 \<Rightarrow> f64" where "\<bar>a\<bar> = (if signbit a then fneg a else a)"
instance ..
end

lemmas f64_ops_def = zero_f64_def one_f64_def plus_f64_def uminus_f64_def minus_f64_def
  times_f64_def divide_f64_def inverse_f64_def less_eq_f64_def less_f64_def abs_f64_def

definition feq :: "f64 \<Rightarrow> f64 \<Rightarrow> bool" where
  \<comment> \<open>Go's \<open>==\<close>: NaN equals nothing, the two zeros are equal\<close>
  "feq a b \<longleftrightarrow> a \<le> b \<and> b \<le> a"

definition is_nan :: "f64 \<Rightarrow> bool" where "is_nan a \<longleftrightarrow> a = NaN"
definition is_inf :: "f64 \<Rightarrow> bool" where "is_inf a \<longleftrightarrow> (\<exists>s. a = FInf s)"

definition flit :: "rat \<Rightarrow> f64" where
  \<comment> \<open>an untyped numeric constant of the source converted to \<open>float64\<close>\<close>
  "flit q = fl False q"

definition fint :: "int \<Rightarrow> f64" where
  \<comment> \<open>the conversion \<open>float64(n)\<close>\<close>
  "fint n = fl False (of_int n)"

fun fround :: "f64 \<Rightarrow> f64" where
  \<comment> \<open>\<open>math.Round\<close>: nearest integer, halves away from zero\<close>
  "fround (FNum r) =
     (let n = (if 0 \<le> r then \<lfloor>r + 1/2\<rfloor> else - \<lfloor>- r + 1/2\<rfloor>)
      in if n = 0 \<and> r < 0 then FNegZero else FNum (of_int n))"
| "fround a = a"

fun fmin :: "f64 \<Rightarrow> f64 \<Rightarrow> f64" where
  \<comment> \<open>the builtin \<open>min\<close> on floats\<close>
  "fmin NaN _ = NaN"
| "fmin _ NaN = NaN"
| "fmin a b = (if flt a b then a else if flt b a then b else if signbit a then a else b)"

section \<open>Square root\<close>

primrec isqrt_bits :: "nat \<Rightarrow> int \<Rightarrow> int \<Rightarrow> int" where
  \<comment> \<open>fixes the low \<open>k\<close> bits of the integer square root of \<open>n\<close>, from the top one down\<close>
  "isqrt_bits 0 r n = r"
| "isqrt_bits (Suc k) r n = isqrt_bits k (if (r + 2 ^ k)\<^sup>2 \<le> n then r + 2 ^ k else r) n"

definition isqrt :: "int \<Rightarrow> int" where
  "isqrt n = isqrt_bits (nat (bitlen n)) 0 n"

definition sqrt_approx :: "rat \<Rightarrow> rat" where
  \<comment> \<open>for positive \<open>x\<close>, a rational that rounds as the real square root does: its integer
    part in units of \<open>2^-k\<close> has at least 54 bits, and a half unit stands for any remainder\<close>
  "sqrt_approx x = (let k = nat ((61 - fexp x) div 2); y = x * 4 ^ k; s = isqrt \<lfloor>y\<rfloor>
     in (2 * of_int s + (if of_int (s\<^sup>2) = y then 0 else 1)) / 2 ^ (k + 1))"

fun fsqrt :: "f64 \<Rightarrow> f64" where
  \<comment> \<open>\<open>math.Sqrt\<close>\<close>
  "fsqrt NaN = NaN"
| "fsqrt (FInf s) = (if s then NaN else FInf False)"
| "fsqrt FNegZero = FNegZero"
| "fsqrt (FNum r) = (if r < 0 then NaN else if r = 0 then FNum 0 else fl False (sqrt_approx r))"

end
