(* ===== verification/F64Facts.thy ===== *)
theory F64Facts
  imports F64
begin

text \<open>
  Facts about the \<open>float64\<close> model: rounding is monotone, odd, exact on representable
  rationals, and comparisons of rounded results follow the comparisons of the exact ones.
  Every bound the components prove about computed money, weights and ratios rests on
  these.
\<close>

section \<open>Rounding to an integer\<close>

lemma rhe_bounds: "\<lfloor>x\<rfloor> \<le> rhe x \<and> rhe x \<le> \<lfloor>x\<rfloor> + 1"
  by (auto simp: rhe_def Let_def)

lemma rhe_of_int [simp]: "rhe (of_int n) = n"
  by (simp add: rhe_def)

lemma rhe_mono:
  assumes "x \<le> y" shows "rhe x \<le> rhe y"
proof (cases "\<lfloor>x\<rfloor> = \<lfloor>y\<rfloor>")
  case True
  then show ?thesis using assms by (auto simp: rhe_def Let_def)
next
  case False
  with assms have "\<lfloor>x\<rfloor> + 1 \<le> \<lfloor>y\<rfloor>" using floor_mono [OF assms] by linarith
  then show ?thesis using rhe_bounds [of x] rhe_bounds [of y] by linarith
qed

lemma rhe_le_of_int: "x \<le> of_int n \<Longrightarrow> rhe x \<le> n"
  using rhe_mono [of x "of_int n"] by simp

lemma of_int_le_rhe: "of_int n \<le> x \<Longrightarrow> n \<le> rhe x"
  using rhe_mono [of "of_int n" x] by simp

section \<open>The binade of a positive rational\<close>

lemma pow2_pos [simp]: "0 < (2::rat) powi e"
  by (simp add: zero_less_power_int)

lemma pow2_mono: "d \<le> e \<Longrightarrow> (2::rat) powi d \<le> 2 powi e"
  by (simp add: power_int_increasing)

lemma pow2_add: "(2::rat) powi (d + e) = 2 powi d * 2 powi e"
  by (simp add: power_int_add)

lemma pow2_less_iff: "(2::rat) powi d < 2 powi e \<longleftrightarrow> d < e"
  by (meson linorder_not_less pow2_mono power_int_strict_increasing zero_less_numeral
      less_imp_le_nat one_less_numeral_iff semiring_norm(76) dual_order.strict_trans2 order_less_irrefl)

lemma bitlen_bounds:
  "0 < n \<Longrightarrow> 2 powi (bitlen n - 1) \<le> (of_int n :: rat) \<and> of_int n < (2::rat) powi bitlen n"
proof (induction n rule: bitlen.induct)
  case (1 n)
  define q where "q = n div 2"
  have n: "2 * q \<le> n" "n < 2 * (q + 1)" by (simp_all add: q_def)
  have bl: "bitlen n = bitlen q + 1" using "1.prems" by (simp add: bitlen.simps [of n] q_def)
  show ?case
  proof (cases "q = 0")
    case True
    then have "n = 1" using n "1.prems" by simp
    then show ?thesis by (simp add: bl True) (simp add: bitlen.simps)
  next
    case False
    then have q0: "0 < q" using n "1.prems" by simp
    then have ih: "2 powi (bitlen q - 1) \<le> (of_int q :: rat)" "of_int q < (2::rat) powi bitlen q"
      using "1.IH" "1.prems" by (auto simp: q_def)
    have "0 \<le> bitlen k" for k by (induction k rule: bitlen.induct) (subst bitlen.simps, simp)
    then obtain k where k: "bitlen q = int k" by (metis nonneg_int_cases)
    then have "q < 2 ^ k" using ih(2) by (metis of_int_less_iff of_int_numeral of_int_power power_int_of_nat)
    then have "n < 2 ^ Suc k" using n by simp
    then have "(of_int n :: rat) < 2 ^ Suc k" by (metis of_int_less_iff of_int_numeral of_int_power)
    moreover have "(2::rat) powi (bitlen n) = 2 ^ Suc k" by (simp add: bl k power_int_add)
    moreover have "2 powi (bitlen n - 1) = 2 * (2::rat) powi (bitlen q - 1)"
      using pow2_add [of 1 "bitlen q - 1"] by (simp add: bl)
    moreover have "2 * (of_int q :: rat) \<le> of_int n" using n(1) by (metis of_int_le_iff of_int_mult of_int_numeral)
    ultimately show ?thesis using ih(1) by linarith
  qed
qed

lemma fexp_bounds:
  assumes x: "0 < x"
  shows "2 powi (fexp x + 52) \<le> x \<and> x < 2 powi (fexp x + 53)"
proof -
  obtain a b where q: "quotient_of x = (a, b)" by fastforce
  have b0: "0 < b" using q quotient_of_denom_pos by blast
  have xab: "x = of_int a / of_int b" using q quotient_of_div by blast
  have a0: "0 < a" using x b0 by (simp add: xab zero_less_divide_iff)
  define la where "la = bitlen a"
  define lb where "lb = bitlen b"
  have A: "2 powi (la - 1) \<le> (of_int a :: rat)" "(of_int a :: rat) < 2 powi la"
    using bitlen_bounds [of a] a0 by (auto simp: la_def)
  have B: "2 powi (lb - 1) \<le> (of_int b :: rat)" "(of_int b :: rat) < 2 powi lb"
    using bitlen_bounds [of b] b0 by (auto simp: lb_def)
  have bpos: "(0::rat) < of_int b" using b0 by simp
  have lo: "2 powi (la - lb - 1) \<le> x"
  proof -
    have "(2::rat) powi (la - lb - 1) * of_int b \<le> 2 powi (la - lb - 1) * 2 powi lb"
      using B by (intro mult_left_mono) auto
    also have "\<dots> = 2 powi (la - 1)" by (simp flip: pow2_add)
    also have "\<dots> \<le> of_int a" by (rule A)
    finally show ?thesis using bpos by (simp add: xab pos_le_divide_eq)
  qed
  have hi: "x < 2 powi (la - lb + 1)"
  proof -
    have "of_int a < (2::rat) powi la" by (rule A)
    also have "\<dots> = 2 powi (la - lb + 1) * 2 powi (lb - 1)" by (simp flip: pow2_add)
    also have "\<dots> \<le> 2 powi (la - lb + 1) * of_int b"
      using B by (intro mult_left_mono) auto
    finally show ?thesis using bpos by (simp add: xab pos_divide_less_eq)
  qed
  have fe: "fexp x = (if x < 2 powi (la - lb) then la - lb - 53 else la - lb - 53 + 1)"
    by (simp add: fexp_def q la_def lb_def)
  show ?thesis
  proof (cases "x < 2 powi (la - lb)")
    case True
    then show ?thesis using lo by (simp add: fe)
  next
    case False
    then show ?thesis using hi by (simp add: fe add.commute)
  qed
qed

lemma fexp_le_iff: "0 < x \<Longrightarrow> fexp x \<le> e \<longleftrightarrow> x < 2 powi (e + 53)"
proof
  assume x: "0 < x" and le: "fexp x \<le> e"
  have "(2::rat) powi (fexp x + 53) \<le> 2 powi (e + 53)" using le by (intro pow2_mono) simp
  with fexp_bounds [OF x] show "x < 2 powi (e + 53)" by linarith
next
  assume x: "0 < x" and lt: "x < 2 powi (e + 53)"
  with fexp_bounds [OF x] have "(2::rat) powi (fexp x + 52) < 2 powi (e + 53)" by linarith
  then show "fexp x \<le> e" by (simp add: pow2_less_iff)
qed

lemma fexp_mono: "0 < x \<Longrightarrow> x \<le> y \<Longrightarrow> fexp x \<le> fexp y"
  using fexp_le_iff [of x "fexp y"] fexp_bounds [of y] by force

lemma fexp_eqI: "0 < x \<Longrightarrow> 2 powi (e + 52) \<le> x \<Longrightarrow> x < 2 powi (e + 53) \<Longrightarrow> fexp x = e"
  using fexp_le_iff [of x e] fexp_le_iff [of x "e - 1"] by (simp add: algebra_simps)

lemma ulp_exp_mono: "0 < x \<Longrightarrow> x \<le> y \<Longrightarrow> ulp_exp x \<le> ulp_exp y"
  using fexp_mono [of x y] by (simp add: ulp_exp_def)

section \<open>Rounding to a float\<close>

lemma rnd_pos_nonneg: "0 < x \<Longrightarrow> 0 \<le> rnd_pos x"
  using of_int_le_rhe [of 0 "x / 2 powi ulp_exp x"] by (simp add: rnd_pos_def)

lemma rnd_pos_upper:
  assumes x: "0 < x" and e: "ulp_exp x \<le> e"
  shows "rnd_pos x \<le> 2 powi (e + 53)"
proof -
  have "x < 2 powi (ulp_exp x + 53)"
    using fexp_le_iff [OF x, of "ulp_exp x"] by (simp add: ulp_exp_def)
  then have "x / 2 powi ulp_exp x \<le> of_int (2 ^ 53)"
    by (simp add: pow2_add pos_divide_le_eq mult.commute)
  then have "rhe (x / 2 powi ulp_exp x) \<le> 2 ^ 53" by (rule rhe_le_of_int)
  then have "rnd_pos x \<le> of_int (2 ^ 53) * 2 powi ulp_exp x"
    unfolding rnd_pos_def by (intro mult_right_mono) (simp_all only: of_int_le_iff pow2_pos less_imp_le)
  also have "\<dots> = 2 powi (ulp_exp x + 53)" by (simp add: pow2_add)
  also have "\<dots> \<le> 2 powi (e + 53)" using e by (intro pow2_mono) simp
  finally show ?thesis .
qed

lemma rnd_pos_lower:
  assumes x: "0 < x" and e: "- 1074 < ulp_exp x"
  shows "2 powi (ulp_exp x + 52) \<le> rnd_pos x"
proof -
  have "ulp_exp x = fexp x" using e by (simp add: ulp_exp_def)
  then have "2 powi (ulp_exp x + 52) \<le> x" using fexp_bounds [OF x] by simp
  then have "of_int (2 ^ 52) \<le> x / 2 powi ulp_exp x"
    by (simp add: pow2_add pos_le_divide_eq mult.commute)
  then have "2 ^ 52 \<le> rhe (x / 2 powi ulp_exp x)" by (rule of_int_le_rhe)
  then have "of_int (2 ^ 52) * 2 powi ulp_exp x \<le> rnd_pos x"
    unfolding rnd_pos_def by (intro mult_right_mono) (simp_all only: of_int_le_iff pow2_pos less_imp_le)
  then show ?thesis by (simp add: pow2_add mult.commute)
qed

lemma rnd_pos_mono:
  assumes x: "0 < x" and xy: "x \<le> y"
  shows "rnd_pos x \<le> rnd_pos y"
proof (cases "ulp_exp x = ulp_exp y")
  case True
  have "x / 2 powi ulp_exp x \<le> y / 2 powi ulp_exp x"
    using xy by (intro divide_right_mono) (simp_all add: less_imp_le)
  then have "rhe (x / 2 powi ulp_exp x) \<le> rhe (y / 2 powi ulp_exp y)"
    unfolding True by (rule rhe_mono)
  then show ?thesis unfolding rnd_pos_def True
    by (intro mult_right_mono) (simp_all add: less_imp_le)
next
  case False
  with ulp_exp_mono [OF x xy] have lt: "ulp_exp x \<le> ulp_exp y - 1" by simp
  have "rnd_pos x \<le> 2 powi (ulp_exp y - 1 + 53)" using x lt by (rule rnd_pos_upper)
  also have "\<dots> = 2 powi (ulp_exp y + 52)" by (simp add: algebra_simps)
  also have "\<dots> \<le> rnd_pos y"
    using x xy lt by (intro rnd_pos_lower) (auto simp: ulp_exp_def)
  finally show ?thesis .
qed

lemma rnd_0 [simp]: "rnd 0 = 0"
  by (simp add: rnd_def)

lemma rnd_minus [simp]: "rnd (- x) = - rnd x"
  by (auto simp: rnd_def)

lemma rnd_nonneg: "0 \<le> x \<Longrightarrow> 0 \<le> rnd x"
  using rnd_pos_nonneg [of x] by (auto simp: rnd_def)

lemma rnd_mono:
  assumes xy: "x \<le> y"
  shows "rnd x \<le> rnd y"
proof -
  consider "0 \<le> x" | "x < 0" "0 \<le> y" | "y < 0" using xy by linarith
  then show ?thesis
  proof cases
    case 1
    then show ?thesis using xy rnd_pos_mono [of x y] rnd_nonneg [of y] by (auto simp: rnd_def)
  next
    case 2
    then show ?thesis using rnd_nonneg [of "- x"] rnd_nonneg [of y] by simp
  next
    case 3
    then show ?thesis using xy rnd_pos_mono [of "- y" "- x"] by (auto simp: rnd_def)
  qed
qed

subsection \<open>Representable rationals are fixed points\<close>

definition representable :: "rat \<Rightarrow> bool" where
  "representable r \<longleftrightarrow> (\<exists>m e. \<bar>m\<bar> \<le> 2 ^ 53 \<and> - 1074 \<le> e \<and> r = of_int m * 2 powi e)"

lemma rnd_pos_exact:
  assumes r: "0 < r" and e: "ulp_exp r \<le> e" and re: "r = of_int m * 2 powi e"
  shows "rnd_pos r = r"
proof -
  obtain k where k: "e = ulp_exp r + int k" using e zle_iff_zadd by blast
  have "r / 2 powi ulp_exp r = of_int (m * 2 ^ k)"
    by (subst re) (simp add: k pow2_add)
  moreover from this have "of_int (m * 2 ^ k) * 2 powi ulp_exp r = r"
    by (metis nonzero_eq_divide_eq pow2_pos less_irrefl)
  ultimately show ?thesis unfolding rnd_pos_def by (metis rhe_of_int)
qed

lemma rnd_pos_representable:
  assumes r: "0 < r" and m: "m \<le> 2 ^ 53" and e: "- 1074 \<le> e" and re: "r = of_int m * 2 powi e"
  shows "rnd_pos r = r"
proof (cases "m = 2 ^ 53")
  case False
  with m have "m < 2 ^ 53" by simp
  then have "(of_int m :: rat) < 2 ^ 53" by (metis of_int_less_iff of_int_numeral of_int_power)
  then have "r < 2 powi (e + 53)"
    unfolding re pow2_add by (simp add: mult.commute)
  then have "ulp_exp r \<le> e" using fexp_le_iff [OF r] e by (simp add: ulp_exp_def)
  then show ?thesis using r re by (intro rnd_pos_exact)
next
  case True
  then have r': "r = of_int (2 ^ 52) * 2 powi (e + 1)" by (simp add: re pow2_add)
  then have "r < 2 powi (e + 1 + 53)" by (simp add: pow2_add)
  then have "ulp_exp r \<le> e + 1" using fexp_le_iff [OF r] e by (simp add: ulp_exp_def)
  then show ?thesis using r r' by (intro rnd_pos_exact)
qed

lemma rnd_representable: "representable r \<Longrightarrow> rnd r = r"
proof -
  assume "representable r"
  then obtain m e where m: "\<bar>m\<bar> \<le> 2 ^ 53" and e: "- 1074 \<le> e" and re: "r = of_int m * 2 powi e"
    by (auto simp: representable_def)
  consider "r = 0" | "0 < r" | "r < 0" by linarith
  then show ?thesis
  proof cases
    case 2
    then show ?thesis using rnd_pos_representable [OF 2 _ e re] m by (simp add: rnd_def)
  next
    case 3
    then have "0 < - r" "- r = of_int (- m) * 2 powi e" by (auto simp: re)
    then show ?thesis using rnd_pos_representable [of "- r" "- m" e] m e 3 by (simp add: rnd_def)
  qed simp
qed

lemma rnd_of_int: "\<bar>n\<bar> \<le> 2 ^ 53 \<Longrightarrow> rnd (of_int n) = of_int n"
proof (rule rnd_representable)
  assume n: "\<bar>n\<bar> \<le> 2 ^ 53"
  have "of_int n = (of_int n :: rat) * 2 powi 0" by simp
  with n show "representable (of_int n)" unfolding representable_def
    by (intro exI [of _ n] exI [of _ 0]) simp
qed

lemma rnd_numeral [fcalc]: "(numeral k :: int) \<le> 2 ^ 53 \<Longrightarrow> rnd (numeral k) = numeral k"
  using rnd_of_int [of "numeral k"] by simp

lemma rnd_1 [simp]: "rnd 1 = 1"
  using rnd_of_int [of 1] by simp


lemma representable_of_int: "\<bar>n\<bar> \<le> 2 ^ 53 \<Longrightarrow> representable (of_int n)"
proof -
  assume n: "\<bar>n\<bar> \<le> 2 ^ 53"
  have "of_int n = (of_int n :: rat) * 2 powi 0" by simp
  with n show ?thesis unfolding representable_def by (intro exI [of _ n] exI [of _ 0]) simp
qed

lemma representable_0 [simp]: "representable 0"
  using representable_of_int [of 0] by simp

lemma representable_1 [simp]: "representable 1"
  using representable_of_int [of 1] by simp

lemma representable_uminus: "representable r \<Longrightarrow> representable (- r)"
proof -
  assume "representable r"
  then obtain m e where "\<bar>m\<bar> \<le> 2 ^ 53" "- 1074 \<le> e" "r = of_int m * 2 powi e"
    by (auto simp: representable_def)
  then show ?thesis unfolding representable_def
    by (intro exI [of _ "- m"] exI [of _ e]) simp
qed

lemma representable_minus [simp]: "representable (- r) \<longleftrightarrow> representable r"
  using representable_uminus [of r] representable_uminus [of "- r"] by auto

lemma rnd_pos_is_representable:
  assumes x: "0 < x" shows "representable (rnd_pos x)"
proof -
  have "rnd_pos x \<le> 2 powi (ulp_exp x + 53)" using x by (rule rnd_pos_upper) simp
  then have "of_int (rhe (x / 2 powi ulp_exp x)) \<le> (of_int (2 ^ 53) :: rat)"
    by (simp add: rnd_pos_def pow2_add mult.commute)
  then have "rhe (x / 2 powi ulp_exp x) \<le> 2 ^ 53" by (simp only: of_int_le_iff)
  moreover have "0 \<le> rhe (x / 2 powi ulp_exp x)"
    using x by (intro of_int_le_rhe) simp
  ultimately show ?thesis unfolding representable_def rnd_pos_def
    by (intro exI [of _ "rhe (x / 2 powi ulp_exp x)"] exI [of _ "ulp_exp x"]) (simp add: ulp_exp_def)
qed

lemma representable_rnd [simp]: "representable (rnd x)"
  using rnd_pos_is_representable [of x] rnd_pos_is_representable [of "- x"]
  by (cases "0 < x"; cases "x = 0") (auto simp: rnd_def)

text \<open>Evaluation at a concrete rational: name the exponent and the significand.\<close>

lemma rhe_eqI: "\<bar>x - of_int m\<bar> < 1/2 \<Longrightarrow> rhe x = m"
proof -
  assume a: "\<bar>x - of_int m\<bar> < 1/2"
  then have "x < of_int m + 1/2" "of_int m - 1/2 < x" unfolding abs_less_iff by linarith+
  then have "\<lfloor>x\<rfloor> = m \<or> \<lfloor>x\<rfloor> = m - 1"
    unfolding floor_eq_iff by simp linarith
  then show ?thesis using a by (auto simp: rhe_def Let_def abs_less_iff)
qed

lemma rnd_eqI:
  assumes "2 powi (e + 52) \<le> x" "x < 2 powi (e + 53)" "- 1074 \<le> e"
    "\<bar>x / 2 powi e - of_int m\<bar> < 1/2"
  shows "rnd x = of_int m * 2 powi e"
proof -
  have x: "0 < x" using assms(1) pow2_pos [of "e + 52"] by linarith
  have "ulp_exp x = e" using fexp_eqI [OF x assms(1,2)] assms(3) by (simp add: ulp_exp_def)
  then show ?thesis using x rhe_eqI [OF assms(4)] by (simp add: rnd_def rnd_pos_def)
qed

section \<open>Floats\<close>

definition wf64 :: "f64 \<Rightarrow> bool" where
  \<comment> \<open>the value is one that a \<open>float64\<close> can hold\<close>
  "wf64 a \<longleftrightarrow> representable (val a) \<and> \<bar>val a\<bar> < 2 ^ 1024"

lemma wf64_fl [simp]: "wf64 (fl s x)"
  by (auto simp: wf64_def fl_def Let_def not_le)

lemma wf64_fneg [simp]: "wf64 (fneg a) \<longleftrightarrow> wf64 a"
  by (cases a rule: fneg.cases) (auto simp: wf64_def)

lemma fl_not_NaN [simp]: "fl s x \<noteq> NaN"
  by (auto simp: fl_def Let_def)

lemma val_fl_fin: "fin (fl s x) \<Longrightarrow> val (fl s x) = rnd x"
  by (auto simp: fl_def Let_def split: if_splits)

lemma fin_fl_iff: "fin (fl s x) \<longleftrightarrow> \<bar>rnd x\<bar> < 2 ^ 1024"
  by (auto simp: fl_def Let_def abs_less_iff)

lemma fl_le_fl: "x \<le> y \<Longrightarrow> fl s x \<le> fl t y"
  using rnd_mono [of x y] by (auto simp: fl_def Let_def less_eq_f64_def)

lemma fl_rep:
  assumes "representable r" "\<bar>r\<bar> < 2 ^ 1024"
  shows "fl s r = (if r = 0 then (if s then FNegZero else FNum 0) else FNum r)"
  using assms rnd_representable [of r] by (auto simp: fl_def Let_def)

lemma le_fl_rep: "representable r \<Longrightarrow> \<bar>r\<bar> < 2 ^ 1024 \<Longrightarrow> r \<le> x \<Longrightarrow> FNum r \<le> fl s x"
  using fl_le_fl [of r x s s] fl_rep [of r s] by (auto simp: less_eq_f64_def split: if_splits)
    (cases "fl True x"; simp)+

lemma fl_le_rep: "representable r \<Longrightarrow> \<bar>r\<bar> < 2 ^ 1024 \<Longrightarrow> x \<le> r \<Longrightarrow> fl s x \<le> FNum r"
  using fl_le_fl [of x r s s] fl_rep [of r s] by (auto simp: less_eq_f64_def split: if_splits)
    (cases "fl True x"; simp)+


lemma fl_eqI: "rnd x = r \<Longrightarrow> r \<noteq> 0 \<Longrightarrow> \<bar>r\<bar> < 2 ^ 1024 \<Longrightarrow> fl s x = FNum r"
  by (auto simp: fl_def Let_def)

lemma fl_int [fcalc]:
  "fl s 0 = (if s then FNegZero else FNum 0)"
  "fl s 1 = FNum 1"
  "(numeral k :: int) \<le> 2 ^ 53 \<Longrightarrow> fl s (numeral k) = FNum (numeral k)"
  "fl s (- 1) = FNum (- 1)"
  "(numeral k :: int) \<le> 2 ^ 53 \<Longrightarrow> fl s (- numeral k) = FNum (- numeral k)"
proof -
  show "fl s 0 = (if s then FNegZero else FNum 0)" by (simp add: fl_def)
  show "fl s 1 = FNum 1" by (rule fl_eqI) simp_all
  show "fl s (- 1) = FNum (- 1)" by (rule fl_eqI) simp_all
next
  assume k: "(numeral k :: int) \<le> 2 ^ 53"
  have "(of_int (numeral k) :: rat) \<le> of_int (2 ^ 53)" using k by (simp only: of_int_le_iff)
  then have b: "(numeral k :: rat) < 2 ^ 1024" by (simp add: le_less_trans)
  show "fl s (numeral k) = FNum (numeral k)" using k b by (intro fl_eqI rnd_numeral) simp_all
  show "fl s (- numeral k) = FNum (- numeral k)" using k b rnd_numeral [OF k] by (intro fl_eqI) simp_all
qed

section \<open>Order\<close>

text \<open>Comparison is a total preorder on the values that are not NaN.\<close>

lemma f64_le_refl [simp]: "(a::f64) \<le> a \<longleftrightarrow> a \<noteq> NaN"
  by (cases a) (auto simp: less_eq_f64_def)

lemma f64_le_trans [trans]: "(a::f64) \<le> b \<Longrightarrow> b \<le> c \<Longrightarrow> a \<le> c"
  by (cases a; cases b; cases c) (auto simp: less_eq_f64_def)

lemma f64_le_not_NaN: "(a::f64) \<le> b \<Longrightarrow> a \<noteq> NaN \<and> b \<noteq> NaN"
  by (cases a; cases b) (auto simp: less_eq_f64_def)

lemma f64_less_not_NaN: "(a::f64) < b \<Longrightarrow> a \<noteq> NaN \<and> b \<noteq> NaN"
  by (cases a; cases b) (auto simp: less_f64_def)

lemma f64_NaN_cmp [simp]: "\<not> NaN \<le> a" "\<not> a \<le> NaN" "\<not> NaN < a" "\<not> a < NaN"
  by (cases a; simp add: less_eq_f64_def less_f64_def)+

lemma f64_not_le: "a \<noteq> NaN \<Longrightarrow> b \<noteq> NaN \<Longrightarrow> \<not> (a::f64) \<le> b \<longleftrightarrow> b < a"
  by (cases a; cases b) (auto simp: less_eq_f64_def less_f64_def)

lemma f64_not_less: "a \<noteq> NaN \<Longrightarrow> b \<noteq> NaN \<Longrightarrow> \<not> (a::f64) < b \<longleftrightarrow> b \<le> a"
  by (cases a; cases b) (auto simp: less_eq_f64_def less_f64_def)

lemma f64_less_imp_le: "(a::f64) < b \<Longrightarrow> a \<le> b"
  by (cases a; cases b) (auto simp: less_eq_f64_def less_f64_def)

lemma f64_le_less_trans [trans]: "(a::f64) \<le> b \<Longrightarrow> b < c \<Longrightarrow> a < c"
  by (cases a; cases b; cases c) (auto simp: less_eq_f64_def less_f64_def)

lemma f64_less_le_trans [trans]: "(a::f64) < b \<Longrightarrow> b \<le> c \<Longrightarrow> a < c"
  by (cases a; cases b; cases c) (auto simp: less_eq_f64_def less_f64_def)

lemma f64_less_irrefl [simp]: "\<not> (a::f64) < a"
  by (cases a) (auto simp: less_f64_def)

lemma f64_less_asym: "(a::f64) < b \<Longrightarrow> \<not> b \<le> a"
  by (cases a; cases b) (auto simp: less_eq_f64_def less_f64_def)

lemma f64_le_fin: "fin a \<Longrightarrow> fin b \<Longrightarrow> a \<le> b \<longleftrightarrow> val a \<le> val b"
  by (cases a; cases b) (auto simp: less_eq_f64_def)

lemma f64_less_fin: "fin a \<Longrightarrow> fin b \<Longrightarrow> a < b \<longleftrightarrow> val a < val b"
  by (cases a; cases b) (auto simp: less_f64_def)

lemma fin_not_NaN: "fin a \<Longrightarrow> a \<noteq> NaN"
  by (cases a) auto

lemma fin_between: "a \<le> b \<Longrightarrow> b \<le> c \<Longrightarrow> fin a \<Longrightarrow> fin c \<Longrightarrow> fin b"
  by (cases a; cases b; cases c) (auto simp: less_eq_f64_def)

lemma fin_01 [simp]: "fin 0" "fin 1" "val 0 = 0" "val 1 = 1" "wf64 0" "wf64 1"
  by (simp_all add: zero_f64_def one_f64_def wf64_def)

lemma f64_01_not_NaN [simp]: "(0::f64) \<noteq> NaN" "NaN \<noteq> (0::f64)" "(1::f64) \<noteq> NaN" "NaN \<noteq> (1::f64)"
  by (simp_all add: zero_f64_def one_f64_def)

section \<open>Arithmetic on finite values\<close>

lemma fadd_fin: "fin a \<Longrightarrow> fin b \<Longrightarrow>
    a + b = (if a = FNegZero \<and> b = FNegZero then FNegZero else fl False (val a + val b))"
  by (cases a; cases b) (auto simp: plus_f64_def)

lemma fin_fneg [simp]: "fin (fneg a) \<longleftrightarrow> fin a" and val_fneg [simp]: "val (fneg a) = - val a"
  by (cases a; simp)+

lemma fsub_eq: "a - b = a + fneg b"
  by (simp add: minus_f64_def plus_f64_def)

lemma fmul_fin: "fin a \<Longrightarrow> fin b \<Longrightarrow> a * b = fl (signbit a \<noteq> signbit b) (val a * val b)"
  by (cases a; cases b) (auto simp: times_f64_def)

lemma fdiv_fin: "fin a \<Longrightarrow> fin b \<Longrightarrow> val b \<noteq> 0 \<Longrightarrow>
    a / b = fl (signbit a \<noteq> signbit b) (val a / val b)"
  by (cases a; cases b) (auto simp: divide_f64_def)

lemma wf64_add [simp]: "wf64 a \<Longrightarrow> wf64 b \<Longrightarrow> wf64 (a + b)"
  by (cases a; cases b) (auto simp: plus_f64_def wf64_def [of FNegZero] wf64_def [of NaN] wf64_def [of "FInf _"])

lemma wf64_sub [simp]: "wf64 a \<Longrightarrow> wf64 b \<Longrightarrow> wf64 (a - b)"
  by (simp add: fsub_eq)

lemma wf64_special [simp]: "wf64 NaN" "wf64 (FInf s)" "wf64 FNegZero"
  by (simp_all add: wf64_def)

lemma wf64_mul [simp]: "wf64 (a * b)"
  by (cases a; cases b) (auto simp: times_f64_def)

lemma wf64_div [simp]: "wf64 (a / b)"
  by (cases a; cases b) (auto simp: divide_f64_def simp flip: zero_f64_def)

lemma f64_nonneg_cases: "0 \<le> a \<Longrightarrow> a = FNegZero \<or> a = FInf False \<or> (\<exists>r\<ge>0. a = FNum r)"
  by (cases a) (auto simp: less_eq_f64_def zero_f64_def)

lemma fl_nonneg: "0 \<le> x \<Longrightarrow> 0 \<le> fl s x"
  unfolding zero_f64_def by (rule le_fl_rep) simp_all

lemma fl_nonpos: "x \<le> 0 \<Longrightarrow> fl s x \<le> 0"
  unfolding zero_f64_def by (rule fl_le_rep) simp_all


lemma f64_add_nonneg: "0 \<le> a \<Longrightarrow> 0 \<le> b \<Longrightarrow> 0 \<le> (a + b :: f64)"
  by (drule f64_nonneg_cases, drule f64_nonneg_cases)
    (auto simp: plus_f64_def fl_nonneg, auto simp: less_eq_f64_def zero_f64_def)

lemma f64_mul_nonneg: "0 \<le> a \<Longrightarrow> 0 \<le> b \<Longrightarrow> fin a \<Longrightarrow> fin b \<Longrightarrow> 0 \<le> (a * b :: f64)"
  by (simp add: fmul_fin f64_le_fin fl_nonneg)

lemma f64_div_nonneg:
  assumes "0 \<le> a" "0 < b" "fin a \<or> fin b" shows "0 \<le> (a / b :: f64)"
proof -
  have b: "0 \<le> b" using assms(2) by (rule f64_less_imp_le)
  show ?thesis using f64_nonneg_cases [OF assms(1)] f64_nonneg_cases [OF b] assms(2,3)
    by (auto simp: divide_f64_def fl_nonneg) (auto simp: less_eq_f64_def less_f64_def zero_f64_def)
qed

lemma f64_sub_nonneg: "b \<le> a \<Longrightarrow> fin b \<Longrightarrow> 0 \<le> (a - b :: f64)"
proof -
  assume le: "b \<le> a" and b: "fin b"
  show ?thesis
  proof (cases "fin a")
    case True
    then show ?thesis using le b
      by (auto simp: fsub_eq fadd_fin f64_le_fin fl_nonneg)
  next
    case False
    then have "a = FInf False" using le b by (cases a; cases b) (auto simp: less_eq_f64_def)
    then show ?thesis using b by (cases b) (auto simp: fsub_eq plus_f64_def less_eq_f64_def zero_f64_def)
  qed
qed

lemma val_less_pow: "fin a \<Longrightarrow> wf64 a \<Longrightarrow> FNum (val a) \<le> a \<and> a \<le> FNum (val a)"
  by (cases a) (auto simp: less_eq_f64_def)

lemma fl_le_val: "fin a \<Longrightarrow> wf64 a \<Longrightarrow> x \<le> val a \<Longrightarrow> fl s x \<le> a"
  using fl_le_rep [of "val a" x s] val_less_pow [of a] f64_le_trans by (auto simp: wf64_def)

lemma val_le_fl: "fin a \<Longrightarrow> wf64 a \<Longrightarrow> val a \<le> x \<Longrightarrow> a \<le> fl s x"
  using le_fl_rep [of "val a" x s] val_less_pow [of a] f64_le_trans by (auto simp: wf64_def)

lemma f64_sub_le: "fin a \<Longrightarrow> wf64 a \<Longrightarrow> fin b \<Longrightarrow> 0 \<le> b \<Longrightarrow> (a - b :: f64) \<le> a"
  by (auto simp: fsub_eq fadd_fin f64_le_fin intro!: fl_le_val)

lemma f64_add_ge: "fin a \<Longrightarrow> wf64 a \<Longrightarrow> fin b \<Longrightarrow> 0 \<le> b \<Longrightarrow> a \<le> (a + b :: f64)"
  by (auto simp: fadd_fin f64_le_fin intro!: val_le_fl)

lemma f64_add_right_mono:
  "fin a \<Longrightarrow> fin b \<Longrightarrow> fin c \<Longrightarrow> a \<le> b \<Longrightarrow> (a + c :: f64) \<le> b + c"
  by (auto simp: fadd_fin f64_le_fin intro!: fl_le_fl fl_le_val [of FNegZero] val_le_fl [of FNegZero])

lemma f64_div_le_one:
  assumes "0 \<le> a" "a \<le> b" "0 < b" "fin b" shows "(a / b :: f64) \<le> 1"
proof -
  have a: "fin a" using fin_between [OF assms(1,2)] assms(4) by simp
  have v: "0 \<le> val a" "val a \<le> val b" "0 < val b"
    using assms a by (auto simp: f64_le_fin f64_less_fin)
  then have "val a / val b \<le> val 1" by simp
  then have "fl (signbit a \<noteq> signbit b) (val a / val b) \<le> 1" by (intro fl_le_val) simp_all
  then show ?thesis using a assms(4) v by (simp add: fdiv_fin)
qed

lemma f64_mul_le_hundred:
  assumes "0 \<le> a" "a \<le> 1" shows "(a * FNum 100 :: f64) \<le> FNum 100"
proof -
  have a: "fin a" using fin_between [OF assms] by simp
  have "val a \<le> 1" using assms a by (simp add: f64_le_fin)
  moreover have "wf64 (FNum 100)" using representable_of_int [of 100] by (simp add: wf64_def)
  ultimately show ?thesis using a by (simp add: fmul_fin fl_le_val)
qed

lemma f64_one_le_add: "0 \<le> a \<Longrightarrow> 1 \<le> (1 + a :: f64)"
proof (cases "fin a")
  case False
  moreover assume "0 \<le> a"
  ultimately show ?thesis
    by (cases a) (auto simp: plus_f64_def one_f64_def zero_f64_def less_eq_f64_def)
qed (simp add: f64_add_ge)

section \<open>Evaluation\<close>

lemma fnum_ops [fcalc]:
  "FNum a + FNum b = fl False (a + b)"
  "FNum a - FNum b = fl False (a - b)"
  "FNum a * FNum b = fl ((a < 0) \<noteq> (b < 0)) (a * b)"
  "b \<noteq> 0 \<Longrightarrow> FNum a / FNum b = fl ((a < 0) \<noteq> (b < 0)) (a / b)"
  "FNum a \<le> FNum b \<longleftrightarrow> a \<le> b"
  "FNum a < FNum b \<longleftrightarrow> a < b"
  "flit q = fl False q"
  "fint n = fl False (of_int n)"
  "(0::f64) = FNum 0"
  "(1::f64) = FNum 1"
  by (simp_all add: f64_ops_def flit_def fint_def)

lemma feq_zero_iff: "feq a 0 \<longleftrightarrow> fin a \<and> val a = 0"
  by (cases a) (auto simp: feq_def less_eq_f64_def zero_f64_def)

lemma NaN_ops [simp]: "NaN + a = NaN" "a + NaN = (NaN :: f64)" "NaN * a = NaN" "a * NaN = (NaN :: f64)"
    "NaN / a = NaN" "a / NaN = (NaN :: f64)"
  by (cases a; simp add: f64_ops_def)+

section \<open>Square root\<close>

lemma bitlen_nonneg: "0 \<le> bitlen n"
proof (induction n rule: bitlen.induct)
  case (1 n)
  show ?case
  proof (cases "n \<le> 0")
    case True then show ?thesis by (subst bitlen.simps) simp
  next
    case False with 1 show ?thesis by (subst bitlen.simps) simp
  qed
qed

lemma isqrt_bits_bounds:
  assumes "0 \<le> r" "r\<^sup>2 \<le> n" "n < (r + 2 ^ k)\<^sup>2"
  shows "0 \<le> isqrt_bits k r n \<and> (isqrt_bits k r n)\<^sup>2 \<le> n \<and> n < (isqrt_bits k r n + 1)\<^sup>2"
  using assms
proof (induction k arbitrary: r)
  case (Suc k)
  have two: "r + 2 ^ Suc k = r + 2 ^ k + 2 ^ k" by simp
  show ?case
    using Suc.IH [of "if (r + 2 ^ k)\<^sup>2 \<le> n then r + 2 ^ k else r"] Suc.prems unfolding two by auto
qed simp

lemma isqrt_bounds:
  assumes "0 \<le> n"
  shows "0 \<le> isqrt n \<and> (isqrt n)\<^sup>2 \<le> n \<and> n < (isqrt n + 1)\<^sup>2"
proof -
  have "n < (0 + 2 ^ nat (bitlen n))\<^sup>2"
  proof (cases "n = 0")
    case False
    with assms have pos: "0 < n" by simp
    have "(of_int n :: rat) < 2 powi bitlen n" using bitlen_bounds [OF pos] by simp
    moreover have nn: "0 \<le> bitlen n" by (rule bitlen_nonneg)
    ultimately have "(of_int n :: rat) < of_int (2 ^ nat (bitlen n))" by (simp add: power_int_def)
    then have "n < 2 ^ nat (bitlen n)" by (simp only: of_int_less_iff)
    also have "(2::int) ^ nat (bitlen n) \<le> (2 ^ nat (bitlen n))\<^sup>2"
      by (simp add: power2_eq_square)
    finally show ?thesis by simp
  qed simp
  then show ?thesis unfolding isqrt_def using assms by (intro isqrt_bits_bounds) simp_all
qed

lemma sqrt_approx_nonneg: "0 < x \<Longrightarrow> 0 \<le> sqrt_approx x"
  unfolding sqrt_approx_def Let_def using isqrt_bounds [of "\<lfloor>x * 4 ^ nat ((61 - fexp x) div 2)\<rfloor>"]
  by simp

lemma fsqrt_nonneg: "0 \<le> a \<Longrightarrow> 0 \<le> fsqrt a"
  by (cases a) (auto simp: f64_ops_def fl_nonneg [unfolded f64_ops_def] sqrt_approx_nonneg)

lemma fsqrt_zero [simp]: "fsqrt 0 = 0" "fsqrt (FNum 0) = FNum 0"
  by (simp_all add: f64_ops_def)

end
