(* ===== verification/TradingModel.thy ===== *)
theory TradingModel
  imports F64Facts
begin

text \<open>
  The data of services/trading-engine (internal/service/types.go, errors.go) and its two
  pure formulas (money.go). Times are nanoseconds since the epoch; a UUID is an abstract
  number.
\<close>

type_synonym gotime = int
type_synonym side = gostr

definition SideBuy :: side where "SideBuy = lit ''buy''"
definition SideSell :: side where "SideSell = lit ''sell''"

lemma side_lits: "SideBuy = [98, 117, 121]" "SideSell = [115, 101, 108, 108]" "SideBuy \<noteq> SideSell"
  by (simp_all add: SideBuy_def SideSell_def lit_def)

datatype order_status = StatusFilled | StatusRejected
datatype order_type = OrderTypeMarket

record order =
  o_id :: uuid
  o_symbol :: gostr
  o_side :: side
  o_quantity :: f64
  o_status :: order_status
  o_type :: order_type
  o_filled_price :: "f64 option"
  o_rejection_reason :: "string option"
  o_created_at :: gotime

record trade =
  t_id :: uuid
  t_order_id :: uuid
  t_symbol :: gostr
  t_side :: side
  t_quantity :: f64
  t_price :: f64
  t_realized_pl :: "f64 option"
  t_executed_at :: gotime

record holding =
  h_symbol :: gostr
  h_quantity :: f64
  h_avg_cost :: f64

record position =
  p_symbol :: gostr
  p_quantity :: f64
  p_avg_cost :: f64
  p_latest_price :: "f64 option"
  p_unrealized_pl :: f64

record place_order_request =
  rq_symbol :: gostr
  rq_side :: side
  rq_quantity :: f64

record place_order_result =
  pr_order :: order
  pr_trade :: trade
  pr_balance :: f64

record portfolio_response =
  pf_balance :: f64
  pf_positions :: "position list"
  pf_total_equity :: f64
  pf_total_unrealized_pl :: f64

record account =
  ac_id :: uuid
  ac_balance :: f64

record execute_order_params =
  x_account :: uuid
  x_symbol :: gostr
  x_side :: side
  x_quantity :: f64
  x_price :: f64

text \<open>\<open>ErrInfra\<close> is any error of the database, the network or the JSON layer that the
  service passes on without an identity of its own.\<close>

datatype trading_err = ErrInvalidOrder | ErrInsufficientBalance | ErrInsufficientPosition
  | ErrSymbolUnavailable | ErrUpstreamUnavailable | ErrAccountNotFound | ErrInfra

section \<open>The two formulas\<close>

definition WeightedAvgCost :: "f64 \<Rightarrow> f64 \<Rightarrow> f64 \<Rightarrow> f64 \<Rightarrow> f64" where
  "WeightedAvgCost oldQty oldAvg fillQty fillPrice =
     (let total = oldQty + fillQty
      in if feq total 0 then 0 else (oldAvg * oldQty + fillPrice * fillQty) / total)"

definition RealizedPL :: "f64 \<Rightarrow> f64 \<Rightarrow> f64 \<Rightarrow> f64" where
  "RealizedPL avgCost fillPrice quantity = (fillPrice - avgCost) * quantity"

lemma f64_mult_cong_le:
  assumes "fin a" "fin b" "fin c" "0 \<le> c" "a \<le> b"
  shows "(a * c :: f64) \<le> b * c"
  using assms by (auto simp: fmul_fin f64_le_fin intro!: fl_le_fl mult_right_mono)

lemma WeightedAvgCost_nonneg:
  assumes "0 \<le> q" "0 \<le> a" "0 \<le> fq" "0 \<le> fp" "fin q" "fin a" "fin fq" "fin fp" "fin (q + fq)"
  shows "0 \<le> WeightedAvgCost q a fq fp"
proof (cases "feq (q + fq) 0")
  case True
  then show ?thesis by (simp add: WeightedAvgCost_def)
next
  case False
  have n: "0 \<le> q + fq" using assms by (intro f64_add_nonneg)
  with False assms(9) have p: "0 < q + fq"
    using f64_le_fin [of 0 "q + fq"] f64_less_fin [of 0 "q + fq"] by (auto simp: feq_zero_iff)
  have "0 \<le> a * q + fp * fq"
    using assms by (intro f64_add_nonneg f64_mul_nonneg)
  then show ?thesis using p assms(9) False
    by (simp add: WeightedAvgCost_def f64_div_nonneg)
qed

end
