(* ===== verification/TradingStore.thy ===== *)
theory TradingStore
  imports TradingModel "HOL-Library.AList"
begin

text \<open>
  internal/store/postgres\_trading\_store.go of services/trading-engine: the tables the
  statements touch, one definition per statement, and the transaction that executes an
  order.

  Postgres and the pgx driver are outside the repository. What the store relies on is a
  parameter record \<open>pg\<close>: which statements fail, how the commit ends (a commit may be
  reported as failed and still be durable), what a NUMERIC(20,4) column gives back for a
  \<open>float64\<close> written to it (\<open>None\<close> when the server refuses the value), the
  identifiers \<open>gen_random_uuid()\<close> draws and the transaction's \<open>now()\<close>. The
  transaction works on a copy of the tables; leaving it without a commit is the rollback.
  The row lock of \<open>SELECT ... FOR UPDATE\<close> makes transactions on one account run one
  after the other, which is why a transaction is one function here.
\<close>

datatype stmt = BeginTx | LockAccount | InsertOrder | InsertTrade | ReadPosition
  | UpsertPosition | UpdateBalance | SelectAccount | SelectOrders | SelectHoldings | SelectTrades

record pg =
  pg_fails :: "stmt \<Rightarrow> bool"
  pg_commit :: commit_outcome
  pg_numeric :: "f64 \<Rightarrow> f64 option"
  pg_uuid :: "nat \<Rightarrow> uuid"
  pg_now :: gotime

record account_row =
  r_id :: uuid
  r_user :: uuid
  r_balance :: f64

record tdb =
  accounts :: "account_row list"
  positions :: "((uuid \<times> gostr) \<times> (f64 \<times> f64)) list"
  orders :: "(uuid \<times> order) list"
  trades :: "(uuid \<times> trade) list"
  rows :: nat

section \<open>Statements\<close>

definition balance_of :: "tdb \<Rightarrow> uuid \<Rightarrow> f64 option" where
  "balance_of db a = map_option r_balance (find (\<lambda>r. r_id r = a) (accounts db))"

definition AccountForUser :: "pg \<Rightarrow> uuid \<Rightarrow> tdb \<Rightarrow> trading_err + account" where
  "AccountForUser env user db =
     (if pg_fails env SelectAccount then Inl ErrInfra
      else case find (\<lambda>r. r_user r = user) (accounts db) of
        None \<Rightarrow> Inl ErrAccountNotFound
      | Some r \<Rightarrow> Inr \<lparr>ac_id = r_id r, ac_balance = r_balance r\<rparr>)"

fun numeric_opt :: "pg \<Rightarrow> f64 option \<Rightarrow> f64 option option" where
  "numeric_opt env None = Some None"
| "numeric_opt env (Some v) = map_option Some (pg_numeric env v)"

definition insertOrder :: "pg \<Rightarrow> execute_order_params \<Rightarrow> order_status \<Rightarrow> f64 option \<Rightarrow> string option
    \<Rightarrow> tdb \<Rightarrow> trading_err + order \<times> tdb" where
  "insertOrder env p status filledPrice reason db =
     (if pg_fails env InsertOrder \<or> balance_of db (x_account p) = None then Inl ErrInfra
      else case (pg_numeric env (x_quantity p), numeric_opt env filledPrice) of
        (Some q, Some fp) \<Rightarrow>
          (let o1 = \<lparr>o_id = pg_uuid env (rows db), o_symbol = x_symbol p, o_side = x_side p,
                 o_quantity = q, o_status = status, o_type = OrderTypeMarket,
                 o_filled_price = fp, o_rejection_reason = reason, o_created_at = pg_now env\<rparr>
           in Inr (o1, db\<lparr>orders := orders db @ [(x_account p, o1)], rows := Suc (rows db)\<rparr>))
      | _ \<Rightarrow> Inl ErrInfra)"

definition insertTrade :: "pg \<Rightarrow> execute_order_params \<Rightarrow> uuid \<Rightarrow> f64 option
    \<Rightarrow> tdb \<Rightarrow> trading_err + trade \<times> tdb" where
  "insertTrade env p orderID realizedPL db =
     (if pg_fails env InsertTrade then Inl ErrInfra
      else case (pg_numeric env (x_quantity p), pg_numeric env (x_price p), numeric_opt env realizedPL) of
        (Some q, Some pr, Some pl) \<Rightarrow>
          (let t1 = \<lparr>t_id = pg_uuid env (rows db), t_order_id = orderID, t_symbol = x_symbol p,
                 t_side = x_side p, t_quantity = q, t_price = pr, t_realized_pl = pl,
                 t_executed_at = pg_now env\<rparr>
           in Inr (t1, db\<lparr>trades := trades db @ [(x_account p, t1)], rows := Suc (rows db)\<rparr>))
      | _ \<Rightarrow> Inl ErrInfra)"

definition currentPosition :: "pg \<Rightarrow> uuid \<Rightarrow> gostr \<Rightarrow> tdb \<Rightarrow> trading_err + f64 \<times> f64" where
  "currentPosition env a symb db =
     (if pg_fails env ReadPosition then Inl ErrInfra
      else case map_of (positions db) (a, symb) of
        None \<Rightarrow> Inr (0, 0)
      | Some qc \<Rightarrow> Inr qc)"

definition upsertPosition :: "pg \<Rightarrow> uuid \<Rightarrow> gostr \<Rightarrow> f64 \<Rightarrow> f64 \<Rightarrow> tdb \<Rightarrow> trading_err + tdb" where
  "upsertPosition env a symb quantity avgCost db =
     (if pg_fails env UpsertPosition then Inl ErrInfra
      else case (pg_numeric env quantity, pg_numeric env avgCost) of
        (Some q, Some c) \<Rightarrow> Inr (db\<lparr>positions := AList.update (a, symb) (q, c) (positions db)\<rparr>)
      | _ \<Rightarrow> Inl ErrInfra)"

definition updateBalance :: "pg \<Rightarrow> uuid \<Rightarrow> f64 \<Rightarrow> tdb \<Rightarrow> trading_err + f64 \<times> tdb" where
  "updateBalance env a balance db =
     (if pg_fails env UpdateBalance then Inl ErrInfra
      else case pg_numeric env balance of
        None \<Rightarrow> Inl ErrInfra
      | Some b \<Rightarrow>
          if balance_of db a = None then Inl ErrInfra
          else Inr (b, db\<lparr>accounts := map (\<lambda>r. if r_id r = a then r\<lparr>r_balance := b\<rparr> else r) (accounts db)\<rparr>))"

section \<open>The transaction\<close>

fun commit_tx :: "pg \<Rightarrow> tdb \<Rightarrow> tdb \<Rightarrow> bool \<times> tdb" where
  "commit_tx env orig work =
     (case pg_commit env of
        CommitOk \<Rightarrow> (True, work)
      | CommitFailed \<Rightarrow> (False, orig)
      | CommitLost \<Rightarrow> (False, work))"

definition rejectWithin :: "pg \<Rightarrow> execute_order_params \<Rightarrow> string \<Rightarrow> tdb \<Rightarrow> (trading_err + unit) \<times> tdb" where
  "rejectWithin env p reason orig =
     (case insertOrder env p StatusRejected None (Some reason) orig of
        Inl e \<Rightarrow> (Inl e, orig)
      | Inr (_, work) \<Rightarrow>
          (case commit_tx env orig work of
             (ok, db) \<Rightarrow> (if ok then Inr () else Inl ErrInfra, db)))"

definition finish_tx :: "pg \<Rightarrow> tdb \<Rightarrow> trading_err + place_order_result \<times> tdb
    \<Rightarrow> (trading_err + place_order_result) \<times> tdb" where
  \<comment> \<open>every early return leaves through the deferred rollback; the last step commits\<close>
  "finish_tx env orig body =
     (case body of
        Inl e \<Rightarrow> (Inl e, orig)
      | Inr (res, work) \<Rightarrow>
          (case commit_tx env orig work of (ok, db) \<Rightarrow> (if ok then Inr res else Inl ErrInfra, db)))"

definition executeBuy :: "pg \<Rightarrow> execute_order_params \<Rightarrow> f64 \<Rightarrow> tdb
    \<Rightarrow> (trading_err + place_order_result) \<times> tdb" where
  "executeBuy env p balance orig =
     (let cost = x_price p * x_quantity p in
      if cost > balance then
        (case rejectWithin env p ''insufficient_balance'' orig of
           (Inl e, db) \<Rightarrow> (Inl e, db)
         | (Inr _, db) \<Rightarrow> (Inl ErrInsufficientBalance, db))
      else finish_tx env orig
        (sum_bind (insertOrder env p StatusFilled (Some (x_price p)) None orig) (\<lambda>(o1, w1).
         sum_bind (insertTrade env p (o_id o1) None w1) (\<lambda>(t1, w2).
         sum_bind (currentPosition env (x_account p) (x_symbol p) w2) (\<lambda>(qty, avgCost).
         let newQty = qty + x_quantity p;
             newAvg = WeightedAvgCost qty avgCost (x_quantity p) (x_price p) in
         sum_bind (upsertPosition env (x_account p) (x_symbol p) newQty newAvg w2) (\<lambda>w3.
         sum_bind (updateBalance env (x_account p) (balance - cost) w3) (\<lambda>(newBalance, w4).
         Inr (\<lparr>pr_order = o1, pr_trade = t1, pr_balance = newBalance\<rparr>, w4))))))))"

definition executeSell :: "pg \<Rightarrow> execute_order_params \<Rightarrow> f64 \<Rightarrow> tdb
    \<Rightarrow> (trading_err + place_order_result) \<times> tdb" where
  "executeSell env p balance orig =
     (case currentPosition env (x_account p) (x_symbol p) orig of
        Inl e \<Rightarrow> (Inl e, orig)
      | Inr (qty, avgCost) \<Rightarrow>
      if x_quantity p > qty then
        (case rejectWithin env p ''insufficient_position'' orig of
           (Inl e, db) \<Rightarrow> (Inl e, db)
         | (Inr _, db) \<Rightarrow> (Inl ErrInsufficientPosition, db))
      else finish_tx env orig
        (let realized = RealizedPL avgCost (x_price p) (x_quantity p) in
         sum_bind (insertOrder env p StatusFilled (Some (x_price p)) None orig) (\<lambda>(o1, w1).
         sum_bind (insertTrade env p (o_id o1) (Some realized) w1) (\<lambda>(t1, w2).
         let newQty = qty - x_quantity p in
         sum_bind (upsertPosition env (x_account p) (x_symbol p) newQty avgCost w2) (\<lambda>w3.
         sum_bind (updateBalance env (x_account p) (balance + x_price p * x_quantity p) w3) (\<lambda>(newBalance, w4).
         Inr (\<lparr>pr_order = o1, pr_trade = t1, pr_balance = newBalance\<rparr>, w4)))))))"

definition ExecuteOrder :: "pg \<Rightarrow> execute_order_params \<Rightarrow> tdb
    \<Rightarrow> (trading_err + place_order_result) \<times> tdb" where
  "ExecuteOrder env p db =
     (if pg_fails env BeginTx \<or> pg_fails env LockAccount then (Inl ErrInfra, db)
      else case balance_of db (x_account p) of
        None \<Rightarrow> (Inl ErrAccountNotFound, db)
      | Some balance \<Rightarrow>
          if x_side p = SideBuy then executeBuy env p balance db
          else if x_side p = SideSell then executeSell env p balance db
          else (Inl ErrInvalidOrder, db))"

definition RecordRejectedOrder :: "pg \<Rightarrow> uuid \<Rightarrow> gostr \<Rightarrow> side \<Rightarrow> f64 \<Rightarrow> string
    \<Rightarrow> tdb \<Rightarrow> (trading_err + order) \<times> tdb" where
  "RecordRejectedOrder env a symb side quantity reason db =
     (let p = \<lparr>x_account = a, x_symbol = symb, x_side = side, x_quantity = quantity, x_price = 0\<rparr>
      in case insertOrder env p StatusRejected None (Some reason) db of
           Inl e \<Rightarrow> (Inl e, db)
         | Inr (o1, db') \<Rightarrow> (Inr o1, db'))"

section \<open>Queries\<close>

definition ListOrders :: "pg \<Rightarrow> uuid \<Rightarrow> tdb \<Rightarrow> trading_err + order list" where
  "ListOrders env a db =
     (if pg_fails env SelectOrders then Inl ErrInfra
      else Inr (sort_key (\<lambda>o1. - o_created_at o1)
             (sort_key (\<lambda>o1. - int (o_id o1)) (map snd (filter (\<lambda>r. fst r = a) (orders db))))))"

definition ListHoldings :: "pg \<Rightarrow> uuid \<Rightarrow> tdb \<Rightarrow> trading_err + holding list" where
  "ListHoldings env a db =
     (if pg_fails env SelectHoldings then Inl ErrInfra
      else Inr (sort_key h_symbol
             (map (\<lambda>((_, symb), (q, c)). \<lparr>h_symbol = symb, h_quantity = q, h_avg_cost = c\<rparr>)
               (filter (\<lambda>((acc, _), (q, _)). acc = a \<and> q > 0) (positions db)))))"

definition ListTrades :: "pg \<Rightarrow> uuid \<Rightarrow> nat \<Rightarrow> tdb \<Rightarrow> trading_err + trade list" where
  "ListTrades env a limit db =
     (if pg_fails env SelectTrades then Inl ErrInfra
      else Inr (take limit (sort_key t_executed_at
             (sort_key (\<lambda>t1. int (t_id t1)) (map snd (filter (\<lambda>r. fst r = a) (trades db)))))))"

end
