(* ===== verification/TradingStoreFacts.thy ===== *)
theory TradingStoreFacts
  imports TradingStore
begin

text \<open>
  What the trading-engine's store guarantees: a filled order is one step of an abstract
  ledger, a rejected order only adds its audit row, a failed transaction changes nothing
  (or, when the commit's answer was lost, everything), balances and holdings never become
  negative, and every trade has its filled order.
\<close>

section \<open>Effect of each statement\<close>

lemma insertOrder_InrE:
  assumes "insertOrder env p st fp rs db = Inr (o1, db')"
  obtains q fp' where "pg_numeric env (x_quantity p) = Some q" "numeric_opt env fp = Some fp'"
    "o1 = \<lparr>o_id = pg_uuid env (rows db), o_symbol = x_symbol p, o_side = x_side p, o_quantity = q,
       o_status = st, o_type = OrderTypeMarket, o_filled_price = fp', o_rejection_reason = rs,
       o_created_at = pg_now env\<rparr>"
    "db' = db\<lparr>orders := orders db @ [(x_account p, o1)], rows := Suc (rows db)\<rparr>"
  using assms by (auto simp: insertOrder_def Let_def split: if_splits option.splits)

lemma insertOrder_Inl: "insertOrder env p st fp rs db = Inl e \<Longrightarrow> e = ErrInfra"
  by (auto simp: insertOrder_def Let_def split: if_splits option.splits)

lemma insertTrade_InrE:
  assumes "insertTrade env p oid pl db = Inr (t1, db')"
  obtains q pr pl' where "pg_numeric env (x_quantity p) = Some q" "pg_numeric env (x_price p) = Some pr"
    "numeric_opt env pl = Some pl'"
    "t1 = \<lparr>t_id = pg_uuid env (rows db), t_order_id = oid, t_symbol = x_symbol p, t_side = x_side p,
       t_quantity = q, t_price = pr, t_realized_pl = pl', t_executed_at = pg_now env\<rparr>"
    "db' = db\<lparr>trades := trades db @ [(x_account p, t1)], rows := Suc (rows db)\<rparr>"
  using assms by (auto simp: insertTrade_def Let_def split: if_splits option.splits)

lemma insertTrade_Inl: "insertTrade env p oid pl db = Inl e \<Longrightarrow> e = ErrInfra"
  by (auto simp: insertTrade_def Let_def split: if_splits option.splits)

definition position_of :: "tdb \<Rightarrow> uuid \<Rightarrow> gostr \<Rightarrow> f64 \<times> f64" where
  \<comment> \<open>quantity and average cost, zero when there is no row\<close>
  "position_of db a symb = (case map_of (positions db) (a, symb) of None \<Rightarrow> (0, 0) | Some qc \<Rightarrow> qc)"

lemma currentPosition_Inr: "currentPosition env a symb db = Inr qc \<Longrightarrow> qc = position_of db a symb"
  by (auto simp: currentPosition_def position_of_def split: if_splits option.splits)

lemma currentPosition_Inl: "currentPosition env a symb db = Inl e \<Longrightarrow> e = ErrInfra"
  by (auto simp: currentPosition_def split: if_splits option.splits)

lemma upsertPosition_InrE:
  assumes "upsertPosition env a symb q c db = Inr db'"
  obtains q' c' where "pg_numeric env q = Some q'" "pg_numeric env c = Some c'"
    "db' = db\<lparr>positions := AList.update (a, symb) (q', c') (positions db)\<rparr>"
  using assms by (auto simp: upsertPosition_def split: if_splits option.splits)

lemma upsertPosition_Inl: "upsertPosition env a symb q c db = Inl e \<Longrightarrow> e = ErrInfra"
  by (auto simp: upsertPosition_def split: if_splits option.splits)

definition set_balance :: "uuid \<Rightarrow> f64 \<Rightarrow> account_row list \<Rightarrow> account_row list" where
  "set_balance a b = map (\<lambda>r. if r_id r = a then r\<lparr>r_balance := b\<rparr> else r)"

lemma updateBalance_InrE:
  assumes "updateBalance env a b db = Inr (nb, db')"
  obtains "pg_numeric env b = Some nb" "balance_of db a \<noteq> None"
    "db' = db\<lparr>accounts := set_balance a nb (accounts db)\<rparr>"
  using assms by (auto simp: updateBalance_def set_balance_def split: if_splits option.splits)

lemma updateBalance_Inl: "updateBalance env a b db = Inl e \<Longrightarrow> e = ErrInfra"
  by (auto simp: updateBalance_def split: if_splits option.splits)

lemmas stmt_elims = insertOrder_InrE insertTrade_InrE upsertPosition_InrE updateBalance_InrE
lemmas stmt_errs = insertOrder_Inl insertTrade_Inl currentPosition_Inl upsertPosition_Inl updateBalance_Inl

lemma find_set_balance:
  "find (\<lambda>r. r_id r = x) (set_balance a b rs)
     = map_option (\<lambda>r. if x = a then r\<lparr>r_balance := b\<rparr> else r) (find (\<lambda>r. r_id r = x) rs)"
  by (induction rs) (auto simp: set_balance_def)

lemma balance_of_set_balance:
  "balance_of db a \<noteq> None \<Longrightarrow>
     balance_of (db'\<lparr>accounts := set_balance a b (accounts db)\<rparr>) = (balance_of db)(a \<mapsto> b)"
  by (rule ext) (auto simp: balance_of_def find_set_balance option.map_comp comp_def)

section \<open>One fill, abstractly\<close>

text \<open>
  The abstract ledger: a cash balance per account and a holding with its cost basis per
  account and symbol. \<open>fill_spec\<close> is the contract of one order on one account's cash and
  one holding: the values that come out, or \<open>None\<close> when the order must not fill.
\<close>

definition fill_spec :: "(f64 \<Rightarrow> f64 option) \<Rightarrow> execute_order_params \<Rightarrow> f64 \<Rightarrow> f64 \<times> f64
    \<Rightarrow> (f64 \<times> f64 \<times> f64) option" where
  "fill_spec num p b qc =
     (let (q, c) = qc; notional = x_price p * x_quantity p in
      if x_side p = SideBuy then
        (if notional > b then None
         else case (num (b - notional), num (q + x_quantity p),
                    num (WeightedAvgCost q c (x_quantity p) (x_price p))) of
                (Some b', Some q', Some c') \<Rightarrow> Some (b', q', c')
              | _ \<Rightarrow> None)
      else if x_side p = SideSell then
        (if x_quantity p > q then None
         else case (num (b + notional), num (q - x_quantity p), num c) of
                (Some b', Some q', Some c') \<Rightarrow> Some (b', q', c')
              | _ \<Rightarrow> None)
      else None)"

definition filled_row :: "pg \<Rightarrow> execute_order_params \<Rightarrow> order \<Rightarrow> trade \<Rightarrow> bool" where
  \<comment> \<open>the audit rows of a fill agree with each other and with the request\<close>
  "filled_row env p o1 t1 \<longleftrightarrow>
     o_status o1 = StatusFilled \<and> o_rejection_reason o1 = None
     \<and> o_filled_price o1 = Some (t_price t1) \<and> pg_numeric env (x_price p) = Some (t_price t1)
     \<and> pg_numeric env (x_quantity p) = Some (o_quantity o1) \<and> t_quantity t1 = o_quantity o1
     \<and> t_order_id t1 = o_id o1 \<and> o_symbol o1 = x_symbol p \<and> t_symbol t1 = x_symbol p
     \<and> o_side o1 = x_side p \<and> t_side t1 = x_side p \<and> (t_realized_pl t1 \<noteq> None \<longleftrightarrow> x_side p = SideSell)"

definition fill_step :: "pg \<Rightarrow> execute_order_params \<Rightarrow> tdb \<Rightarrow> order \<Rightarrow> trade \<Rightarrow> f64 \<Rightarrow> tdb \<Rightarrow> bool" where
  "fill_step env p db o1 t1 nb db' \<longleftrightarrow>
     (\<exists>b q' c'. balance_of db (x_account p) = Some b
       \<and> fill_spec (pg_numeric env) p b (position_of db (x_account p) (x_symbol p)) = Some (nb, q', c')
       \<and> accounts db' = set_balance (x_account p) nb (accounts db)
       \<and> positions db' = AList.update (x_account p, x_symbol p) (q', c') (positions db)
       \<and> orders db' = orders db @ [(x_account p, o1)]
       \<and> trades db' = trades db @ [(x_account p, t1)]
       \<and> filled_row env p o1 t1)"

definition reject_step :: "pg \<Rightarrow> execute_order_params \<Rightarrow> string \<Rightarrow> tdb \<Rightarrow> tdb \<Rightarrow> bool" where
  "reject_step env p reason db db' \<longleftrightarrow>
     (\<exists>o1. db' = db\<lparr>orders := orders db @ [(x_account p, o1)], rows := Suc (rows db)\<rparr>
       \<and> o_status o1 = StatusRejected \<and> o_filled_price o1 = None
       \<and> o_rejection_reason o1 = Some reason \<and> o_symbol o1 = x_symbol p \<and> o_side o1 = x_side p)"

lemma commit_tx_cases:
  "commit_tx env orig work = (ok, db) \<Longrightarrow>
     ok \<and> pg_commit env = CommitOk \<and> db = work \<or> \<not> ok \<and> (db = orig \<or> pg_commit env = CommitLost \<and> db = work)"
  by (auto split: commit_outcome.splits)

lemma balance_of_congs [simp]:
  "balance_of (db\<lparr>orders := os\<rparr>) = balance_of db"
  "balance_of (db\<lparr>rows := n\<rparr>) = balance_of db"
  "balance_of (db\<lparr>trades := ts\<rparr>) = balance_of db"
  "balance_of (db\<lparr>positions := ps\<rparr>) = balance_of db"
  "position_of (db\<lparr>orders := os\<rparr>) = position_of db"
  "position_of (db\<lparr>rows := n\<rparr>) = position_of db"
  "position_of (db\<lparr>trades := ts\<rparr>) = position_of db"
  "position_of (db\<lparr>accounts := rs\<rparr>) = position_of db"
  by (auto simp: balance_of_def position_of_def fun_eq_iff)

lemma rejectWithin_cases:
  assumes "rejectWithin env p reason db = (r, db')"
  shows "r = Inr () \<and> pg_commit env = CommitOk \<and> reject_step env p reason db db'
     \<or> r = Inl ErrInfra \<and> (db' = db \<or> pg_commit env = CommitLost \<and> reject_step env p reason db db')"
proof (cases "insertOrder env p StatusRejected None (Some reason) db")
  case (Inl e)
  then show ?thesis using assms insertOrder_Inl [OF Inl] by (simp add: rejectWithin_def)
next
  case (Inr ow)
  obtain o1 w where ow: "ow = (o1, w)" by fastforce
  have w: "reject_step env p reason db w"
    using Inr unfolding ow by (elim insertOrder_InrE) (auto simp: reject_step_def)
  show ?thesis using assms Inr w ow by (auto simp: rejectWithin_def split: commit_outcome.splits)
qed

section \<open>What executing an order can do\<close>

definition lost_commit :: "pg \<Rightarrow> execute_order_params \<Rightarrow> tdb \<Rightarrow> tdb \<Rightarrow> bool" where
  \<comment> \<open>the commit was reported as failed but took effect\<close>
  "lost_commit env p db db' \<longleftrightarrow> pg_commit env = CommitLost \<and>
     ((\<exists>o1 t1 nb. fill_step env p db o1 t1 nb db') \<or> (\<exists>reason. reject_step env p reason db db'))"

fun exec_outcome :: "pg \<Rightarrow> execute_order_params \<Rightarrow> tdb \<Rightarrow> trading_err + place_order_result \<Rightarrow> tdb \<Rightarrow> bool" where
  "exec_outcome env p db (Inr res) db' =
     (pg_commit env = CommitOk \<and> fill_step env p db (pr_order res) (pr_trade res) (pr_balance res) db')"
| "exec_outcome env p db (Inl ErrInsufficientBalance) db' =
     (x_side p = SideBuy \<and> (\<exists>b. balance_of db (x_account p) = Some b \<and> x_price p * x_quantity p > b)
      \<and> reject_step env p ''insufficient_balance'' db db')"
| "exec_outcome env p db (Inl ErrInsufficientPosition) db' =
     (x_side p = SideSell \<and> x_quantity p > fst (position_of db (x_account p) (x_symbol p))
      \<and> reject_step env p ''insufficient_position'' db db')"
| "exec_outcome env p db (Inl ErrInfra) db' = (db' = db \<or> lost_commit env p db db')"
| "exec_outcome env p db (Inl ErrAccountNotFound) db' = (balance_of db (x_account p) = None \<and> db' = db)"
| "exec_outcome env p db (Inl ErrInvalidOrder) db' = (x_side p \<noteq> SideBuy \<and> x_side p \<noteq> SideSell \<and> db' = db)"
| "exec_outcome env p db (Inl e) db' = False"

lemma exec_outcome_infra [simp]: "r = Inl ErrInfra \<Longrightarrow> exec_outcome env p db r db"
  by simp

lemma finish_tx_outcome:
  assumes run: "finish_tx env db body = (r, db')"
    and err: "\<And>e. body = Inl e \<Longrightarrow> e = ErrInfra"
    and ok: "\<And>res w. body = Inr (res, w) \<Longrightarrow> fill_step env p db (pr_order res) (pr_trade res) (pr_balance res) w"
  shows "exec_outcome env p db r db'"
proof (cases body)
  case (Inl e)
  then show ?thesis using run err by (auto simp: finish_tx_def)
next
  case (Inr rw)
  then obtain res w where "body = Inr (res, w)" by (cases rw) auto
  then show ?thesis using run ok
    by (fastforce simp: finish_tx_def lost_commit_def split: commit_outcome.splits)
qed

lemma executeBuy_outcome:
  assumes run: "executeBuy env p b db = (r, db')" and bal: "balance_of db (x_account p) = Some b"
    and side: "x_side p = SideBuy"
  shows "exec_outcome env p db r db'"
proof (cases "x_price p * x_quantity p > b")
  case True
  obtain r0 db0 where R: "rejectWithin env p ''insufficient_balance'' db = (r0, db0)" by fastforce
  show ?thesis using rejectWithin_cases [OF R] run True R bal side
    by (auto simp: executeBuy_def Let_def lost_commit_def split: sum.splits)
next
  case False
  show ?thesis
    using run [unfolded executeBuy_def Let_def if_not_P [OF False]]
  proof (rule finish_tx_outcome, goal_cases)
    case (1 e)
    then show ?case by (auto simp: sum_bind_eq_Inl dest: stmt_errs)
  next
    case (2 res w)
    then obtain o1 w1 t1 w2 q c w3 nb where
      I: "insertOrder env p StatusFilled (Some (x_price p)) None db = Inr (o1, w1)"
        "insertTrade env p (o_id o1) None w1 = Inr (t1, w2)"
        "upsertPosition env (x_account p) (x_symbol p) (q + x_quantity p)
          (WeightedAvgCost q c (x_quantity p) (x_price p)) w2 = Inr w3"
        "updateBalance env (x_account p) (b - x_price p * x_quantity p) w3 = Inr (nb, w)"
      and C: "currentPosition env (x_account p) (x_symbol p) w2 = Inr (q, c)"
      and res: "res = \<lparr>pr_order = o1, pr_trade = t1, pr_balance = nb\<rparr>"
      by (auto simp: sum_bind_eq_Inr)
    have "position_of db (x_account p) (x_symbol p) = (q, c)"
      using currentPosition_Inr [OF C] I(1,2) by (elim stmt_elims) auto
    then show ?case using I False side bal unfolding res
      by (elim stmt_elims) (auto simp: fill_step_def fill_spec_def filled_row_def Let_def side_lits)
  qed
qed

lemma executeSell_outcome:
  assumes run: "executeSell env p b db = (r, db')" and bal: "balance_of db (x_account p) = Some b"
    and side: "x_side p = SideSell"
  shows "exec_outcome env p db r db'"
proof (cases "currentPosition env (x_account p) (x_symbol p) db")
  case (Inl e)
  then show ?thesis using run currentPosition_Inl [OF Inl] by (simp add: executeSell_def)
next
  case (Inr qc)
  obtain q c where qc: "qc = (q, c)" by fastforce
  have pos: "position_of db (x_account p) (x_symbol p) = (q, c)"
    using currentPosition_Inr [OF Inr] qc by simp
  show ?thesis
  proof (cases "x_quantity p > q")
    case True
    obtain r0 d where R: "rejectWithin env p ''insufficient_position'' db = (r0, d)" by fastforce
    show ?thesis using rejectWithin_cases [OF R] run Inr True R side pos qc
      by (auto simp: executeSell_def lost_commit_def split: sum.splits)
  next
    case False
    show ?thesis
      using run [unfolded executeSell_def Inr qc sum.case prod.case if_not_P [OF False] Let_def]
    proof (rule finish_tx_outcome, goal_cases)
      case (1 e)
      then show ?case by (auto simp: sum_bind_eq_Inl dest: stmt_errs)
    next
      case (2 res w)
      then obtain o1 w1 t1 w2 w3 nb where
        I: "insertOrder env p StatusFilled (Some (x_price p)) None db = Inr (o1, w1)"
          "insertTrade env p (o_id o1) (Some (RealizedPL c (x_price p) (x_quantity p))) w1 = Inr (t1, w2)"
          "upsertPosition env (x_account p) (x_symbol p) (q - x_quantity p) c w2 = Inr w3"
          "updateBalance env (x_account p) (b + x_price p * x_quantity p) w3 = Inr (nb, w)"
        and res: "res = \<lparr>pr_order = o1, pr_trade = t1, pr_balance = nb\<rparr>"
        by (auto simp: sum_bind_eq_Inr)
      then show ?case using False side bal pos unfolding res
        by (elim stmt_elims) (auto simp: fill_step_def fill_spec_def filled_row_def Let_def side_lits)
    qed
  qed
qed

lemma ExecuteOrder_outcome:
  "ExecuteOrder env p db = (r, db') \<Longrightarrow> exec_outcome env p db r db'"
  by (auto simp: ExecuteOrder_def split: if_splits option.splits
      intro: executeBuy_outcome executeSell_outcome)


section \<open>Reachable stores\<close>

text \<open>
  What the store relies on of a NUMERIC(20,4) column: infinities are refused, and a value
  that is not negative comes back finite and not negative.
\<close>

definition num_ok :: "(f64 \<Rightarrow> f64 option) \<Rightarrow> bool" where
  "num_ok num \<longleftrightarrow> (\<forall>s. num (FInf s) = None) \<and> (\<forall>v w. num v = Some w \<longrightarrow> 0 \<le> v \<longrightarrow> fin w \<and> 0 \<le> w)"

text \<open>One function of this kind: round to four decimals, halves away from zero.\<close>

fun numeric_20_4 :: "f64 \<Rightarrow> f64 option" where
  "numeric_20_4 (FNum r) =
     (let n = (if 0 \<le> r then \<lfloor>r * 10000 + 1/2\<rfloor> else - \<lfloor>- r * 10000 + 1/2\<rfloor>)
      in if \<bar>n\<bar> < 10 ^ 20 then Some (fl False (of_int n / 10000)) else None)"
| "numeric_20_4 FNegZero = Some 0"
| "numeric_20_4 _ = None"

lemma fin_fl_small: "\<bar>x\<bar> \<le> 2 ^ 53 \<Longrightarrow> fin (fl s x)"
proof -
  assume x: "\<bar>x\<bar> \<le> 2 ^ 53"
  have "\<bar>rnd x\<bar> \<le> 2 ^ 53"
    using rnd_mono [of x "2 ^ 53"] rnd_mono [of "- (2 ^ 53)" x] x rnd_of_int [of "2 ^ 53"]
    by (auto simp: abs_le_iff)
  also have "(2 ^ 53 :: rat) < 2 ^ 1024" by simp
  finally show ?thesis by (simp add: fin_fl_iff)
qed

lemma fin_fl_upto: "0 \<le> x \<Longrightarrow> x \<le> 2 ^ 60 \<Longrightarrow> fin (fl s x)"
proof -
  assume x: "0 \<le> x" "x \<le> 2 ^ 60"
  have "representable (2 ^ 60)" unfolding representable_def
    by (intro exI [of _ 1] exI [of _ 60]) (simp add: power_int_def)
  then have "rnd x \<le> 2 ^ 60" using rnd_mono [OF x(2)] rnd_representable by simp
  moreover have "(2 ^ 60 :: rat) < 2 ^ 1024" by (simp add: power_strict_increasing)
  ultimately show ?thesis using rnd_nonneg [OF x(1)] by (simp add: fin_fl_iff)
qed

lemma num_ok_numeric_20_4: "num_ok numeric_20_4"
  unfolding num_ok_def
proof (intro conjI allI impI)
  fix v w assume w: "numeric_20_4 v = Some w" and v: "0 \<le> v"
  have "fin w \<and> 0 \<le> w"
  proof (cases v)
    case (FNum r)
    with v have r: "0 \<le> r" by (simp add: less_eq_f64_def zero_f64_def)
    define n where "n = \<lfloor>r * 10000 + 1/2\<rfloor>"
    have n0: "0 \<le> n" using r by (simp add: n_def)
    have "\<bar>n\<bar> < 10 ^ 20" and w': "w = fl False (of_int n / 10000)"
      using w r FNum by (auto simp: n_def Let_def split: if_splits)
    then have "(of_int n :: rat) \<le> of_int (10 ^ 20)" unfolding of_int_le_iff by simp
    then have "of_int n / 10000 \<le> (2 ^ 60 :: rat)" by simp
    then show ?thesis using n0 w' by (simp add: fin_fl_upto fl_nonneg)
  qed (use w v in \<open>auto simp: less_eq_f64_def zero_f64_def\<close>)
  then show "fin w" "0 \<le> w" by auto
qed simp

definition nonneg_fin :: "f64 \<Rightarrow> bool" where
  "nonneg_fin v \<longleftrightarrow> fin v \<and> 0 \<le> v"

definition params_ok :: "execute_order_params \<Rightarrow> bool" where
  "params_ok p \<longleftrightarrow> nonneg_fin (x_quantity p) \<and> nonneg_fin (x_price p)"

definition solvent :: "tdb \<Rightarrow> bool" where
  "solvent db \<longleftrightarrow> (\<forall>a b. balance_of db a = Some b \<longrightarrow> nonneg_fin b)
     \<and> (\<forall>a symb. nonneg_fin (fst (position_of db a symb)) \<and> nonneg_fin (snd (position_of db a symb)))"

definition order_key :: "uuid \<times> order \<Rightarrow> uuid \<times> uuid \<times> gostr \<times> side \<times> f64 \<times> f64 option" where
  "order_key r = (fst r, o_id (snd r), o_symbol (snd r), o_side (snd r), o_quantity (snd r), o_filled_price (snd r))"

definition trade_key :: "uuid \<times> trade \<Rightarrow> uuid \<times> uuid \<times> gostr \<times> side \<times> f64 \<times> f64 option" where
  "trade_key r = (fst r, t_order_id (snd r), t_symbol (snd r), t_side (snd r), t_quantity (snd r), Some (t_price (snd r)))"

definition log_matched :: "tdb \<Rightarrow> bool" where
  \<comment> \<open>the trades are the filled orders, one for one and in the same order\<close>
  "log_matched db \<longleftrightarrow>
     map order_key (filter (\<lambda>r. o_status (snd r) = StatusFilled) (orders db)) = map trade_key (trades db)"

definition store_inv :: "tdb \<Rightarrow> bool" where
  "store_inv db \<longleftrightarrow> solvent db \<and> log_matched db \<and> distinct (map fst (positions db))"

lemma nonneg_fin_0 [simp]: "nonneg_fin 0"
  by (simp add: nonneg_fin_def)

lemma fill_spec_nonneg:
  assumes num: "num_ok num" and p: "params_ok p"
    and b: "nonneg_fin b" and q: "nonneg_fin q" and c: "nonneg_fin c"
    and f: "fill_spec num p b (q, c) = Some (b', q', c')"
  shows "nonneg_fin b' \<and> nonneg_fin q' \<and> nonneg_fin c'"
proof -
  let ?x = "x_quantity p" and ?n = "x_price p * x_quantity p"
  have keep: "nonneg_fin w" if "num v = Some w" "0 \<le> v" for v w
    using num that by (auto simp: num_ok_def nonneg_fin_def)
  have finq: "fin v" if "num v = Some w" "0 \<le> v" for v w
    using num that by (cases v) (auto simp: num_ok_def)
  have n0: "0 \<le> ?n" using p by (auto simp: params_ok_def nonneg_fin_def intro: f64_mul_nonneg)
  consider "x_side p = SideBuy" "\<not> ?n > b" "num (b - ?n) = Some b'" "num (q + ?x) = Some q'"
      "num (WeightedAvgCost q c ?x (x_price p)) = Some c'"
    | "\<not> ?x > q" "num (b + ?n) = Some b'" "num (q - ?x) = Some q'" "num c = Some c'"
    using f by (auto simp: fill_spec_def Let_def split: if_splits option.splits)
  then show ?thesis
  proof cases
    case 1
    have le: "?n \<le> b" using 1(2) n0 b by (simp add: f64_not_less f64_le_not_NaN fin_not_NaN nonneg_fin_def)
    then have "fin ?n" using fin_between [OF n0 le] b by (simp add: nonneg_fin_def)
    then have "0 \<le> b - ?n" using le by (simp add: f64_sub_nonneg)
    moreover have q1: "0 \<le> q + ?x" using q p by (auto simp: params_ok_def nonneg_fin_def intro: f64_add_nonneg)
    moreover have "0 \<le> WeightedAvgCost q c ?x (x_price p)"
      using q c p finq [OF 1(4) q1]
      by (intro WeightedAvgCost_nonneg) (auto simp: params_ok_def nonneg_fin_def)
    ultimately show ?thesis using 1 keep by blast
  next
    case 2
    have "?x \<le> q" using 2(1) p q by (simp add: f64_not_less params_ok_def nonneg_fin_def fin_not_NaN)
    then have "0 \<le> q - ?x" using p by (simp add: f64_sub_nonneg params_ok_def nonneg_fin_def)
    moreover have "0 \<le> b + ?n" using b n0 by (auto simp: nonneg_fin_def intro: f64_add_nonneg)
    ultimately show ?thesis using 2 c keep by (auto simp: nonneg_fin_def)
  qed
qed


lemma fill_step_ledger:
  assumes "fill_step env p db o1 t1 nb db'"
  obtains b q' c' where "balance_of db (x_account p) = Some b"
    "fill_spec (pg_numeric env) p b (position_of db (x_account p) (x_symbol p)) = Some (nb, q', c')"
    "balance_of db' = (balance_of db)(x_account p \<mapsto> nb)"
    "\<And>a symb. position_of db' a symb
        = (if a = x_account p \<and> symb = x_symbol p then (q', c') else position_of db a symb)"
    "distinct (map fst (positions db)) \<Longrightarrow> distinct (map fst (positions db'))"
proof -
  from assms obtain b q' c' where f: "balance_of db (x_account p) = Some b"
    "fill_spec (pg_numeric env) p b (position_of db (x_account p) (x_symbol p)) = Some (nb, q', c')"
    "accounts db' = set_balance (x_account p) nb (accounts db)"
    "positions db' = AList.update (x_account p, x_symbol p) (q', c') (positions db)"
    by (auto simp: fill_step_def)
  have "balance_of db' = balance_of (db\<lparr>accounts := set_balance (x_account p) nb (accounts db)\<rparr>)"
    by (simp add: balance_of_def fun_eq_iff f(3))
  then have "balance_of db' = (balance_of db)(x_account p \<mapsto> nb)"
    using balance_of_set_balance f(1) by simp
  moreover have "position_of db' a symb
      = (if a = x_account p \<and> symb = x_symbol p then (q', c') else position_of db a symb)" for a symb
    by (auto simp: position_of_def f(4) update_conv')
  ultimately show ?thesis using that f by (simp add: distinct_update)
qed

lemma fill_step_inv:
  assumes "num_ok (pg_numeric env)" "params_ok p" "store_inv db" and st: "fill_step env p db o1 t1 nb db'"
  shows "store_inv db'"
proof -
  obtain b q' c' where f: "balance_of db (x_account p) = Some b"
    "fill_spec (pg_numeric env) p b (position_of db (x_account p) (x_symbol p)) = Some (nb, q', c')"
    "balance_of db' = (balance_of db)(x_account p \<mapsto> nb)"
    "\<And>a symb. position_of db' a symb
        = (if a = x_account p \<and> symb = x_symbol p then (q', c') else position_of db a symb)"
    "distinct (map fst (positions db)) \<Longrightarrow> distinct (map fst (positions db'))"
    using fill_step_ledger [OF st] by metis
  have s: "solvent db" using assms(3) by (simp add: store_inv_def)
  obtain q c where qc: "position_of db (x_account p) (x_symbol p) = (q, c)" by fastforce
  have "nonneg_fin b" "nonneg_fin q" "nonneg_fin c"
    using s f(1) qc unfolding solvent_def by (metis, metis fst_conv, metis snd_conv)
  then have "nonneg_fin nb \<and> nonneg_fin q' \<and> nonneg_fin c'"
    using fill_spec_nonneg [OF assms(1,2)] f(2) qc by metis
  then have "solvent db'" using s by (auto simp: solvent_def f(3,4))
  moreover have "log_matched db'"
    using st assms(3) by (auto simp: fill_step_def store_inv_def log_matched_def order_key_def trade_key_def filled_row_def)
  ultimately show ?thesis using f(5) assms(3) by (simp add: store_inv_def)
qed

lemma reject_step_inv:
  assumes "store_inv db" "reject_step env p reason db db'" shows "store_inv db'"
  using assms by (auto simp: reject_step_def store_inv_def solvent_def log_matched_def)

lemma ExecuteOrder_inv:
  assumes "num_ok (pg_numeric env)" "params_ok p" "store_inv db" "ExecuteOrder env p db = (r, db')"
  shows "store_inv db'"
proof -
  have "(\<exists>o1 t1 nb. fill_step env p db o1 t1 nb db') \<or> (\<exists>reason. reject_step env p reason db db') \<or> db' = db"
    using ExecuteOrder_outcome [OF assms(4)]
    by (cases "(env, p, db, r, db')" rule: exec_outcome.cases) (auto simp: lost_commit_def)
  then show ?thesis using fill_step_inv [OF assms(1-3)] reject_step_inv [OF assms(3)] assms(3) by blast
qed

lemma insertOrder_rejected:
  "insertOrder env p StatusRejected None (Some reason) db = Inr (o1, db') \<Longrightarrow>
     reject_step env p reason db db' \<and> db' = db\<lparr>orders := orders db @ [(x_account p, o1)], rows := Suc (rows db)\<rparr>"
  by (elim insertOrder_InrE) (auto simp: reject_step_def)

lemma RecordRejectedOrder_cases:
  assumes run: "RecordRejectedOrder env a symb side q reason db = (r, db')"
  shows "r = Inl ErrInfra \<and> db' = db \<or>
    (\<exists>p o1. r = Inr o1 \<and> x_account p = a \<and> reject_step env p reason db db'
       \<and> db' = db\<lparr>orders := orders db @ [(a, o1)], rows := Suc (rows db)\<rparr>)"
proof -
  define p where "p = \<lparr>x_account = a, x_symbol = symb, x_side = side, x_quantity = q, x_price = 0\<rparr>"
  show ?thesis
  proof (cases "insertOrder env p StatusRejected None (Some reason) db")
    case (Inl e)
    then show ?thesis using run insertOrder_Inl [OF Inl] by (simp add: RecordRejectedOrder_def p_def)
  next
    case (Inr ow)
    obtain o1 w where ow: "ow = (o1, w)" by fastforce
    show ?thesis using insertOrder_rejected [of env p reason db o1 w] run Inr ow
      by (intro disjI2 exI [of _ p] exI [of _ o1]) (auto simp: RecordRejectedOrder_def p_def)
  qed
qed

text \<open>
  The steps that change the trading tables: an order executed, a rejection recorded outside
  a transaction, and the account the auth service opens for a new user.
\<close>

definition StartingBalance :: f64 where
  "StartingBalance = flit 100000"

inductive store_step :: "(f64 \<Rightarrow> f64 option) \<Rightarrow> tdb \<Rightarrow> tdb \<Rightarrow> bool" for num where
  execute: "pg_numeric env = num \<Longrightarrow> params_ok p \<Longrightarrow> ExecuteOrder env p db = (r, db') \<Longrightarrow> store_step num db db'"
| record_rejected: "RecordRejectedOrder env a symb side q reason db = (r, db') \<Longrightarrow> store_step num db db'"
| open_account: "balance_of db a = None \<Longrightarrow>
    store_step num db (db\<lparr>accounts := accounts db @ [\<lparr>r_id = a, r_user = u, r_balance = StartingBalance\<rparr>]\<rparr>)"

definition empty_store :: tdb where
  "empty_store = \<lparr>accounts = [], positions = [], orders = [], trades = [], rows = 0\<rparr>"

inductive reachable_store :: "(f64 \<Rightarrow> f64 option) \<Rightarrow> tdb \<Rightarrow> bool" for num where
  start: "reachable_store num empty_store"
| step: "reachable_store num db \<Longrightarrow> store_step num db db' \<Longrightarrow> reachable_store num db'"

lemma StartingBalance_nonneg_fin: "nonneg_fin StartingBalance"
  by (simp add: StartingBalance_def nonneg_fin_def fcalc)

lemma open_account_inv:
  assumes "store_inv db" "balance_of db a = None"
  shows "store_inv (db\<lparr>accounts := accounts db @ [\<lparr>r_id = a, r_user = u, r_balance = StartingBalance\<rparr>]\<rparr>)"
proof -
  have "find P (xs @ [y]) = (case find P xs of None \<Rightarrow> if P y then Some y else None | Some z \<Rightarrow> Some z)"
    for P and xs :: "account_row list" and y by (induction xs) auto
  then have "balance_of (db\<lparr>accounts := accounts db @ [\<lparr>r_id = a, r_user = u, r_balance = StartingBalance\<rparr>]\<rparr>)
      = (balance_of db)(a \<mapsto> StartingBalance)"
    using assms(2) by (auto simp: balance_of_def fun_eq_iff split: option.splits)
  then show ?thesis using assms(1) StartingBalance_nonneg_fin
    by (auto simp: store_inv_def solvent_def log_matched_def)
qed

lemma store_step_inv: "store_step num db db' \<Longrightarrow> num_ok num \<Longrightarrow> store_inv db \<Longrightarrow> store_inv db'"
proof (induction rule: store_step.induct)
  case (execute env p db r db')
  then show ?case using ExecuteOrder_inv by metis
next
  case (record_rejected env a symb side q reason db r db')
  then show ?case using RecordRejectedOrder_cases reject_step_inv by blast
next
  case (open_account db a u)
  then show ?case using open_account_inv by blast
qed

lemma store_inv_empty: "store_inv empty_store"
  by (simp add: store_inv_def empty_store_def solvent_def balance_of_def position_of_def log_matched_def)

lemma reachable_store_inv: "reachable_store num db \<Longrightarrow> num_ok num \<Longrightarrow> store_inv db"
  by (induction rule: reachable_store.induct) (auto intro: store_inv_empty store_step_inv)

end
