(* ===== verification/TradingService.thy ===== *)
theory TradingService
  imports TradingStoreFacts
begin

text \<open>
  internal/service/trading.go, internal/cache/redis\_insights\_invalidator.go and
  internal/client/market\_data\_client.go of services/trading-engine: validation, order
  placement, the read endpoints, the price client and the cache invalidation.

  The Go interfaces \<open>AccountStore\<close>, \<open>TradingStore\<close>, \<open>PriceClient\<close> and
  \<open>InsightsInvalidator\<close> are arguments, as in the source: the store a record of
  operations on a store state, the price client a function from symbols to results, the
  invalidator a function on the cache state that also reports whether it succeeded. Log
  lines are not modelled.
\<close>

section \<open>Validation\<close>

definition maxSymbolLength :: nat where "maxSymbolLength = 16"
definition maxQuantity :: f64 where "maxQuantity = flit (10 ^ 9)"
definition quantityScale :: f64 where "quantityScale = flit (10 ^ 4)"
definition minQuantity :: f64 where "minQuantity = flit (1 / 10 ^ 4)"

definition validateOrder :: "(rune \<Rightarrow> rune) \<Rightarrow> place_order_request \<Rightarrow> trading_err + place_order_request" where
  "validateOrder uc req0 =
     (let req = req0\<lparr>rq_symbol := to_upper uc (trim_space (rq_symbol req0))\<rparr> in
      if rq_symbol req = [] \<or> byte_len (rq_symbol req) > maxSymbolLength then Inl ErrInvalidOrder
      else if rq_side req \<noteq> SideBuy \<and> rq_side req \<noteq> SideSell then Inl ErrInvalidOrder
      else if \<not> (rq_quantity req \<ge> minQuantity) \<or> is_inf (rq_quantity req) \<or> rq_quantity req > maxQuantity
        then Inl ErrInvalidOrder
      else Inr (req\<lparr>rq_quantity := fround (rq_quantity req * quantityScale) / quantityScale\<rparr>))"

definition rejectionReason :: "trading_err \<Rightarrow> string" where
  "rejectionReason e =
     (case e of ErrSymbolUnavailable \<Rightarrow> ''symbol_unavailable''
      | ErrUpstreamUnavailable \<Rightarrow> ''upstream_unavailable''
      | ErrInsufficientBalance \<Rightarrow> ''insufficient_balance''
      | ErrInsufficientPosition \<Rightarrow> ''insufficient_position''
      | _ \<Rightarrow> ''internal_error'')"

definition DefaultTradeLimit :: int where "DefaultTradeLimit = 1000"
definition MaxTradeLimit :: int where "MaxTradeLimit = 10000"

definition normalizeTradeLimit :: "int \<Rightarrow> int" where
  "normalizeTradeLimit limit =
     (if limit \<le> 0 then DefaultTradeLimit
      else if limit > MaxTradeLimit then MaxTradeLimit
      else limit)"

section \<open>The interfaces\<close>

record 's trading_store =
  ts_account :: "uuid \<Rightarrow> 's \<Rightarrow> trading_err + account"
  ts_execute :: "execute_order_params \<Rightarrow> 's \<Rightarrow> (trading_err + place_order_result) \<times> 's"
  ts_record :: "uuid \<Rightarrow> gostr \<Rightarrow> side \<Rightarrow> f64 \<Rightarrow> string \<Rightarrow> 's \<Rightarrow> (trading_err + order) \<times> 's"
  ts_orders :: "uuid \<Rightarrow> 's \<Rightarrow> trading_err + order list"
  ts_holdings :: "uuid \<Rightarrow> 's \<Rightarrow> trading_err + holding list"
  ts_trades :: "uuid \<Rightarrow> nat \<Rightarrow> 's \<Rightarrow> trading_err + trade list"

type_synonym price_client = "gostr \<Rightarrow> trading_err + f64"
type_synonym 'c invalidator = "uuid \<Rightarrow> 'c \<Rightarrow> bool \<times> 'c"

section \<open>Placing an order\<close>

definition recordRejection :: "'s trading_store \<Rightarrow> uuid \<Rightarrow> place_order_request \<Rightarrow> string \<Rightarrow> 's \<Rightarrow> 's" where
  \<comment> \<open>a failure to persist the rejection is logged and swallowed\<close>
  "recordRejection ops a req reason s =
     snd (ts_record ops a (rq_symbol req) (rq_side req) (rq_quantity req) reason s)"

definition noopInvalidator :: "'c invalidator" where
  "noopInvalidator user c = (True, c)"

definition invalidateInsights :: "'c invalidator \<Rightarrow> uuid \<Rightarrow> 'c \<Rightarrow> 'c" where
  "invalidateInsights inval user c = snd (inval user c)"

definition PlaceOrder :: "(rune \<Rightarrow> rune) \<Rightarrow> 's trading_store \<Rightarrow> price_client \<Rightarrow> 'c invalidator
    \<Rightarrow> uuid \<Rightarrow> place_order_request \<Rightarrow> 's \<Rightarrow> 'c \<Rightarrow> (trading_err + place_order_result) \<times> 's \<times> 'c" where
  "PlaceOrder uc ops prices inval user req0 s c =
     (case validateOrder uc req0 of
        Inl e \<Rightarrow> (Inl e, s, c)
      | Inr req \<Rightarrow>
      (case ts_account ops user s of
        Inl e \<Rightarrow> (Inl e, s, c)
      | Inr acct \<Rightarrow>
      (case prices (rq_symbol req) of
        Inl e \<Rightarrow> (Inl e, recordRejection ops (ac_id acct) req (rejectionReason e) s, c)
      | Inr price \<Rightarrow>
      (case ts_execute ops \<lparr>x_account = ac_id acct, x_symbol = rq_symbol req, x_side = rq_side req,
              x_quantity = rq_quantity req, x_price = price\<rparr> s of
        (Inl e, s') \<Rightarrow> (Inl e, s', c)
      | (Inr res, s') \<Rightarrow> (Inr res, s', invalidateInsights inval user c)))))"

section \<open>Reading\<close>

definition Orders :: "'s trading_store \<Rightarrow> uuid \<Rightarrow> 's \<Rightarrow> trading_err + order list" where
  "Orders ops user s = sum_bind (ts_account ops user s) (\<lambda>acct. ts_orders ops (ac_id acct) s)"

definition Trades :: "'s trading_store \<Rightarrow> uuid \<Rightarrow> int \<Rightarrow> 's \<Rightarrow> trading_err + trade list" where
  "Trades ops user limit s =
     sum_bind (ts_account ops user s) (\<lambda>acct. ts_trades ops (ac_id acct) (nat (normalizeTradeLimit limit)) s)"

definition unpriced :: "holding \<Rightarrow> position" where
  "unpriced h = \<lparr>p_symbol = h_symbol h, p_quantity = h_quantity h, p_avg_cost = h_avg_cost h,
     p_latest_price = None, p_unrealized_pl = 0\<rparr>"

text \<open>
  \<open>price\<close> starts one goroutine per holding; each writes the entry of its own index when its
  lookup succeeds. \<open>price_sched\<close> is a run in which the goroutines finish in the order of the
  list of indices.
\<close>

definition price_one :: "price_client \<Rightarrow> holding list \<Rightarrow> position list \<Rightarrow> nat \<Rightarrow> position list" where
  "price_one prices holdings ps i =
     (let h = holdings ! i in
      case prices (h_symbol h) of
        Inl _ \<Rightarrow> ps
      | Inr latest \<Rightarrow> ps[i := (ps ! i)\<lparr>p_latest_price := Some latest,
            p_unrealized_pl := (latest - h_avg_cost h) * h_quantity h\<rparr>])"

definition price_sched :: "price_client \<Rightarrow> holding list \<Rightarrow> nat list \<Rightarrow> position list" where
  "price_sched prices holdings sched = foldl (price_one prices holdings) (map unpriced holdings) sched"

definition price :: "price_client \<Rightarrow> holding list \<Rightarrow> position list" where
  "price prices holdings = price_sched prices holdings [0..<length holdings]"

definition positionsFor :: "'s trading_store \<Rightarrow> price_client \<Rightarrow> uuid \<Rightarrow> 's \<Rightarrow> trading_err + position list" where
  "positionsFor ops prices a s = sum_bind (ts_holdings ops a s) (\<lambda>hs. Inr (price prices hs))"

definition Positions :: "'s trading_store \<Rightarrow> price_client \<Rightarrow> uuid \<Rightarrow> 's \<Rightarrow> trading_err + position list" where
  "Positions ops prices user s =
     sum_bind (ts_account ops user s) (\<lambda>acct. positionsFor ops prices (ac_id acct) s)"

definition add_position :: "portfolio_response \<Rightarrow> position \<Rightarrow> portfolio_response" where
  "add_position pf p =
     (let value = (case p_latest_price p of None \<Rightarrow> p_avg_cost p * p_quantity p
                   | Some latest \<Rightarrow> latest * p_quantity p)
      in pf\<lparr>pf_total_equity := pf_total_equity pf + value,
            pf_total_unrealized_pl := pf_total_unrealized_pl pf + p_unrealized_pl p\<rparr>)"

definition Portfolio :: "'s trading_store \<Rightarrow> price_client \<Rightarrow> uuid \<Rightarrow> 's \<Rightarrow> trading_err + portfolio_response" where
  "Portfolio ops prices user s =
     sum_bind (ts_account ops user s) (\<lambda>acct.
     sum_bind (positionsFor ops prices (ac_id acct) s) (\<lambda>ps.
     Inr (foldl add_position
            \<lparr>pf_balance = ac_balance acct, pf_positions = ps, pf_total_equity = ac_balance acct,
             pf_total_unrealized_pl = 0\<rparr> ps)))"

section \<open>The price client\<close>

text \<open>The decoded body of the answer is its \<open>price\<close> field.\<close>

definition LatestPrice :: "f64 http_exchange \<Rightarrow> trading_err + f64" where
  "LatestPrice ex =
     (case ex of
        ReqFailed \<Rightarrow> Inl ErrUpstreamUnavailable
      | NoAnswer \<Rightarrow> Inl ErrUpstreamUnavailable
      | Answer status body \<Rightarrow>
          if status = 404 then Inl ErrSymbolUnavailable
          else if status \<noteq> 200 then Inl ErrUpstreamUnavailable
          else (case body of
              None \<Rightarrow> Inl ErrUpstreamUnavailable
            | Some p \<Rightarrow> if p \<le> 0 \<or> is_nan p \<or> is_inf p then Inl ErrUpstreamUnavailable else Inr p))"

section \<open>The report cache\<close>

definition Insights :: "(uuid \<Rightarrow> gostr) \<Rightarrow> uuid \<Rightarrow> gostr" where
  \<comment> \<open>pkg/cachekeys: the key shared with ai-insights\<close>
  "Insights uuid_str user = lit ''insights:'' @ uuid_str user"

definition redis_invalidate :: "(uuid \<Rightarrow> gostr) \<Rightarrow> bool \<Rightarrow> (gostr \<rightharpoonup> 'v) invalidator" where
  \<comment> \<open>a DEL that fails leaves the key in place\<close>
  "redis_invalidate uuid_str fails user cache =
     (if fails then (False, cache) else (True, cache(Insights uuid_str user := None)))"

section \<open>The store of the running service\<close>

datatype api_call = CallAccount | CallExecute | CallRecord | CallOrders | CallHoldings | CallTrades

definition postgres_store :: "(api_call \<Rightarrow> pg) \<Rightarrow> tdb trading_store" where
  \<comment> \<open>each call of a request meets Postgres in a state of its own\<close>
  "postgres_store env =
     \<lparr>ts_account = AccountForUser (env CallAccount), ts_execute = ExecuteOrder (env CallExecute),
      ts_record = RecordRejectedOrder (env CallRecord), ts_orders = ListOrders (env CallOrders),
      ts_holdings = ListHoldings (env CallHoldings), ts_trades = ListTrades (env CallTrades)\<rparr>"

end
