(* ===== verification/TradingServiceFacts.thy ===== *)
theory TradingServiceFacts
  imports TradingService
begin

text \<open>
  What the trading-engine's service adds to its store: the quantity that is charged is a
  tick of the ledger, an order never fills without a usable price, the report cache is
  dropped exactly on a fill, and concurrent pricing does not depend on the schedule.
\<close>

section \<open>Validation\<close>

lemma minQuantity_val: "minQuantity = FNum (7378697629483821 / 2 ^ 66)"
proof -
  have "rnd (1 / 10 ^ 4) = of_int 7378697629483821 * 2 powi (- 66)"
    by (rule rnd_eqI) (simp_all add: power_int_def field_simps)
  then show ?thesis unfolding minQuantity_def flit_def
    by (intro fl_eqI) (simp_all add: power_int_def power_divide)
qed

lemma quantity_consts: "quantityScale = FNum 10000" "maxQuantity = FNum (10 ^ 9)"
  by (simp_all add: quantityScale_def maxQuantity_def fcalc)

definition rha :: "rat \<Rightarrow> int" where
  "rha r = (if 0 \<le> r then \<lfloor>r + 1/2\<rfloor> else - \<lfloor>- r + 1/2\<rfloor>)"

lemma rha_mono_nonneg: "0 \<le> x \<Longrightarrow> x \<le> y \<Longrightarrow> rha x \<le> rha y"
  by (simp add: rha_def floor_mono)

lemma rha_of_int [simp]: "rha (of_int n) = n"
proof -
  have "\<lfloor>(of_int m :: rat) + 1/2\<rfloor> = m" for m by (simp add: floor_eq_iff)
  from this [of n] this [of "- n"] show ?thesis by (simp add: rha_def)
qed

lemma fround_fin: "fin a \<Longrightarrow> fin (fround a) \<and> val (fround a) = of_int (rha (val a))"
  by (cases a) (auto simp: rha_def Let_def floor_eq_iff)

lemma tick_bounds:
  assumes lo: "minQuantity \<le> q" and hi: "q \<le> maxQuantity"
  shows "1 \<le> rha (val (q * quantityScale)) \<and> rha (val (q * quantityScale)) \<le> 10 ^ 13 \<and> fin (q * quantityScale)"
proof -
  have q: "fin q" using fin_between [OF lo hi] by (simp add: minQuantity_val quantity_consts)
  have v: "7378697629483821 / 2 ^ 66 \<le> val q" "val q \<le> 10 ^ 9"
    using lo hi q by (auto simp: minQuantity_val quantity_consts f64_le_fin)
  have "rnd (7378697629483821 / 2 ^ 66 * 10000) = of_int (2 ^ 52) * 2 powi (- 52)"
    by (rule rnd_eqI) (simp_all add: power_int_def field_simps)
  then have one: "rnd (7378697629483821 / 2 ^ 66 * 10000) = 1" by (simp add: power_int_def power_divide)
  have "1 \<le> rnd (val q * 10000)"
    using rnd_mono [of "7378697629483821 / 2 ^ 66 * 10000" "val q * 10000"] one v by simp
  moreover have "rnd (val q * 10000) \<le> 10 ^ 13"
    using rnd_mono [of "val q * 10000" "10 ^ 13"] rnd_of_int [of "10 ^ 13"] v by simp
  moreover have "(10 ^ 13 :: rat) < 2 ^ 1024" by simp
  ultimately have r: "1 \<le> rnd (val q * 10000)" "rnd (val q * 10000) \<le> 10 ^ 13" "\<bar>rnd (val q * 10000)\<bar> < 2 ^ 1024"
    by (auto simp: abs_less_iff intro: le_less_trans)
  have m: "q * quantityScale = fl (signbit q \<noteq> signbit (FNum 10000)) (val q * 10000)"
    using q by (simp add: quantity_consts fmul_fin)
  have f: "fin (q * quantityScale)" using r(3) unfolding m fin_fl_iff .
  then have "val (q * quantityScale) = rnd (val q * 10000)" unfolding m by (rule val_fl_fin)
  then show ?thesis
    using f r rha_mono_nonneg [of "of_int 1" "rnd (val q * 10000)"]
      rha_mono_nonneg [of "rnd (val q * 10000)" "of_int (10 ^ 13)"]
    unfolding rha_of_int by simp
qed

lemma tick_quotient:
  assumes "fin a" "val a = of_int n" "1 \<le> n"
  shows "a / quantityScale = flit (of_int n / 10000)"
proof -
  have "\<not> signbit a" using assms by (cases a) auto
  then show ?thesis using assms by (simp add: quantity_consts fdiv_fin flit_def)
qed

lemma validateOrder_InrD:
  assumes "validateOrder uc req0 = Inr req"
  shows "rq_symbol req = to_upper uc (trim_space (rq_symbol req0))" "rq_symbol req \<noteq> []"
    "byte_len (rq_symbol req) \<le> 16" "rq_side req = rq_side req0"
    "rq_side req = SideBuy \<or> rq_side req = SideSell"
    "minQuantity \<le> rq_quantity req0" "rq_quantity req0 \<le> maxQuantity"
    "rq_quantity req = fround (rq_quantity req0 * quantityScale) / quantityScale"
  using assms f64_not_less [of maxQuantity "rq_quantity req0"] f64_le_not_NaN [of minQuantity "rq_quantity req0"]
  by (auto simp: validateOrder_def Let_def maxSymbolLength_def quantity_consts(2) split: if_splits)

lemma validateOrder_tick:
  assumes "validateOrder uc req0 = Inr req"
  shows "\<exists>n. 1 \<le> n \<and> n \<le> 10 ^ 13 \<and> rq_quantity req = flit (of_int n / 10000)"
proof -
  note v = validateOrder_InrD [OF assms]
  note t = tick_bounds [OF v(6,7)]
  note f = fround_fin [of "rq_quantity req0 * quantityScale"]
  show ?thesis unfolding v(8)
    using t f by (intro exI [of _ "rha (val (rq_quantity req0 * quantityScale))"]) (simp add: tick_quotient)
qed

lemma tick_nonneg_fin: "1 \<le> n \<Longrightarrow> n \<le> 10 ^ 13 \<Longrightarrow> nonneg_fin (flit (of_int n / 10000)) \<and> 0 < flit (of_int n / 10000)"
proof -
  assume n: "1 \<le> n" "n \<le> 10 ^ 13"
  have "(of_int n :: rat) \<le> of_int (10 ^ 13)" using n by (simp only: of_int_le_iff)
  then have f: "fin (flit (of_int n / 10000))" using n unfolding flit_def by (intro fin_fl_upto) simp_all
  have "fl False (1 / 10 ^ 4) \<le> fl False (of_int n / 10000)" using n by (intro fl_le_fl) simp
  then have "minQuantity \<le> flit (of_int n / 10000)" by (simp add: minQuantity_def flit_def)
  moreover have "0 < minQuantity" by (simp add: minQuantity_val zero_f64_def less_f64_def)
  ultimately have "0 < flit (of_int n / 10000)" by (rule f64_less_le_trans [rotated])
  then show ?thesis using f by (simp add: nonneg_fin_def f64_less_imp_le)
qed

lemma validateOrder_quantity_ok: "validateOrder uc req0 = Inr req \<Longrightarrow> nonneg_fin (rq_quantity req)"
  using validateOrder_tick tick_nonneg_fin by metis

section \<open>The store as a contract\<close>

text \<open>
  What the service relies on: a rejection leaves the ledger alone, and so does recording
  one.
\<close>

locale ledger_store =
  fixes ops :: "'s trading_store" and ledger :: "'s \<Rightarrow> 'l"
  assumes record_ledger: "ts_record ops a symb side q reason s = (r, s') \<Longrightarrow> ledger s' = ledger s"
    and reject_ledger: "ts_execute ops p s = (Inl e, s') \<Longrightarrow> e \<noteq> ErrInfra \<Longrightarrow> ledger s' = ledger s"
begin

lemma record_snd_ledger [simp]: "ledger (snd (ts_record ops a symb side q reason s)) = ledger s"
  by (rule record_ledger [OF prod.collapse [symmetric]])

lemma no_price_no_fill:
  assumes "PlaceOrder uc ops prices inval user req s c = (r, s', c')"
    and "prices (to_upper uc (trim_space (rq_symbol req))) = Inl e"
  shows "\<not> is_ok r \<and> ledger s' = ledger s \<and> c' = c"
proof (cases "validateOrder uc req")
  case (Inl e)
  then show ?thesis using assms by (auto simp: PlaceOrder_def)
next
  case (Inr rq)
  then have "prices (rq_symbol rq) = Inl e" using assms(2) by (simp add: validateOrder_InrD(1))
  then show ?thesis using assms(1) Inr
    by (auto simp: PlaceOrder_def recordRejection_def split: sum.splits)
qed

lemma rejected_untouched:
  assumes "PlaceOrder uc ops prices inval user req s c = (Inl e, s', c')" and "e \<noteq> ErrInfra"
  shows "ledger s' = ledger s \<and> c' = c"
  using assms
  by (auto simp: PlaceOrder_def recordRejection_def split: sum.splits prod.splits
      dest: reject_ledger)

end

text \<open>A store that also keeps an invariant under orders with usable numbers.\<close>

locale invariant_store = ledger_store ops ledger for ops :: "'s trading_store" and ledger :: "'s \<Rightarrow> 'l" +
  fixes inv :: "'s \<Rightarrow> bool"
  assumes execute_inv: "inv s \<Longrightarrow> params_ok p \<Longrightarrow> ts_execute ops p s = (r, s') \<Longrightarrow> inv s'"
    and record_inv: "inv s \<Longrightarrow> ts_record ops a symb side q reason s = (ro, s') \<Longrightarrow> inv s'"
begin

lemma PlaceOrder_inv:
  assumes run: "PlaceOrder uc ops prices inval user req s c = (r, s', c')" and i: "inv s"
    and usable: "\<And>symb x. prices symb = Inr x \<Longrightarrow> nonneg_fin x"
  shows "inv s'"
proof (cases "validateOrder uc req")
  case (Inl e)
  then show ?thesis using run i by (simp add: PlaceOrder_def)
next
  case (Inr rq)
  show ?thesis
  proof (cases "ts_account ops user s")
    case (Inl e)
    then show ?thesis using run i Inr by (simp add: PlaceOrder_def)
  next
    case acct: (Inr acct)
    show ?thesis
    proof (cases "prices (rq_symbol rq)")
      case (Inl e)
      then show ?thesis
        using run Inr acct record_inv [OF i prod.collapse [symmetric]]
        by (auto simp: PlaceOrder_def recordRejection_def)
    next
      case pr: (Inr x)
      let ?p = "\<lparr>x_account = ac_id acct, x_symbol = rq_symbol rq, x_side = rq_side rq,
              x_quantity = rq_quantity rq, x_price = x\<rparr>"
      have "params_ok ?p" using validateOrder_quantity_ok [OF Inr] usable [OF pr] by (simp add: params_ok_def)
      from execute_inv [OF i this] show ?thesis
        using run Inr acct pr by (auto simp: PlaceOrder_def split: sum.splits prod.splits)
    qed
  qed
qed

end

definition ledger_of :: "tdb \<Rightarrow> (uuid \<Rightarrow> f64 option) \<times> (uuid \<Rightarrow> gostr \<Rightarrow> f64 \<times> f64) \<times> (uuid \<times> trade) list" where
  \<comment> \<open>balances, holdings with their cost basis, and executions\<close>
  "ledger_of db = (balance_of db, position_of db, trades db)"

lemma reject_step_ledger: "reject_step env p reason db db' \<Longrightarrow> ledger_of db' = ledger_of db"
  by (auto simp: reject_step_def ledger_of_def)

interpretation pg: ledger_store "postgres_store env" ledger_of for env
proof
  fix a symb side q reason s r s'
  assume "ts_record (postgres_store env) a symb side q reason s = (r, s')"
  then show "ledger_of s' = ledger_of s"
    using RecordRejectedOrder_cases [of "env CallRecord"] reject_step_ledger
    by (fastforce simp: postgres_store_def)
next
  fix p s e s'
  assume "ts_execute (postgres_store env) p s = (Inl e, s')" "e \<noteq> ErrInfra"
  then show "ledger_of s' = ledger_of s"
    using ExecuteOrder_outcome [of "env CallExecute" p s "Inl e" s'] reject_step_ledger
    by (cases e) (auto simp: postgres_store_def)
qed

text \<open>
  One Postgres serves every call, so all calls meet the same NUMERIC columns;
  \<open>store_inv_under\<close> is the store's invariant where those columns behave as documented.
\<close>

definition store_inv_under :: "(api_call \<Rightarrow> pg) \<Rightarrow> tdb \<Rightarrow> bool" where
  "store_inv_under env db \<longleftrightarrow> (num_ok (pg_numeric (env CallExecute)) \<longrightarrow> store_inv db)"

interpretation pgi: invariant_store "postgres_store env" ledger_of "store_inv_under env" for env
proof
  fix s p r s'
  assume "store_inv_under env s" "params_ok p" "ts_execute (postgres_store env) p s = (r, s')"
  then show "store_inv_under env s'"
    using ExecuteOrder_inv by (auto simp: store_inv_under_def postgres_store_def)
next
  fix s a symb side q reason ro s'
  assume "store_inv_under env s" "ts_record (postgres_store env) a symb side q reason s = (ro, s')"
  then show "store_inv_under env s'"
    using RecordRejectedOrder_cases [of "env CallRecord"] reject_step_inv
    by (fastforce simp: store_inv_under_def postgres_store_def)
qed

section \<open>The price client\<close>

lemma LatestPrice_usable: "LatestPrice ex = Inr x \<Longrightarrow> fin x \<and> 0 < x"
proof -
  assume "LatestPrice ex = Inr x"
  then have x: "\<not> x \<le> 0" "x \<noteq> NaN" "\<not> is_inf x"
    by (auto simp: LatestPrice_def is_nan_def split: http_exchange.splits if_splits option.splits)
  then show ?thesis using f64_not_le [of x 0] by (cases x) (auto simp: is_inf_def)
qed

section \<open>Concurrent pricing\<close>

definition priced :: "price_client \<Rightarrow> holding \<Rightarrow> position" where
  "priced prices h =
     (case prices (h_symbol h) of
        Inl _ \<Rightarrow> unpriced h
      | Inr latest \<Rightarrow> (unpriced h)\<lparr>p_latest_price := Some latest,
          p_unrealized_pl := (latest - h_avg_cost h) * h_quantity h\<rparr>)"

lemma price_one_nth:
  assumes "i < length hs" "length ps = length hs" "ps ! i = unpriced (hs ! i)"
  shows "price_one prices hs ps i = ps[i := priced prices (hs ! i)]"
proof (cases "prices (h_symbol (hs ! i))")
  case (Inl e)
  then have "priced prices (hs ! i) = ps ! i" using assms(3) by (simp add: priced_def)
  then show ?thesis using Inl by (simp add: price_one_def)
next
  case (Inr x)
  then show ?thesis using assms by (simp add: price_one_def priced_def Let_def)
qed

lemma price_sched_nth:
  assumes "distinct sched" "set sched \<subseteq> {..<length hs}"
  shows "length (price_sched prices hs sched) = length hs \<and> (\<forall>j<length hs. price_sched prices hs sched ! j
     = (if j \<in> set sched then priced prices (hs ! j) else unpriced (hs ! j)))"
  using assms
proof (induction sched rule: rev_induct)
  case Nil
  then show ?case by (simp add: price_sched_def)
next
  case (snoc i sched)
  let ?ps = "price_sched prices hs sched"
  from snoc have IH: "length ?ps = length hs" "\<And>j. j < length hs \<Longrightarrow> ?ps ! j
      = (if j \<in> set sched then priced prices (hs ! j) else unpriced (hs ! j))" by auto
  have "price_sched prices hs (sched @ [i]) = ?ps[i := priced prices (hs ! i)]"
    using snoc.prems IH price_one_nth [of i hs ?ps] by (simp add: price_sched_def)
  then show ?case using IH snoc.prems by (auto simp: nth_list_update)
qed

lemma price_sched_perm:
  assumes "distinct sched" "set sched = {..<length hs}"
  shows "price_sched prices hs sched = map (priced prices) hs"
  using price_sched_nth [of sched hs prices] assms by (auto simp: list_eq_iff_nth_eq)

lemma price_eq: "price prices hs = map (priced prices) hs"
  unfolding price_def by (rule price_sched_perm) (auto simp: atLeast0LessThan)

end
