(* ===== verification/GoJSON.thy ===== *)
theory GoJSON
  imports F64Facts
begin

text \<open>
  Package \<open>encoding/json\<close>, as far as the services use it: a syntactically valid JSON value
  is a tree, and decoding it into a Go value follows \<open>json.Unmarshal\<close>. A number keeps its
  sign, its decimal value \<open>mant * 10^exp\<close> and whether its text is an integer literal, which
  is what decides if it can be stored in an integer field. A member is matched to a struct
  field by case folding, the last match wins, \<open>null\<close> leaves a field alone, and a value of
  the wrong type makes the whole decode fail.
\<close>

datatype json = JNull | JBool bool | JNum bool nat int bool | JStr gostr
  | JArr "json list" | JObj "(gostr \<times> json) list"

section \<open>Decoding\<close>

definition fold_rune :: "rune \<Rightarrow> rune" where
  \<comment> \<open>the least code point that folds to \<open>r\<close>; only the orbits of ASCII letters matter, as
    every field name is ASCII\<close>
  "fold_rune r = (if 97 \<le> r \<and> r \<le> 122 then r - 32 else if r = 383 then 83 else if r = 8490 then 75 else r)"

definition names_field :: "gostr \<Rightarrow> gostr \<Rightarrow> bool" where
  "names_field field key \<longleftrightarrow> map fold_rune key = map fold_rune field"

definition dec_int :: "json \<Rightarrow> int option" where
  "dec_int j = (case j of JNum neg m e True \<Rightarrow>
     let v = (if neg then - 1 else 1) * \<lfloor>of_nat m * (10 :: rat) powi e\<rfloor> in if int64 v then Some v else None
   | _ \<Rightarrow> None)"

definition num_value :: "bool \<Rightarrow> nat \<Rightarrow> int \<Rightarrow> f64" where
  "num_value neg m e = (let q = of_nat m * (10 :: rat) powi e in fl neg (if neg then - q else q))"

definition dec_float :: "json \<Rightarrow> f64 option" where
  "dec_float j = (case j of JNum neg m e _ \<Rightarrow>
     let v = num_value neg m e in if is_inf v then None else Some v
   | _ \<Rightarrow> None)"

definition dec_string :: "json \<Rightarrow> gostr option" where
  "dec_string j = (case j of JStr s \<Rightarrow> Some s | _ \<Rightarrow> None)"

definition dec_member :: "gostr \<Rightarrow> (json \<Rightarrow> 'a option) \<Rightarrow> 'a option \<Rightarrow> gostr \<times> json \<Rightarrow> 'a option" where
  "dec_member field dec = (\<lambda>acc (k, v).
     case acc of None \<Rightarrow> None
     | Some x \<Rightarrow> if \<not> names_field field k \<or> v = JNull then Some x else dec v)"

definition dec_field :: "gostr \<Rightarrow> (json \<Rightarrow> 'a option) \<Rightarrow> 'a \<Rightarrow> json \<Rightarrow> 'a option" where
  \<comment> \<open>the field of a struct after decoding \<open>j\<close> into it; \<open>zero\<close> is the field's zero value\<close>
  "dec_field field dec zero j = (case j of
     JNull \<Rightarrow> Some zero
   | JObj ms \<Rightarrow> foldl (dec_member field dec) (Some zero) ms
   | _ \<Rightarrow> None)"

section \<open>Encoding\<close>

definition enc_int :: "int \<Rightarrow> json" where
  "enc_int n = JNum (n < 0) (nat \<bar>n\<bar>) 0 True"

definition decimal_exp :: "rat \<Rightarrow> int" where
  \<comment> \<open>the number of digits before the point, from the binary exponent and one comparison\<close>
  "decimal_exp r = (let d = (fexp r + 53) * 1233 div 4096
     in if r < 10 powi d then d else d + 1)"

definition digits_candidate :: "rat \<Rightarrow> nat \<Rightarrow> nat \<times> int" where
  "digits_candidate r n = (let e = decimal_exp r - int n in (nat (rhe (r / 10 powi e)), e))"

definition shortest :: "rat \<Rightarrow> nat \<times> int" where
  \<comment> \<open>the fewest decimal digits that read back as the positive float \<open>r\<close>; at most 17 are
    ever needed, and the exact expansion stands after them\<close>
  "shortest r = (case filter (\<lambda>(m, e). fl False (of_nat m * 10 powi e) = FNum r) (map (digits_candidate r) [1..<18]) of
     c # _ \<Rightarrow> c
   | [] \<Rightarrow> (let (a, b) = quotient_of r; k = bitlen b - 1 in (nat (a * 5 ^ nat k), - k)))"

fun enc_float :: "f64 \<Rightarrow> json option" where
  \<comment> \<open>\<open>None\<close> is the UnsupportedValueError of an infinity or a NaN\<close>
  "enc_float FNegZero = Some (JNum True 0 0 True)"
| "enc_float (FNum r) = (if r = 0 then Some (JNum False 0 0 True)
     else let (m, e) = shortest \<bar>r\<bar> in
       if 0 \<le> e \<and> \<bar>r\<bar> < 10 ^ 21 then Some (JNum (r < 0) (m * 10 ^ nat e) 0 True)
       else Some (JNum (r < 0) m e False))"
| "enc_float _ = None"

section \<open>Facts\<close>

lemma dec_int_enc: "int64 n \<Longrightarrow> dec_int (enc_int n) = Some n"
  by (simp add: dec_int_def enc_int_def)

lemma num_value_neg: "num_value True m e = fneg (num_value False m e)"
proof -
  define q where "q = (of_nat m :: rat) * 10 powi e"
  have "0 \<le> rnd q" by (rule rnd_nonneg) (simp add: q_def)
  then show ?thesis by (auto simp: num_value_def q_def [symmetric] fl_def Let_def)
qed

lemma dec_field_single:
  "names_field f k \<Longrightarrow> v \<noteq> JNull \<Longrightarrow> dec_field f d z (JObj [(k, v)]) = d v"
  by (simp add: dec_field_def dec_member_def)

end
