(* ===== verification/GoTime.thy ===== *)
theory GoTime
  imports Prelude
begin

text \<open>
  Package \<open>time\<close>, as far as the services use it. An instant (\<open>time.Time\<close>) is the number of
  nanoseconds since 1 January of year 1, UTC, on the proleptic Gregorian calendar; its zero
  value is 0, a \<open>time.Duration\<close> is a difference of instants, and \<open>Before\<close> is \<open><\<close>. The
  location a Go value carries is not kept: every use in the services converts to UTC first
  or compares instants. Calendar dates are computed, so the date functions are \<open>Date\<close>,
  \<open>AddDate\<close>, \<open>Parse\<close> and \<open>Format\<close> with the layout \<open>2006-01-02\<close>.
\<close>

type_synonym instant = int

definition second :: int where "second = 10 ^ 9"
definition day_ns :: int where "day_ns = 86400 * second"

lemma day_ns_pos [simp]: "0 < day_ns"
  by (simp add: day_ns_def second_def)

section \<open>The calendar\<close>

definition leap :: "int \<Rightarrow> bool" where
  "leap y \<longleftrightarrow> 4 dvd y \<and> (\<not> 100 dvd y \<or> 400 dvd y)"

definition days_before_year :: "int \<Rightarrow> int" where
  "days_before_year y = 365 * (y - 1) + (y - 1) div 4 - (y - 1) div 100 + (y - 1) div 400"

definition leap_day :: "int \<Rightarrow> int" where
  "leap_day y = (if leap y then 1 else 0)"

definition days_before_month :: "int \<Rightarrow> int \<Rightarrow> int" where
  "days_before_month y m =
     [0, 31, 59, 90, 120, 151, 181, 212, 243, 273, 304, 334] ! nat (m - 1)
       + (if m > 2 then leap_day y else 0)"

definition days_in :: "int \<Rightarrow> int \<Rightarrow> int" where
  "days_in y m = (if m = 2 then 28 + leap_day y else [31, 0, 31, 30, 31, 30, 31, 31, 30, 31, 30, 31] ! nat (m - 1))"

definition year_of :: "int \<Rightarrow> int" where
  \<comment> \<open>the year of the day with number \<open>n\<close>, day 0 being 1 January of year 1\<close>
  "year_of n = (let g = (400 * n) div 146097 + 1 in if days_before_year (g + 1) \<le> n then g + 1 else g)"

definition month_of :: "int \<Rightarrow> int \<Rightarrow> int" where
  "month_of y d = (if d < 31 then 1 else let e = d - leap_day y in
     if e < 59 then 2 else if e < 90 then 3 else if e < 120 then 4 else if e < 151 then 5
     else if e < 181 then 6 else if e < 212 then 7 else if e < 243 then 8 else if e < 273 then 9
     else if e < 304 then 10 else if e < 334 then 11 else 12)"

definition civil :: "int \<Rightarrow> int \<times> int \<times> int" where
  "civil n = (let y = year_of n; d = n - days_before_year y; m = month_of y d
     in (y, m, d - days_before_month y m + 1))"

definition go_date :: "int \<Rightarrow> int \<Rightarrow> int \<Rightarrow> instant" where
  \<comment> \<open>\<open>time.Date(y, m, d, 0, 0, 0, 0, time.UTC)\<close>, months and days out of range carried over\<close>
  "go_date y m d = (let y' = y + (m - 1) div 12; m' = (m - 1) mod 12 + 1
     in (days_before_year y' + days_before_month y' m' + d - 1) * day_ns)"

definition date_of :: "instant \<Rightarrow> int \<times> int \<times> int" where
  "date_of t = civil (t div day_ns)"

definition AddDate :: "instant \<Rightarrow> int \<Rightarrow> int \<Rightarrow> int \<Rightarrow> instant" where
  "AddDate t years months days = (case date_of t of (y, m, d) \<Rightarrow>
     go_date (y + years) (m + months) (d + days) + t mod day_ns)"

definition valid_date :: "int \<Rightarrow> int \<Rightarrow> int \<Rightarrow> bool" where
  "valid_date y m d \<longleftrightarrow> 1 \<le> m \<and> m \<le> 12 \<and> 1 \<le> d \<and> d \<le> days_in y m"

section \<open>Dates as text\<close>

function zpad :: "nat \<Rightarrow> nat \<Rightarrow> gostr" where
  \<comment> \<open>decimal digits, last first, zero-padded to a width\<close>
  "zpad w n = (if w = 0 \<and> n = 0 then [] else zpad (w - 1) (n div 10) @ [48 + n mod 10])"
  by pat_completeness auto
termination by (relation "measure (\<lambda>(w, n). w + n)") auto

declare zpad.simps [simp del]

definition append_int :: "int \<Rightarrow> nat \<Rightarrow> gostr" where
  "append_int x w = (if x < 0 then [45] else []) @ zpad w (nat \<bar>x\<bar>)"

definition format_date :: "instant \<Rightarrow> gostr" where
  \<comment> \<open>\<open>t.UTC().Format("2006-01-02")\<close>\<close>
  "format_date t = (case date_of t of (y, m, d) \<Rightarrow>
     append_int y 4 @ [45] @ append_int m 2 @ [45] @ append_int d 2)"

definition digit :: "rune \<Rightarrow> int option" where
  "digit r = (if 48 \<le> r \<and> r \<le> 57 then Some (int r - 48) else None)"

fun digits_value :: "gostr \<Rightarrow> int \<Rightarrow> int option" where
  "digits_value [] acc = Some acc"
| "digits_value (r # s) acc = (case digit r of None \<Rightarrow> None | Some v \<Rightarrow> digits_value s (10 * acc + v))"

fun parse_date :: "gostr \<Rightarrow> instant option" where
  \<comment> \<open>\<open>time.Parse("2006-01-02", s)\<close>: four, two and two digits, a month and a day that exist\<close>
  "parse_date [a, b, c, e, h1, f, g, h2, i, j] =
     (if h1 \<noteq> 45 \<or> h2 \<noteq> 45 then None
      else case (digits_value [a, b, c, e] 0, digits_value [f, g] 0, digits_value [i, j] 0) of
        (Some y, Some m, Some d) \<Rightarrow> if valid_date y m d then Some (go_date y m d) else None
      | _ \<Rightarrow> None)"
| "parse_date _ = None"

section \<open>The calendar is consistent\<close>

lemma div_pred: "0 < k \<Longrightarrow> (y::int) div k = (y - 1) div k + (if k dvd y then 1 else 0)"
proof -
  assume k: "0 < k"
  have y: "y = k * (y div k) + y mod k" by simp
  show ?thesis
  proof (cases "k dvd y")
    case True
    then have "(y - 1) div k = y div k - 1"
      using k by (intro int_div_pos_eq [of _ _ _ "k - 1"]) (auto simp: algebra_simps)
    then show ?thesis using True by simp
  next
    case False
    then have "0 < y mod k" using k by (simp add: dvd_eq_mod_eq_0 order_less_le)
    then have "(y - 1) div k = y div k"
      using k y pos_mod_bound [of k y] by (intro int_div_pos_eq [of _ _ _ "y mod k - 1"]) linarith+
    then show ?thesis using False by simp
  qed
qed

lemma leap_day_bounds: "0 \<le> leap_day y" "leap_day y \<le> 1"
  by (simp_all add: leap_day_def)

lemma div_bounds: "0 < k \<Longrightarrow> k * (x div k) \<le> (x::int) \<and> x < k * (x div k) + k"
  using pos_mod_bound [of k x] pos_mod_sign [of k x] mult_div_mod_eq [of k x] by linarith

lemma leap_days: "days_before_year (y + 1) = days_before_year y + 365 + leap_day y"
proof -
  have d: "400 dvd y \<longrightarrow> 100 dvd y" "100 dvd y \<longrightarrow> 4 dvd y"
    using dvd_trans [of 100 400 y] dvd_trans [of 4 100 y] by simp_all
  have l: "(if 4 dvd y then 1 else 0) - (if 100 dvd y then 1 else 0) + (if 400 dvd y then 1 else 0) = leap_day y"
    unfolding leap_day_def leap_def
    by (cases "400 dvd y"; cases "100 dvd y"; cases "4 dvd y") (use d in simp_all)
  define a b c where "a = (if 4 dvd y then 1 else 0 :: int)" and "b = (if 100 dvd y then 1 else 0 :: int)"
    and "c = (if 400 dvd y then 1 else 0 :: int)"
  have "y div 4 = (y - 1) div 4 + a" "y div 100 = (y - 1) div 100 + b" "y div 400 = (y - 1) div 400 + c"
    unfolding a_def b_def c_def by (rule div_pred; simp)+
  moreover have "days_before_year (y + 1) = 365 * y + y div 4 - y div 100 + y div 400"
    by (simp add: days_before_year_def)
  ultimately show ?thesis
    using l unfolding days_before_year_def [of y] a_def [symmetric] b_def [symmetric] c_def [symmetric]
    by (simp add: algebra_simps)
qed

lemma days_before_year_mono:
  assumes "y \<le> z" shows "days_before_year y \<le> days_before_year z"
  using assms
proof (induction z rule: int_ge_induct)
  case (step z)
  then show ?case using leap_days [of z] leap_day_bounds [of z] by linarith
qed simp

lemma year_of_bounds: "days_before_year (year_of n) \<le> n \<and> n < days_before_year (year_of n + 1)"
proof -
  define k where "k = (400 * n) div 146097"
  have k: "146097 * k \<le> 400 * n" "400 * n < 146097 * k + 146097"
    using div_bounds [of 146097 "400 * n"] by (simp_all add: k_def)
  have b: "4 * (x div 4) \<le> x" "x < 4 * (x div 4) + 4" "100 * (x div 100) \<le> x" "x < 100 * (x div 100) + 100"
    "400 * (x div 400) \<le> x" "x < 400 * (x div 400) + 400" for x :: int
    using div_bounds [of 4 x] div_bounds [of 100 x] div_bounds [of 400 x] by simp_all
  have 1: "days_before_year (k + 1) \<le> n"
    using k b [of k] unfolding days_before_year_def add_diff_cancel_right' by linarith
  define p q r where "p = (k + 2) div 4" and "q = (k + 2) div 100" and "r = (k + 2) div 400"
  have "k + 3 - 1 = k + 2" by simp
  then have "days_before_year (k + 3) = 365 * (k + 2) + p - q + r"
    unfolding days_before_year_def p_def q_def r_def by (simp only:)
  then have 2: "n < days_before_year (k + 3)"
    using k b [of "k + 2"] unfolding p_def [symmetric] q_def [symmetric] r_def [symmetric]
    by (simp add: algebra_simps)
  show ?thesis using 1 2 by (simp add: year_of_def k_def [symmetric] Let_def add.commute add.left_commute)
qed

lemma year_of_unique: "days_before_year y \<le> n \<Longrightarrow> n < days_before_year (y + 1) \<Longrightarrow> year_of n = y"
  using year_of_bounds [of n] days_before_year_mono [of "year_of n + 1" y] days_before_year_mono [of "y + 1" "year_of n"]
  by linarith

lemma month_cases:
  assumes "1 \<le> m" "m \<le> (12::int)"
  obtains "m = 1" | "m = 2" | "m = 3" | "m = 4" | "m = 5" | "m = 6" | "m = 7" | "m = 8" | "m = 9"
    | "m = 10" | "m = 11" | "m = 12"
proof -
  have "m = 1 \<or> m = 2 \<or> m = 3 \<or> m = 4 \<or> m = 5 \<or> m = 6 \<or> m = 7 \<or> m = 8 \<or> m = 9
      \<or> m = 10 \<or> m = 11 \<or> m = 12"
    using assms by presburger
  then show ?thesis using that by blast
qed

lemma month_table:
  "days_before_month y 1 = 0" "days_before_month y 2 = 31" "days_before_month y 3 = 59 + leap_day y"
  "days_before_month y 4 = 90 + leap_day y" "days_before_month y 5 = 120 + leap_day y"
  "days_before_month y 6 = 151 + leap_day y" "days_before_month y 7 = 181 + leap_day y"
  "days_before_month y 8 = 212 + leap_day y" "days_before_month y 9 = 243 + leap_day y"
  "days_before_month y 10 = 273 + leap_day y" "days_before_month y 11 = 304 + leap_day y"
  "days_before_month y 12 = 334 + leap_day y"
  "days_in y 1 = 31" "days_in y 2 = 28 + leap_day y" "days_in y 3 = 31" "days_in y 4 = 30"
  "days_in y 5 = 31" "days_in y 6 = 30" "days_in y 7 = 31" "days_in y 8 = 31" "days_in y 9 = 30"
  "days_in y 10 = 31" "days_in y 11 = 30" "days_in y 12 = 31"
  by (simp_all add: days_before_month_def days_in_def)

lemma month_of_bounds:
  assumes "0 \<le> d" "d < 365 + leap_day y"
  shows "1 \<le> month_of y d \<and> month_of y d \<le> 12 \<and> days_before_month y (month_of y d) \<le> d
    \<and> d < days_before_month y (month_of y d) + days_in y (month_of y d)"
  using assms leap_day_bounds [of y] unfolding month_of_def Let_def by (simp add: month_table)

lemma month_of_unique:
  assumes "1 \<le> m" "m \<le> 12" "days_before_month y m \<le> d" "d < days_before_month y m + days_in y m"
  shows "month_of y d = m"
  using assms(1,2) assms(3,4) leap_day_bounds [of y] unfolding month_of_def Let_def
  by (cases rule: month_cases) (simp_all add: month_table)

lemma days_in_year:
  assumes "1 \<le> m" "m \<le> 12"
  shows "0 \<le> days_before_month y m \<and> days_before_month y m + days_in y m \<le> 365 + leap_day y"
  using assms leap_day_bounds [of y] by (cases rule: month_cases) (simp_all add: month_table)

lemma days_in_le: "1 \<le> m \<Longrightarrow> m \<le> 12 \<Longrightarrow> days_in y m \<le> 31"
  using leap_day_bounds [of y] by (elim month_cases [of m]) (simp_all add: month_table)

lemma civil_valid: "civil n = (y, m, d) \<Longrightarrow> valid_date y m d"
  and civil_days: "civil n = (y, m, d) \<Longrightarrow> days_before_year y + days_before_month y m + d - 1 = n"
proof -
  have b: "0 \<le> n - days_before_year (year_of n)" "n - days_before_year (year_of n) < 365 + leap_day (year_of n)"
    using year_of_bounds [of n] leap_days [of "year_of n"] by linarith+
  note m = month_of_bounds [OF b]
  show "civil n = (y, m, d) \<Longrightarrow> valid_date y m d"
    and "civil n = (y, m, d) \<Longrightarrow> days_before_year y + days_before_month y m + d - 1 = n"
    using m by (auto simp: civil_def Let_def valid_date_def)
qed

lemma civil_of_date:
  assumes "valid_date y m d"
  shows "civil (days_before_year y + days_before_month y m + d - 1) = (y, m, d)"
proof -
  let ?n = "days_before_year y + days_before_month y m + d - 1"
  have v: "1 \<le> m" "m \<le> 12" "1 \<le> d" "d \<le> days_in y m" using assms by (simp_all add: valid_date_def)
  note b = days_in_year [OF v(1,2), of y]
  have "year_of ?n = y" by (rule year_of_unique) (use b v leap_days [of y] in linarith)+
  moreover have "month_of y (days_before_month y m + d - 1) = m" by (rule month_of_unique [OF v(1,2)]) (use v in linarith)+
  ultimately show ?thesis by (simp add: civil_def Let_def algebra_simps)
qed

lemma go_date_plain: "1 \<le> m \<Longrightarrow> m \<le> 12 \<Longrightarrow>
    go_date y m d = (days_before_year y + days_before_month y m + d - 1) * day_ns"
proof -
  assume "1 \<le> m" "m \<le> 12"
  then have "(m - 1) div 12 = 0" "(m - 1) mod 12 = m - 1" by presburger+
  then show ?thesis by (simp add: go_date_def)
qed

lemma date_of_go_date: "valid_date y m d \<Longrightarrow> date_of (go_date y m d) = (y, m, d)"
  using civil_of_date [of y m d] day_ns_pos by (simp add: date_of_def go_date_plain valid_date_def del: day_ns_pos)

lemma go_date_date_of: "date_of t = (y, m, d) \<Longrightarrow> go_date y m d = t div day_ns * day_ns"
  using civil_days [of "t div day_ns" y m d] civil_valid [of "t div day_ns" y m d]
  by (simp add: date_of_def go_date_plain valid_date_def)

lemma AddDate_days: "AddDate t 0 0 n = t + n * day_ns"
proof -
  obtain y m d where dt: "date_of t = (y, m, d)" by (cases "date_of t") auto
  then have v: "valid_date y m d" unfolding date_of_def by (rule civil_valid)
  have "go_date y m (d + n) = go_date y m d + n * day_ns"
    using v by (simp add: go_date_plain valid_date_def algebra_simps)
  then show ?thesis using go_date_date_of [OF dt] by (simp add: AddDate_def dt)
qed

lemma go_date_eq_iff:
  "valid_date y m d \<Longrightarrow> valid_date y' m' d' \<Longrightarrow> go_date y m d = go_date y' m' d' \<longleftrightarrow> (y, m, d) = (y', m', d')"
  by (auto dest: arg_cong [of "go_date y m d" _ date_of] simp: date_of_go_date)

section \<open>Printing and parsing a date are inverse\<close>

lemma zpad_Suc: "zpad (Suc w) n = zpad w (n div 10) @ [48 + n mod 10]"
  by (simp add: zpad.simps [of "Suc w"])

lemma zpad_0: "zpad 0 0 = []"
  by (simp add: zpad.simps)

lemma digits_value_append: "digits_value (s @ t) acc = (case digits_value s acc of None \<Rightarrow> None | Some v \<Rightarrow> digits_value t v)"
  by (induction s arbitrary: acc) (simp_all split: option.split)

lemma digits_value_zpad: "digits_value (zpad w n) 0 = Some (int n)"
proof (induction w n rule: zpad.induct)
  case (1 w n)
  have "digit (48 + n mod 10) = Some (int (n mod 10))" by (auto simp: digit_def)
  moreover have "10 * int (n div 10) + int (n mod 10) = int n"
    by (metis mult_div_mod_eq of_nat_add of_nat_mult of_nat_numeral)
  ultimately show ?case
    using 1 by (subst zpad.simps) (simp add: digits_value_append)
qed

lemma length_zpad: "n < 10 ^ w \<Longrightarrow> length (zpad w n) = w"
proof (induction w arbitrary: n)
  case 0 then show ?case by (simp add: zpad_0)
next
  case (Suc w) then show ?case by (simp add: zpad_Suc less_mult_imp_div_less mult.commute)
qed

lemma zpad_digits_value: "digits_value s 0 = Some v \<Longrightarrow> 0 \<le> v \<and> v < 10 ^ length s \<and> zpad (length s) (nat v) = s"
proof (induction s arbitrary: v rule: rev_induct)
  case (snoc r s)
  then obtain u x where ux: "digits_value s 0 = Some u" "digit r = Some x" "v = 10 * u + x"
    by (auto simp: digits_value_append split: option.splits)
  then have x: "0 \<le> x" "x < 10" "r = 48 + nat x" by (auto simp: digit_def split: if_splits)
  have u: "0 \<le> u" "u < 10 ^ length s" "zpad (length s) (nat u) = s" using snoc.IH [OF ux(1)] by auto
  have "nat v = 10 * nat u + nat x" using u(1) x(1) ux(3) by (simp add: nat_add_distrib nat_mult_distrib)
  then show ?case using u x ux(3) by (simp add: zpad_Suc)
qed (simp add: zpad_0)

lemma parse_date_format:
  assumes "date_of t = (y, m, d)" "0 \<le> y" "y \<le> 9999"
  shows "parse_date (format_date t) = Some (t div day_ns * day_ns)"
proof -
  have v: "valid_date y m d" using assms(1) unfolding date_of_def by (rule civil_valid)
  then have r: "0 \<le> m" "m < 100" "0 \<le> d" "d < 100"
    using days_in_le [of m y] by (auto simp: valid_date_def)
  have "length (zpad 4 (nat y)) = 4" "length (zpad 2 (nat m)) = 2" "length (zpad 2 (nat d)) = 2"
    using assms r by (auto intro!: length_zpad simp: nat_less_iff)
  then obtain a b c e f g i j where z: "zpad 4 (nat y) = [a, b, c, e]" "zpad 2 (nat m) = [f, g]" "zpad 2 (nat d) = [i, j]"
    by (auto simp: length_Suc_conv numeral_eq_Suc)
  show ?thesis
    using v go_date_date_of [OF assms(1)] assms(2) r
      digits_value_zpad [of 4 "nat y"] digits_value_zpad [of 2 "nat m"] digits_value_zpad [of 2 "nat d"]
    by (simp add: format_date_def assms(1) append_int_def z del: digits_value.simps)
qed

lemma format_date_parse:
  assumes "parse_date s = Some t" shows "format_date t = s \<and> t mod day_ns = 0"
  using assms
proof (cases s rule: parse_date.cases)
  case (1 a b c e h1 f g h2 i j)
  then obtain y m d where p: "h1 = 45" "h2 = 45" "digits_value [a, b, c, e] 0 = Some y"
      "digits_value [f, g] 0 = Some m" "digits_value [i, j] 0 = Some d" "valid_date y m d" "t = go_date y m d"
    using assms by (auto split: if_splits option.splits simp del: digits_value.simps)
  show ?thesis
    using 1 zpad_digits_value [OF p(3)] zpad_digits_value [OF p(4)] zpad_digits_value [OF p(5)]
      date_of_go_date [OF p(6)] p(1,2,6,7)
    by (simp add: format_date_def append_int_def go_date_plain valid_date_def numeral_eq_Suc)
qed simp_all

end
