(* ===== verification/GoStrconv.thy ===== *)
theory GoStrconv
  imports GoTime
begin

text \<open>
  Package \<open>strconv\<close>: \<open>Atoi\<close> and \<open>Quote\<close>. A text that is not a decimal integer gives 0 and an error; one
  that is out of range gives the nearest \<open>int\<close> and an error.
\<close>

definition max_int :: int where "max_int = 2 ^ 63 - 1"
definition min_int :: int where "min_int = - (2 ^ 63)"

definition clamp :: "int \<Rightarrow> int" where
  "clamp v = (if v > max_int then max_int else if v < min_int then min_int else v)"

definition Atoi :: "gostr \<Rightarrow> int \<times> bool" where
  \<comment> \<open>the value and whether the error is nil\<close>
  "Atoi s =
     (let (neg, ds) = (case s of [] \<Rightarrow> (False, [])
          | r # rest \<Rightarrow> if r = 45 then (True, rest) else if r = 43 then (False, rest) else (False, s))
      in if ds = [] then (0, False)
         else case digits_value ds 0 of
           None \<Rightarrow> (0, False)
         | Some v \<Rightarrow> let x = (if neg then - v else v) in (clamp x, int64 x))"

section \<open>Quoting\<close>

definition hex_rune :: "nat \<Rightarrow> rune" where
  "hex_rune d = (if d < 10 then 48 + d else 87 + d)"

definition hex_padded :: "nat \<Rightarrow> nat \<Rightarrow> gostr" where
  "hex_padded width n = map (\<lambda>i. hex_rune (n div 16 ^ i mod 16)) (rev [0..<width])"

definition printable :: "(rune \<Rightarrow> bool) \<Rightarrow> rune \<Rightarrow> bool" where
  \<comment> \<open>\<open>strconv.IsPrint\<close>; beyond ASCII it is a table of the library, the argument\<close>
  "printable tbl r \<longleftrightarrow> (if r < 128 then 32 \<le> r \<and> r < 127 else tbl r)"

definition quote_rune :: "(rune \<Rightarrow> bool) \<Rightarrow> rune \<Rightarrow> gostr" where
  "quote_rune tbl r =
     (if r = 34 \<or> r = 92 then [92, r]
      else if printable tbl r then [r]
      else if r = 7 then [92, 97]
      else if r = 8 then [92, 98]
      else if r = 12 then [92, 102]
      else if r = 10 then [92, 110]
      else if r = 13 then [92, 114]
      else if r = 9 then [92, 116]
      else if r = 11 then [92, 118]
      else if r < 32 \<or> r = 127 then [92, 120] @ hex_padded 2 r
      else if r < 65536 then [92, 117] @ hex_padded 4 r
      else [92, 85] @ hex_padded 8 r)"

definition Quote :: "(rune \<Rightarrow> bool) \<Rightarrow> gostr \<Rightarrow> gostr" where
  "Quote tbl s = [34] @ concat (map (quote_rune tbl) s) @ [34]"

end
