(* ===== verification/GoStrings.thy ===== *)
theory GoStrings
  imports Prelude
begin

text \<open>
  The functions of package \<open>strings\<close> beyond the prelude's that the gateway, the auth service
  and the insights service use, \<open>net.SplitHostPort\<close>, and the parameter at the end of a chi pattern.
\<close>

definition cut_prefix :: "gostr \<Rightarrow> gostr \<Rightarrow> gostr option" where
  "cut_prefix prefix s = (if take (length prefix) s = prefix then Some (drop (length prefix) s) else None)"

lemma cut_prefix_Some: "cut_prefix p s = Some t \<longleftrightarrow> s = p @ t"
  by (auto simp: cut_prefix_def) (metis append_take_drop_id)

definition has_prefix :: "gostr \<Rightarrow> gostr \<Rightarrow> bool" where
  "has_prefix p s \<longleftrightarrow> cut_prefix p s \<noteq> None"

fun split_rune :: "rune \<Rightarrow> gostr \<Rightarrow> gostr list" where
  \<comment> \<open>\<open>strings.Split\<close> at a separator of one rune\<close>
  "split_rune c [] = [[]]"
| "split_rune c (r # s) =
     (if r = c then [] # split_rune c s
      else case split_rune c s of f # fs \<Rightarrow> (r # f) # fs | [] \<Rightarrow> [[r]])"

lemma split_rune_not_Nil [simp]: "split_rune c s \<noteq> []"
  by (cases s) (auto split: list.splits)

lemma split_rune_append: "split_rune c (s @ c # t) = split_rune c s @ split_rune c t"
  by (induction s) (auto split: list.splits)

lemma split_rune_single: "c \<notin> set s \<Longrightarrow> split_rune c s = [s]"
  by (induction s) auto

fun contains_str :: "gostr \<Rightarrow> gostr \<Rightarrow> bool" where
  \<comment> \<open>\<open>strings.Contains\<close>: whether the second argument occurs in the first\<close>
  "contains_str [] t = (t = [])"
| "contains_str (r # s) t = (has_prefix t (r # s) \<or> contains_str s t)"

lemma has_prefix_iff: "has_prefix p s \<longleftrightarrow> (\<exists>t. s = p @ t)"
  by (auto simp: has_prefix_def cut_prefix_Some)

lemma contains_str_iff: "contains_str s t \<longleftrightarrow> (\<exists>a b. s = a @ t @ b)"
proof (induction s)
  case (Cons r s)
  show ?case
  proof
    assume "contains_str (r # s) t"
    then consider b where "r # s = t @ b" | a b where "s = a @ t @ b"
      using Cons by (auto simp: has_prefix_iff)
    then show "\<exists>a b. r # s = a @ t @ b" by cases (metis append_Nil, metis append_Cons)
  next
    assume "\<exists>a b. r # s = a @ t @ b"
    then obtain a b where "r # s = a @ t @ b" by blast
    then have "has_prefix t (r # s) \<or> (\<exists>a b. s = a @ t @ b)" unfolding has_prefix_iff by (cases a) auto
    then show "contains_str (r # s) t" using Cons by simp
  qed
qed simp

fun index_rune :: "rune \<Rightarrow> gostr \<Rightarrow> nat option" where
  "index_rune c [] = None"
| "index_rune c (r # s) = (if r = c then Some 0 else map_option Suc (index_rune c s))"

definition last_index :: "rune \<Rightarrow> gostr \<Rightarrow> nat option" where
  "last_index c s = map_option (\<lambda>i. length s - 1 - i) (index_rune c (rev s))"

definition SplitHostPort :: "gostr \<Rightarrow> (gostr \<times> gostr) option" where
  \<comment> \<open>\<open>None\<close> is any of its address errors\<close>
  "SplitHostPort hostport =
     (case last_index 58 hostport of
        None \<Rightarrow> None
      | Some i \<Rightarrow>
          if take 1 hostport = [91] then
            (case index_rune 93 hostport of
               None \<Rightarrow> None
             | Some e \<Rightarrow>
                 if e + 1 \<noteq> i then None
                 else if 91 \<in> set (drop 1 hostport) \<or> 93 \<in> set (drop (e + 1) hostport) then None
                 else Some (take (e - 1) (drop 1 hostport), drop (i + 1) hostport))
          else if 58 \<in> set (take i hostport) then None
          else if 91 \<in> set hostport \<or> 93 \<in> set hostport then None
          else Some (take i hostport, drop (i + 1) hostport))"

definition ascii_lower :: "gostr \<Rightarrow> gostr" where
  "ascii_lower s = map (\<lambda>r. if 65 \<le> r \<and> r \<le> 90 then r + 32 else r) s"

definition trim_ascii :: "gostr \<Rightarrow> gostr" where
  \<comment> \<open>\<open>textproto.TrimString\<close>\<close>
  "trim_ascii s = (let sp = (\<lambda>r. r = 32 \<or> r = 9 \<or> r = 10 \<or> r = 13) in trim_right sp (dropWhile sp s))"

section \<open>Patterns of chi\<close>

definition path_param :: "gostr \<Rightarrow> gostr \<Rightarrow> gostr option" where
  \<comment> \<open>the last segment of a pattern that ends in a parameter: not empty and without a slash\<close>
  "path_param prefix path = (if take (length prefix) path = prefix then
     let rest = drop (length prefix) path in if rest \<noteq> [] \<and> 47 \<notin> set rest then Some rest else None
   else None)"

end
