(* ===== verification/PkgAuth.thy ===== *)
theory PkgAuth
  imports GoTime GoStrings
begin

text \<open>
  pkg/auth: the tokens (jwt.go), the middleware that gates a route (middleware.go) and the
  rule for signing secrets (secret.go). The JWT library is the argument \<open>lib\<close>: what
  \<open>SignedString\<close> and \<open>ParseWithClaims\<close> return, the latter given the key function of
  the caller and the time. \<open>jwt_ok\<close> is what the library documents about them.
\<close>

section \<open>Secrets\<close>

type_synonym secret = "nat list"

definition MinSecretLength :: nat where "MinSecretLength = 32"

definition ValidateSecret :: "secret \<Rightarrow> bool" where
  "ValidateSecret secret \<longleftrightarrow> \<not> length secret < MinSecretLength"

section \<open>Tokens\<close>

record claims =
  c_type :: gostr
  c_id :: gostr
  c_subject :: gostr
  c_issued :: "instant option"
  c_expires :: "instant option"

datatype jwt_alg = HMAC | OtherAlg

record jwt_lib =
  jl_sign :: "secret \<Rightarrow> claims \<Rightarrow> gostr option"
  jl_parse :: "(jwt_alg \<Rightarrow> secret option) \<Rightarrow> instant \<Rightarrow> gostr \<Rightarrow> (claims \<times> bool) option"
  jl_numeric :: "instant \<Rightarrow> instant"

definition TokenTypeAccess :: gostr where "TokenTypeAccess = lit ''access''"
definition TokenTypeRefresh :: gostr where "TokenTypeRefresh = lit ''refresh''"

lemma token_types: "TokenTypeAccess \<noteq> TokenTypeRefresh" "TokenTypeRefresh \<noteq> TokenTypeAccess"
  by (simp_all add: TokenTypeAccess_def TokenTypeRefresh_def lit_def)

definition GenerateToken :: "jwt_lib \<Rightarrow> gostr \<Rightarrow> instant \<Rightarrow> secret \<Rightarrow> gostr \<Rightarrow> gostr \<Rightarrow> int \<Rightarrow> gostr option" where
  \<comment> \<open>\<open>jti\<close> is what \<open>uuid.NewString\<close> returns and \<open>now\<close> what \<open>time.Now\<close> does\<close>
  "GenerateToken lib jti now secret user token_type ttl =
     jl_sign lib secret
       \<lparr>c_type = token_type, c_id = jti, c_subject = user,
        c_issued = Some (jl_numeric lib now), c_expires = Some (jl_numeric lib (now + ttl))\<rparr>"

definition hmac_key :: "secret \<Rightarrow> jwt_alg \<Rightarrow> secret option" where
  "hmac_key secret alg = (case alg of HMAC \<Rightarrow> Some secret | OtherAlg \<Rightarrow> None)"

definition ValidateToken :: "jwt_lib \<Rightarrow> instant \<Rightarrow> secret \<Rightarrow> gostr \<Rightarrow> claims option" where
  \<comment> \<open>\<open>None\<close> is ErrInvalidToken\<close>
  "ValidateToken lib now secret token =
     (case jl_parse lib (hmac_key secret) now token of
        None \<Rightarrow> None
      | Some (c, valid) \<Rightarrow> if valid then Some c else None)"

section \<open>The middleware\<close>

definition writeUnauthorized :: "'b reply" where
  "writeUnauthorized = ErrorReply 401 ''invalid_token'' (lit ''invalid or expired token'')"

definition authenticate :: "jwt_lib \<Rightarrow> instant \<Rightarrow> secret \<Rightarrow> gostr \<Rightarrow> gostr option" where
  \<comment> \<open>the subject \<open>RequireAuth\<close> puts on the context; a missing header is the empty text\<close>
  "authenticate lib now secret header =
     (case cut_prefix (lit ''Bearer '') header of
        None \<Rightarrow> None
      | Some token \<Rightarrow>
          if token = [] then None
          else (case ValidateToken lib now secret token of
              None \<Rightarrow> None
            | Some c \<Rightarrow> if c_type c \<noteq> TokenTypeAccess then None else Some (c_subject c)))"

definition RequireAuth :: "jwt_lib \<Rightarrow> instant \<Rightarrow> secret \<Rightarrow> gostr \<Rightarrow> 'b \<Rightarrow> (gostr \<Rightarrow> 'b) \<Rightarrow> 'b" where
  \<comment> \<open>\<open>refused\<close> is what \<open>writeUnauthorized\<close> makes of the request, \<open>next\<close> what the wrapped
    handler does with the subject on its context\<close>
  "RequireAuth lib now secret header refused next =
     (case authenticate lib now secret header of
        None \<Rightarrow> refused
      | Some subject \<Rightarrow> next subject)"

section \<open>What the library documents\<close>

definition jwt_ok :: "jwt_lib \<Rightarrow> bool" where
  \<comment> \<open>a token parses only under a key its key function accepts and before it expires; what it
    says does not depend on when it is read; and a signed token reads back before it expires\<close>
  "jwt_ok lib \<longleftrightarrow>
     (\<forall>kf now t c v. jl_parse lib kf now t = Some (c, v) \<longrightarrow>
        (\<exists>alg k. kf alg = Some k) \<and> (\<forall>e. c_expires c = Some e \<longrightarrow> now < e))
   \<and> (\<forall>kf now now' t c v c' v'. jl_parse lib kf now t = Some (c, v) \<longrightarrow> jl_parse lib kf now' t = Some (c', v') \<longrightarrow> c = c')
   \<and> (\<forall>k c t kf now. jl_sign lib k c = Some t \<longrightarrow> kf HMAC = Some k \<longrightarrow>
        (\<forall>e. c_expires c = Some e \<longrightarrow> now < e) \<longrightarrow> jl_parse lib kf now t = Some (c, True))"

lemma authenticate_Some:
  "authenticate lib now secret header = Some subject \<longleftrightarrow>
    (\<exists>token c. token \<noteq> [] \<and> header = lit ''Bearer '' @ token \<and> ValidateToken lib now secret token = Some c
       \<and> c_type c = TokenTypeAccess \<and> c_subject c = subject)"
proof (cases "cut_prefix (lit ''Bearer '') header")
  case None
  then have "header \<noteq> lit ''Bearer '' @ token" for token by (metis cut_prefix_Some option.distinct(1))
  then show ?thesis using None by (simp add: authenticate_def)
next
  case (Some token)
  then have "header = lit ''Bearer '' @ t \<longleftrightarrow> t = token" for t by (auto simp: cut_prefix_Some)
  then show ?thesis using Some by (auto simp: authenticate_def split: option.splits if_splits)
qed

lemma ValidateToken_Some:
  assumes "jwt_ok lib" "ValidateToken lib now secret t = Some c"
  shows "(\<forall>e. c_expires c = Some e \<longrightarrow> now < e)
    \<and> (\<forall>now' c'. ValidateToken lib now' secret t = Some c' \<longrightarrow> c' = c)"
proof -
  have parsed: "jl_parse lib (hmac_key secret) n t = Some (d, True)" if "ValidateToken lib n secret t = Some d" for n d
    using that by (auto simp: ValidateToken_def split: option.splits if_splits)
  note laws = assms(1) [unfolded jwt_ok_def]
  have "\<forall>e. c_expires c = Some e \<longrightarrow> now < e"
    using laws [THEN conjunct1, rule_format, OF parsed [OF assms(2)]] by blast
  moreover have "c' = c" if "ValidateToken lib now' secret t = Some c'" for now' c'
    using laws [THEN conjunct2, THEN conjunct1, rule_format, OF parsed [OF that] parsed [OF assms(2)]] .
  ultimately show ?thesis by blast
qed

lemma ValidateToken_signed:
  assumes "jwt_ok lib" "GenerateToken lib jti iat secret user ty ttl = Some t" "now < jl_numeric lib (iat + ttl)"
  shows "ValidateToken lib now secret t =
    Some \<lparr>c_type = ty, c_id = jti, c_subject = user, c_issued = Some (jl_numeric lib iat), c_expires = Some (jl_numeric lib (iat + ttl))\<rparr>"
proof -
  let ?c = "\<lparr>c_type = ty, c_id = jti, c_subject = user, c_issued = Some (jl_numeric lib iat), c_expires = Some (jl_numeric lib (iat + ttl))\<rparr>"
  note sign_law = assms(1) [unfolded jwt_ok_def, THEN conjunct2, THEN conjunct2, rule_format]
  have "jl_parse lib (hmac_key secret) now t = Some (?c, True)"
    by (rule sign_law [of secret]) (use assms(2,3) in \<open>simp_all add: GenerateToken_def hmac_key_def\<close>)
  then show ?thesis by (simp add: ValidateToken_def)
qed

text \<open>A library with one token, to show that the documented behaviour can hold.\<close>

definition one_token :: "secret \<Rightarrow> claims \<Rightarrow> jwt_lib" where
  "one_token k c =
     \<lparr>jl_sign = (\<lambda>k' c'. if k' = k \<and> c' = c then Some [7] else None),
      jl_parse = (\<lambda>kf now t. if t = [7] \<and> kf HMAC = Some k \<and> (case c_expires c of None \<Rightarrow> True | Some e \<Rightarrow> now < e)
         then Some (c, True) else None),
      jl_numeric = id\<rparr>"

lemma one_token_ok: "jwt_ok (one_token k c)"
  unfolding jwt_ok_def one_token_def by (auto split: if_splits option.splits)

lemma one_token_valid: "(\<And>e. c_expires c = Some e \<Longrightarrow> now < e) \<Longrightarrow> ValidateToken (one_token k c) now k [7] = Some c"
  by (auto simp: ValidateToken_def one_token_def hmac_key_def split: option.splits)

end
