(* ===== verification/TradingHandler.thy ===== *)
theory TradingHandler
  imports TradingServiceFacts GoJSON GoStrconv PkgAuth
begin

text \<open>
  internal/handler of services/trading-engine: the five endpoints (trading.go), the mapping
  of service errors to statuses, and the routing table with its authentication (router.go).
  \<open>parse_uuid\<close> is \<open>uuid.Parse\<close>; a body is \<open>None\<close> when it is over the size limit or is
  not JSON; the replies of routes the table does not name are chi's and have no model.
\<close>

section \<open>The request\<close>

definition decode_order :: "json \<Rightarrow> place_order_request option" where
  "decode_order j =
     (case (dec_field (lit ''symbol'') dec_string [] j, dec_field (lit ''side'') dec_string [] j,
            dec_field (lit ''quantity'') dec_float 0 j) of
        (Some symb, Some side, Some q) \<Rightarrow> Some \<lparr>rq_symbol = symb, rq_side = side, rq_quantity = q\<rparr>
      | _ \<Rightarrow> None)"

definition userID :: "(gostr \<Rightarrow> uuid option) \<Rightarrow> gostr option \<Rightarrow> uuid option" where
  "userID parse_uuid subject =
     (case subject of None \<Rightarrow> None
      | Some raw \<Rightarrow> parse_uuid raw)"

section \<open>Errors\<close>

definition writeServiceError :: "trading_err \<Rightarrow> 'b reply" where
  "writeServiceError e = (case e of
     ErrInvalidOrder \<Rightarrow> ErrorReply 400 ''invalid_request'' (lit ''symbol, side (buy or sell) and a quantity of at least 0.0001 are required'')
   | ErrInsufficientBalance \<Rightarrow> ErrorReply 400 ''insufficient_balance'' (lit ''account balance does not cover this order'')
   | ErrInsufficientPosition \<Rightarrow> ErrorReply 400 ''insufficient_position'' (lit ''cannot sell more than the position holds'')
   | ErrSymbolUnavailable \<Rightarrow> ErrorReply 404 ''symbol_unavailable'' (lit ''no price is available for that symbol'')
   | ErrUpstreamUnavailable \<Rightarrow> ErrorReply 502 ''upstream_unavailable'' (lit ''market data is unavailable; the order was not filled'')
   | ErrAccountNotFound \<Rightarrow> ErrorReply 500 ''internal_error'' (lit ''something went wrong'')
   | ErrInfra \<Rightarrow> ErrorReply 500 ''internal_error'' (lit ''something went wrong''))"

fun answer_result :: "int \<Rightarrow> trading_err + 'b \<Rightarrow> 'b reply" where
  "answer_result ok_status (Inl e) = writeServiceError e"
| "answer_result ok_status (Inr v) = Reply ok_status v"

section \<open>The endpoints\<close>

record ('s, 'c) trading_api =
  ta_upper :: "rune \<Rightarrow> rune"
  ta_store :: "'s trading_store"
  ta_prices :: price_client
  ta_inval :: "'c invalidator"
  ta_uuid :: "gostr \<Rightarrow> uuid option"

definition handle_PlaceOrder :: "('s, 'c) trading_api \<Rightarrow> gostr option \<Rightarrow> json option \<Rightarrow> 's \<Rightarrow> 'c
    \<Rightarrow> place_order_result reply \<times> 's \<times> 'c" where
  "handle_PlaceOrder api subject body s c =
     (case userID (ta_uuid api) subject of
        None \<Rightarrow> (writeUnauthorized, s, c)
      | Some user \<Rightarrow>
          (case Option.bind body decode_order of
             None \<Rightarrow> (ErrorReply 400 ''invalid_request'' (lit ''malformed JSON body''), s, c)
           | Some req \<Rightarrow>
               (case PlaceOrder (ta_upper api) (ta_store api) (ta_prices api) (ta_inval api) user req s c of
                  (r, s', c') \<Rightarrow> (answer_result 201 r, s', c'))))"

definition handle_ListOrders :: "('s, 'c) trading_api \<Rightarrow> gostr option \<Rightarrow> 's \<Rightarrow> order list reply" where
  "handle_ListOrders api subject s =
     (case userID (ta_uuid api) subject of
        None \<Rightarrow> writeUnauthorized
      | Some user \<Rightarrow> answer_result 200 (Orders (ta_store api) user s))"

definition handle_ListTrades :: "('s, 'c) trading_api \<Rightarrow> gostr option \<Rightarrow> gostr \<Rightarrow> 's \<Rightarrow> trade list reply" where
  \<comment> \<open>the error of \<open>Atoi\<close> is dropped; a missing parameter is the empty text\<close>
  "handle_ListTrades api subject limit s =
     (case userID (ta_uuid api) subject of
        None \<Rightarrow> writeUnauthorized
      | Some user \<Rightarrow> answer_result 200 (Trades (ta_store api) user (fst (Atoi limit)) s))"

definition handle_ListPositions :: "('s, 'c) trading_api \<Rightarrow> gostr option \<Rightarrow> 's \<Rightarrow> position list reply" where
  "handle_ListPositions api subject s =
     (case userID (ta_uuid api) subject of
        None \<Rightarrow> writeUnauthorized
      | Some user \<Rightarrow> answer_result 200 (Positions (ta_store api) (ta_prices api) user s))"

definition handle_Portfolio :: "('s, 'c) trading_api \<Rightarrow> gostr option \<Rightarrow> 's \<Rightarrow> portfolio_response reply" where
  "handle_Portfolio api subject s =
     (case userID (ta_uuid api) subject of
        None \<Rightarrow> writeUnauthorized
      | Some user \<Rightarrow> answer_result 200 (Portfolio (ta_store api) (ta_prices api) user s))"

section \<open>The routing table\<close>

record http_request =
  hr_method :: gostr
  hr_path :: gostr
  hr_auth :: gostr
  hr_limit :: gostr
  hr_body :: "json option"

datatype trading_answer = Healthy | OrderReply "place_order_result reply" | OrdersReply "order list reply"
  | TradesReply "trade list reply" | PositionsReply "position list reply" | PortfolioReply "portfolio_response reply"
  | RefusedReply "unit reply" | Unrouted

definition trading_endpoint :: "('s, 'c) trading_api \<Rightarrow> http_request \<Rightarrow> gostr option \<Rightarrow> 's \<Rightarrow> 'c \<Rightarrow> trading_answer \<times> 's \<times> 'c" where
  \<comment> \<open>the sub-router under /trading\<close>
  "trading_endpoint api r subject s c =
     (if hr_path r = lit ''/trading/orders'' \<and> hr_method r = lit ''POST'' then
        (case handle_PlaceOrder api subject (hr_body r) s c of (a, s', c') \<Rightarrow> (OrderReply a, s', c'))
      else if hr_method r \<noteq> lit ''GET'' then (Unrouted, s, c)
      else if hr_path r = lit ''/trading/orders'' then (OrdersReply (handle_ListOrders api subject s), s, c)
      else if hr_path r = lit ''/trading/trades'' then (TradesReply (handle_ListTrades api subject (hr_limit r) s), s, c)
      else if hr_path r = lit ''/trading/positions'' then (PositionsReply (handle_ListPositions api subject s), s, c)
      else if hr_path r = lit ''/trading/portfolio'' then (PortfolioReply (handle_Portfolio api subject s), s, c)
      else (Unrouted, s, c))"

definition NewRouter :: "jwt_lib \<Rightarrow> instant \<Rightarrow> secret \<Rightarrow> ('s, 'c) trading_api \<Rightarrow> http_request \<Rightarrow> 's \<Rightarrow> 'c
    \<Rightarrow> trading_answer \<times> 's \<times> 'c" where
  "NewRouter lib now secret api r s c =
     (if hr_method r = lit ''GET'' \<and> hr_path r = lit ''/healthz'' then (Healthy, s, c)
      else if cut_prefix (lit ''/trading/'') (hr_path r) = None then (Unrouted, s, c)
      else RequireAuth lib now secret (hr_auth r) (RefusedReply writeUnauthorized, s, c)
        (\<lambda>subject. trading_endpoint api r (Some subject) s c))"

section \<open>What a request can change\<close>

lemma NewRouter_changes:
  assumes "NewRouter lib now secret api r s c = (a, s', c')" and "(s', c') \<noteq> (s, c) \<or> a \<noteq> Healthy \<and> a \<noteq> RefusedReply writeUnauthorized \<and> a \<noteq> Unrouted"
  obtains subject where "authenticate lib now secret (hr_auth r) = Some subject"
    "trading_endpoint api r (Some subject) s c = (a, s', c')"
  using assms by (auto simp: NewRouter_def RequireAuth_def split: if_splits option.splits)

lemma trading_endpoint_changes:
  assumes "trading_endpoint api r subject s c = (a, s', c')" and "(s', c') \<noteq> (s, c)"
  obtains user req res where "userID (ta_uuid api) subject = Some user"
    "PlaceOrder (ta_upper api) (ta_store api) (ta_prices api) (ta_inval api) user req s c = (res, s', c')"
    "hr_method r = lit ''POST''" "hr_path r = lit ''/trading/orders''" "a = OrderReply (answer_result 201 res)"
  using assms
  by (auto simp: trading_endpoint_def handle_PlaceOrder_def split: if_splits option.splits prod.splits)

end
