(* ===== verification/TradingProps.thy ===== *)
theory TradingProps
  imports TradingServiceFacts
begin

text \<open>
  The properties of the trading engine, each with a run on a small concrete store: one
  account with a cash balance of 100 and a working database.
\<close>

definition demo_pg :: pg where
  "demo_pg = \<lparr>pg_fails = (\<lambda>_. False), pg_commit = CommitOk, pg_numeric = numeric_20_4,
     pg_uuid = (\<lambda>n. n + 100), pg_now = 7\<rparr>"

definition demo_db :: tdb where
  "demo_db = \<lparr>accounts = [\<lparr>r_id = 1, r_user = 9, r_balance = FNum 100\<rparr>], positions = [],
     orders = [], trades = [], rows = 0\<rparr>"

definition demo_buy :: execute_order_params where
  "demo_buy = \<lparr>x_account = 1, x_symbol = [65], x_side = SideBuy, x_quantity = FNum 2, x_price = FNum 3\<rparr>"

definition demo_order :: order where
  "demo_order = \<lparr>o_id = 100, o_symbol = [65], o_side = SideBuy, o_quantity = FNum 2,
     o_status = StatusFilled, o_type = OrderTypeMarket, o_filled_price = Some (FNum 3),
     o_rejection_reason = None, o_created_at = 7\<rparr>"

definition demo_trade :: trade where
  "demo_trade = \<lparr>t_id = 101, t_order_id = 100, t_symbol = [65], t_side = SideBuy, t_quantity = FNum 2,
     t_price = FNum 3, t_realized_pl = None, t_executed_at = 7\<rparr>"

definition demo_db' :: tdb where
  "demo_db' = \<lparr>accounts = [\<lparr>r_id = 1, r_user = 9, r_balance = FNum 94\<rparr>],
     positions = [((1, [65]), (FNum 2, FNum 3))], orders = [(1, demo_order)], trades = [(1, demo_trade)], rows = 2\<rparr>"

lemmas demo_defs = demo_pg_def demo_db_def demo_buy_def demo_order_def demo_trade_def demo_db'_def

lemma numeric_of_int:
  assumes "\<bar>n\<bar> \<le> 10 ^ 15" "0 < n"
  shows "numeric_20_4 (FNum (of_int n)) = Some (FNum (of_int n))"
proof -
  have "\<lfloor>(of_int n :: rat) * 10000 + 1/2\<rfloor> = n * 10000" unfolding floor_eq_iff by simp
  moreover have "fl False (of_int n) = FNum (of_int n)"
    using assms rnd_of_int [of n] le_less_trans [of "\<bar>of_int n :: rat\<bar>" "of_int (10 ^ 15)" "2 ^ 1024"]
    by (intro fl_eqI) (simp_all only: of_int_abs [symmetric] of_int_le_iff, simp_all)
  ultimately show ?thesis using assms by (simp add: Let_def)
qed

lemma demo_numeric:
  "numeric_20_4 (FNum 2) = Some (FNum 2)" "numeric_20_4 (FNum 3) = Some (FNum 3)"
  "numeric_20_4 (FNum 94) = Some (FNum 94)" "numeric_20_4 (FNum 6) = Some (FNum 6)"
  using numeric_of_int [of 2] numeric_of_int [of 3] numeric_of_int [of 94] numeric_of_int [of 6] by simp_all

lemma demo_avg: "WeightedAvgCost 0 0 (FNum 2) (FNum 3) = FNum 3"
  by (simp add: WeightedAvgCost_def feq_def fcalc Let_def)

lemma demo_fills:
  "ExecuteOrder demo_pg demo_buy demo_db
     = (Inr \<lparr>pr_order = demo_order, pr_trade = demo_trade, pr_balance = FNum 94\<rparr>, demo_db')"
proof -
  have arith: "FNum 3 * FNum 2 = FNum 6" "\<not> FNum 6 > FNum 100" "FNum 100 - FNum 6 = FNum 94"
    "0 + FNum 2 = FNum 2"
    by (simp_all add: fcalc)
  show ?thesis
    by (simp add: ExecuteOrder_def executeBuy_def finish_tx_def insertOrder_def insertTrade_def
        currentPosition_def upsertPosition_def updateBalance_def balance_of_def demo_defs Let_def
        arith demo_numeric demo_avg side_lits del: numeric_20_4.simps)
qed

section \<open>Executing an order\<close>

text \<open>C2. A filled order is exactly one step of the abstract ledger: the buyer or seller's
  balance and the one holding become what \<open>fill_spec\<close> says, every other balance and holding
  is untouched, and the history grows by one filled order and one trade that agree with it.\<close>

theorem execute_order_refines_ledger:
  assumes "ExecuteOrder env p db = (Inr res, db')"
  shows "\<exists>b q' c'. balance_of db (x_account p) = Some b
    \<and> fill_spec (pg_numeric env) p b (position_of db (x_account p) (x_symbol p)) = Some (pr_balance res, q', c')
    \<and> balance_of db' = (balance_of db)(x_account p \<mapsto> pr_balance res)
    \<and> (\<forall>a symb. position_of db' a symb
         = (if a = x_account p \<and> symb = x_symbol p then (q', c') else position_of db a symb))
    \<and> orders db' = orders db @ [(x_account p, pr_order res)]
    \<and> trades db' = trades db @ [(x_account p, pr_trade res)]
    \<and> filled_row env p (pr_order res) (pr_trade res)"
proof -
  have st: "fill_step env p db (pr_order res) (pr_trade res) (pr_balance res) db'"
    using ExecuteOrder_outcome [OF assms] by simp
  have rows: "orders db' = orders db @ [(x_account p, pr_order res)]"
    "trades db' = trades db @ [(x_account p, pr_trade res)]" "filled_row env p (pr_order res) (pr_trade res)"
    using st by (auto simp: fill_step_def)
  show ?thesis by (rule fill_step_ledger [OF st]) (use rows in blast)
qed

theorem execute_order_refines_ledger_witness:
  "\<exists>b q' c'. balance_of demo_db 1 = Some b
    \<and> fill_spec numeric_20_4 demo_buy b (position_of demo_db 1 [65]) = Some (FNum 94, q', c')
    \<and> balance_of demo_db' = (balance_of demo_db)(1 \<mapsto> FNum 94)"
  using execute_order_refines_ledger [OF demo_fills]
  by (auto simp: demo_buy_def demo_pg_def simp del: numeric_20_4.simps)

text \<open>C23. Executing an order ends in one of the outcomes the store documents: a fill; a
  rejection for balance or holding, which is decided on the locked values and leaves nothing
  behind but its audit row; an unknown account or side, which writes nothing; or an
  infrastructure error, which leaves the tables as they were unless the commit took effect
  without its answer arriving.\<close>

theorem execute_order_atomic:
  assumes "ExecuteOrder env p db = (r, db')"
  shows "case r of
      Inr res \<Rightarrow> fill_step env p db (pr_order res) (pr_trade res) (pr_balance res) db'
    | Inl e \<Rightarrow>
       (case e of
          ErrInsufficientBalance \<Rightarrow> x_side p = SideBuy \<and> reject_step env p ''insufficient_balance'' db db'
            \<and> (\<exists>b. balance_of db (x_account p) = Some b \<and> x_price p * x_quantity p > b)
        | ErrInsufficientPosition \<Rightarrow> x_side p = SideSell \<and> reject_step env p ''insufficient_position'' db db'
            \<and> x_quantity p > fst (position_of db (x_account p) (x_symbol p))
        | ErrInfra \<Rightarrow> db' = db \<or> lost_commit env p db db'
        | ErrAccountNotFound \<Rightarrow> balance_of db (x_account p) = None \<and> db' = db
        | ErrInvalidOrder \<Rightarrow> x_side p \<noteq> SideBuy \<and> x_side p \<noteq> SideSell \<and> db' = db
        | _ \<Rightarrow> False)"
  using ExecuteOrder_outcome [OF assms]
  by (cases "(env, p, db, r, db')" rule: exec_outcome.cases) auto

theorem execute_order_atomic_witness:
  "fill_step demo_pg demo_buy demo_db demo_order demo_trade (FNum 94) demo_db'"
  using execute_order_atomic [OF demo_fills] by simp

text \<open>C1. Whatever orders are executed, rejections recorded and accounts opened, in any order
  and with any statement or commit failing, no balance, holding or cost basis ever becomes
  negative or stops being a number, and the trade log is the log of the filled orders, one
  for one.\<close>

theorem reachable_store_solvent:
  assumes "reachable_store num db" and "num_ok num"
  shows "solvent db \<and> log_matched db \<and> distinct (map fst (positions db))"
  using reachable_store_inv [OF assms] by (simp add: store_inv_def)

lemma demo_open: "reachable_store numeric_20_4
    (empty_store\<lparr>accounts := accounts empty_store @ [\<lparr>r_id = 1, r_user = 9, r_balance = StartingBalance\<rparr>]\<rparr>)"
  by (intro reachable_store.step [OF reachable_store.start] store_step.open_account)
    (simp add: empty_store_def balance_of_def)

theorem reachable_store_solvent_witness:
  "solvent (empty_store\<lparr>accounts := accounts empty_store @ [\<lparr>r_id = 1, r_user = 9, r_balance = StartingBalance\<rparr>]\<rparr>)"
  using reachable_store_solvent [OF demo_open num_ok_numeric_20_4] by simp

text \<open>C36. With a working database an order fills whenever the ledger's contract allows it
  and its audit columns can be stored: an order within the balance or the holding is never
  refused.\<close>

theorem execute_order_fills:
  assumes "\<forall>st. \<not> pg_fails env st" and "pg_commit env = CommitOk"
    and "balance_of db (x_account p) = Some b"
    and "fill_spec (pg_numeric env) p b (position_of db (x_account p) (x_symbol p)) = Some (b', q', c')"
    and "pg_numeric env (x_quantity p) \<noteq> None" and "pg_numeric env (x_price p) \<noteq> None"
    and "pg_numeric env (RealizedPL (snd (position_of db (x_account p) (x_symbol p))) (x_price p) (x_quantity p)) \<noteq> None"
  shows "\<exists>res db'. ExecuteOrder env p db = (Inr res, db') \<and> pr_balance res = b'"
proof -
  obtain q c where qc: "position_of db (x_account p) (x_symbol p) = (q, c)" by fastforce
  obtain n1 n2 n3 where n: "pg_numeric env (x_quantity p) = Some n1" "pg_numeric env (x_price p) = Some n2"
    "pg_numeric env (RealizedPL c (x_price p) (x_quantity p)) = Some n3"
    using assms(5-7) qc by auto
  have cp: "currentPosition env (x_account p) (x_symbol p) d = Inr (position_of d (x_account p) (x_symbol p))" for d
    using assms(1) by (auto simp: currentPosition_def position_of_def split: option.splits)
  have bal: "balance_of (d\<lparr>positions := ps\<rparr>) (x_account p) = balance_of d (x_account p)" for d ps
    by simp
  consider "x_side p = SideBuy" | "x_side p = SideSell" "x_side p \<noteq> SideBuy"
    using assms(4) qc by (auto simp: fill_spec_def Let_def split: if_splits)
  then show ?thesis
  proof cases
    case 1
    then show ?thesis using assms(1-4) qc n
      by (auto simp: ExecuteOrder_def executeBuy_def finish_tx_def insertOrder_def insertTrade_def cp
          upsertPosition_def updateBalance_def fill_spec_def Let_def split: if_splits option.splits)
  next
    case 2
    then show ?thesis using assms(1-4) qc n
      by (auto simp: ExecuteOrder_def executeSell_def finish_tx_def insertOrder_def insertTrade_def cp
          upsertPosition_def updateBalance_def fill_spec_def Let_def split: if_splits option.splits)
  qed
qed

theorem execute_order_fills_witness:
  "\<exists>res db'. ExecuteOrder demo_pg demo_buy demo_db = (Inr res, db') \<and> pr_balance res = FNum 94"
proof (rule execute_order_fills [where b = "FNum 100" and q' = "FNum 2" and c' = "FNum 3"])
  have arith: "FNum 3 * FNum 2 = FNum 6" "\<not> FNum 6 > FNum 100" "FNum 100 - FNum 6 = FNum 94"
    "0 + FNum 2 = FNum 2" by (simp_all add: fcalc)
  show "fill_spec (pg_numeric demo_pg) demo_buy (FNum 100)
      (position_of demo_db (x_account demo_buy) (x_symbol demo_buy)) = Some (FNum 94, FNum 2, FNum 3)"
    by (simp add: fill_spec_def demo_defs position_of_def Let_def arith demo_numeric demo_avg
        del: numeric_20_4.simps)
  show "pg_numeric demo_pg (RealizedPL (snd (position_of demo_db (x_account demo_buy) (x_symbol demo_buy)))
      (x_price demo_buy) (x_quantity demo_buy)) \<noteq> None"
    by (simp add: RealizedPL_def demo_defs position_of_def fcalc demo_numeric Let_def del: numeric_20_4.simps)
qed (simp_all add: demo_defs balance_of_def demo_numeric del: numeric_20_4.simps)


section \<open>Placing an order\<close>

definition demo_request :: place_order_request where
  "demo_request = \<lparr>rq_symbol = [65], rq_side = SideBuy, rq_quantity = FNum 2\<rparr>"

lemma demo_validates:
  "validateOrder id \<lparr>rq_symbol = [32, 97], rq_side = SideBuy, rq_quantity = FNum 2\<rparr> = Inr demo_request"
proof -
  have q: "minQuantity \<le> FNum 2" "\<not> FNum 2 > maxQuantity" "\<not> is_inf (FNum 2)"
    unfolding minQuantity_val quantity_consts by (simp_all add: less_eq_f64_def less_f64_def is_inf_def)
  have "fround (FNum 20000) = FNum 20000"
    using rha_of_int [of 20000] by (simp add: rha_def Let_def)
  then have r: "fround (FNum 2 * quantityScale) / quantityScale = FNum 2"
    unfolding quantity_consts by (simp add: fcalc del: fround.simps)
  have u: "to_upper id (trim_space [32, 97]) = [65]"
    by (simp add: to_upper_def upper_rune_def trim_space_def trim_right_def is_space_def)
  show ?thesis
    unfolding validateOrder_def Let_def using q r u
    by (simp add: demo_request_def maxSymbolLength_def rune_len_def)
qed

text \<open>C35. An accepted order has a trimmed, upper-cased symbol of 1 to 16 bytes, a known side, and
  as its quantity the float of a whole number of ten-thousandths, at least one and at most 10^13:
  the quantity charged for is a tick the NUMERIC(20,4) ledger stores, and it is never zero.\<close>

theorem validate_order_ticks:
  assumes "validateOrder uc req0 = Inr req"
  shows "rq_symbol req = to_upper uc (trim_space (rq_symbol req0)) \<and> rq_symbol req \<noteq> []
    \<and> byte_len (rq_symbol req) \<le> 16 \<and> (rq_side req = SideBuy \<or> rq_side req = SideSell)
    \<and> minQuantity \<le> rq_quantity req0 \<and> rq_quantity req0 \<le> maxQuantity
    \<and> 0 < rq_quantity req
    \<and> (\<exists>n. 1 \<le> n \<and> n \<le> 10 ^ 13 \<and> rq_quantity req = flit (of_int n / 10000))"
proof -
  obtain n where n: "1 \<le> n" "n \<le> 10 ^ 13" "rq_quantity req = flit (of_int n / 10000)"
    using validateOrder_tick [OF assms] by blast
  have "0 < rq_quantity req" using tick_nonneg_fin [OF n(1,2)] n(3) by simp
  then show ?thesis using validateOrder_InrD(1-7) [OF assms] n by (intro conjI exI [of _ n]) assumption+
qed

theorem validate_order_ticks_witness:
  "\<exists>n. 1 \<le> n \<and> n \<le> 10 ^ 13 \<and> rq_quantity demo_request = flit (of_int n / 10000)"
  using validate_order_ticks [OF demo_validates] by blast

text \<open>C19. The write path fails closed: when market-data gives no price for the symbol, the order
  is refused, no balance, holding or trade changes, and the cached report stays.\<close>

theorem place_order_fails_closed:
  assumes "PlaceOrder uc (postgres_store env) prices inval user req db c = (r, db', c')"
    and "prices (to_upper uc (trim_space (rq_symbol req))) = Inl e"
  shows "(\<exists>e'. r = Inl e') \<and> ledger_of db' = ledger_of db \<and> c' = c"
  using pg.no_price_no_fill [OF assms] by (cases r) auto

theorem place_order_fails_closed_witness:
  "ledger_of (fst (snd (PlaceOrder id (postgres_store (\<lambda>_. demo_pg)) (\<lambda>_. Inl ErrUpstreamUnavailable)
     noopInvalidator 9 demo_request demo_db ()))) = ledger_of demo_db"
proof -
  obtain r db' c' where R: "PlaceOrder id (postgres_store (\<lambda>_. demo_pg)) (\<lambda>_. Inl ErrUpstreamUnavailable)
     noopInvalidator 9 demo_request demo_db () = (r, db', c')" by (metis prod_cases3)
  show ?thesis using place_order_fails_closed [OF R] R by simp
qed

text \<open>Every order that is refused for a reason of its own (invalid, unknown account, no price,
  not enough cash or shares) leaves all balances, holdings and trades as they were, and the
  cached report too.\<close>

theorem place_order_rejection_keeps_ledger:
  assumes "PlaceOrder uc (postgres_store env) prices inval user req db c = (Inl e, db', c')"
    and "e \<noteq> ErrInfra"
  shows "ledger_of db' = ledger_of db \<and> c' = c"
  using assms by (rule pg.rejected_untouched)

lemma demo_bad_side: "PlaceOrder id (postgres_store (\<lambda>_. demo_pg)) (\<lambda>_. Inr 1) noopInvalidator 9
    (demo_request\<lparr>rq_side := [120]\<rparr>) demo_db () = (Inl ErrInvalidOrder, demo_db, ())"
  by (simp add: PlaceOrder_def validateOrder_def demo_request_def side_lits Let_def)

theorem place_order_rejection_keeps_ledger_witness:
  "ledger_of demo_db = ledger_of demo_db \<and> ErrInvalidOrder \<noteq> ErrInfra"
  using place_order_rejection_keeps_ledger [OF demo_bad_side] by simp

text \<open>C10. End to end, with prices that come through the market-data client and NUMERIC columns that
  behave as documented, placing an order keeps the store solvent and its trade log matched,
  whatever the request, the price answers and the database failures are.\<close>

theorem place_order_keeps_store_inv:
  assumes "PlaceOrder uc (postgres_store env) (\<lambda>symb. LatestPrice (answers symb)) inval user req db c = (r, db', c')"
    and "num_ok (pg_numeric (env CallExecute))" and "store_inv db"
  shows "store_inv db'"
proof -
  have "store_inv_under env db'"
    using pgi.PlaceOrder_inv [OF assms(1)] assms(3) LatestPrice_usable
    by (auto simp: store_inv_under_def nonneg_fin_def f64_less_imp_le)
  then show ?thesis using assms(2) by (simp add: store_inv_under_def)
qed

theorem place_order_keeps_store_inv_witness:
  "store_inv (fst (snd (PlaceOrder id (postgres_store (\<lambda>_. demo_pg)) (\<lambda>_. LatestPrice (Answer 200 (Some (FNum 3))))
     noopInvalidator 9 demo_request empty_store ())))"
proof -
  obtain r db' c' where R: "PlaceOrder id (postgres_store (\<lambda>_. demo_pg)) (\<lambda>_. LatestPrice (Answer 200 (Some (FNum 3))))
     noopInvalidator 9 demo_request empty_store () = (r, db', c')" by (metis prod_cases3)
  show ?thesis
    using place_order_keeps_store_inv [OF R] R num_ok_numeric_20_4 store_inv_empty by (simp add: demo_pg_def)
qed

text \<open>A fill drops the caller's cached report before the order returns, when the cache
  answers; a cache that fails neither fails the order nor touches any entry; and the entries of
  other users are never touched.\<close>

theorem fill_invalidates_report:
  assumes "PlaceOrder uc ops prices (redis_invalidate uuid_str down) user req s cache = (Inr res, s', cache')"
    and "inj uuid_str"
  shows "cache' (Insights uuid_str user) = (if down then cache (Insights uuid_str user) else None)
    \<and> (\<forall>other. other \<noteq> user \<longrightarrow> cache' (Insights uuid_str other) = cache (Insights uuid_str other))"
  using assms
  by (auto simp: PlaceOrder_def invalidateInsights_def redis_invalidate_def Insights_def inj_eq
      split: sum.splits prod.splits)

lemma demo_placed_at:
  assumes "prices [65] = Inr (FNum 3)"
  shows "PlaceOrder id (postgres_store (\<lambda>_. demo_pg)) prices (redis_invalidate (\<lambda>u. [u]) False) 9
      \<lparr>rq_symbol = [32, 97], rq_side = SideBuy, rq_quantity = FNum 2\<rparr> demo_db c
    = (Inr \<lparr>pr_order = demo_order, pr_trade = demo_trade, pr_balance = FNum 94\<rparr>, demo_db',
       c(Insights (\<lambda>u. [u]) 9 := None))"
  using demo_fills assms by (simp add: PlaceOrder_def demo_validates demo_request_def postgres_store_def
      AccountForUser_def invalidateInsights_def redis_invalidate_def demo_pg_def demo_db_def demo_buy_def)

lemmas demo_placed = demo_placed_at [of "\<lambda>_. Inr (FNum 3)", simplified]

theorem fill_invalidates_report_witness:
  "((\<lambda>_. Some True)(Insights (\<lambda>u. [u]) 9 := None)) (Insights (\<lambda>u. [u]) 8) = Some True"
proof -
  have "inj (\<lambda>u::uuid. [u])" by (simp add: inj_def)
  from fill_invalidates_report [OF demo_placed [of "\<lambda>_. Some True"] this] show ?thesis by simp
qed

section \<open>Reading\<close>

text \<open>The positions endpoint does not depend on the order in which the concurrent price
  lookups finish: every schedule in which each goroutine runs once gives the holdings in their
  own order, each with its own price or, when its lookup failed, unpriced.\<close>

theorem pricing_schedule_independent:
  assumes "distinct sched" and "set sched = {..<length hs}"
  shows "price_sched prices hs sched = price prices hs
    \<and> price prices hs = map (\<lambda>h. case prices (h_symbol h) of
         Inl _ \<Rightarrow> unpriced h
       | Inr latest \<Rightarrow> (unpriced h)\<lparr>p_latest_price := Some latest,
           p_unrealized_pl := (latest - h_avg_cost h) * h_quantity h\<rparr>) hs"
  using price_sched_perm [OF assms] by (simp add: price_eq priced_def)

theorem pricing_schedule_independent_witness:
  "price_sched (\<lambda>_. Inr 1) [\<lparr>h_symbol = [65], h_quantity = 1, h_avg_cost = 1\<rparr>, \<lparr>h_symbol = [66], h_quantity = 1, h_avg_cost = 1\<rparr>] [1, 0]
   = price (\<lambda>_. Inr 1) [\<lparr>h_symbol = [65], h_quantity = 1, h_avg_cost = 1\<rparr>, \<lparr>h_symbol = [66], h_quantity = 1, h_avg_cost = 1\<rparr>]"
  by (rule pricing_schedule_independent [THEN conjunct1]) auto

text \<open>The trade log endpoint returns a complete prefix of the account's executions in time
  order, never more than the cap: the requested limit when it is between 1 and 10000, 1000 when
  it is not positive, 10000 above.\<close>

theorem trades_are_a_bounded_prefix:
  assumes "Trades (postgres_store env) user limit db = Inr ts"
  shows "\<exists>acct all. AccountForUser (env CallAccount) user db = Inr acct
    \<and> sorted (map t_executed_at all)
    \<and> mset all = mset (map snd (filter (\<lambda>r. fst r = ac_id acct) (trades db)))
    \<and> ts = take (nat (normalizeTradeLimit limit)) all
    \<and> 1 \<le> normalizeTradeLimit limit \<and> normalizeTradeLimit limit \<le> 10000
    \<and> (1 \<le> limit \<and> limit \<le> 10000 \<longrightarrow> normalizeTradeLimit limit = limit)"
proof -
  from assms obtain acct where a: "AccountForUser (env CallAccount) user db = Inr acct"
    and l: "ListTrades (env CallTrades) (ac_id acct) (nat (normalizeTradeLimit limit)) db = Inr ts"
    by (auto simp: Trades_def postgres_store_def sum_bind_eq_Inr)
  let ?rows = "map snd (filter (\<lambda>r. fst r = ac_id acct) (trades db))"
  let ?all = "sort_key t_executed_at (sort_key (\<lambda>t1. int (t_id t1)) ?rows)"
  have "ts = take (nat (normalizeTradeLimit limit)) ?all"
    using l by (auto simp: ListTrades_def split: if_splits)
  moreover have "mset ?all = mset ?rows" by simp
  moreover have "sorted (map t_executed_at ?all)" by simp
  ultimately show ?thesis using a
    by (intro exI [of _ acct] exI [of _ ?all])
      (auto simp: normalizeTradeLimit_def DefaultTradeLimit_def MaxTradeLimit_def)
qed

theorem trades_are_a_bounded_prefix_witness:
  "\<exists>acct. AccountForUser demo_pg 9 demo_db' = Inr acct"
proof -
  have "Trades (postgres_store (\<lambda>_. demo_pg)) 9 0 demo_db' = Inr [demo_trade]"
    by (simp add: Trades_def postgres_store_def AccountForUser_def ListTrades_def demo_defs
        normalizeTradeLimit_def DefaultTradeLimit_def)
  from trades_are_a_bounded_prefix [OF this] show ?thesis by blast
qed

section \<open>A rounding of the cost basis\<close>

text \<open>money.go says that a buy into an emptied position must come out at exactly the fill price.
  In \<open>float64\<close> it need not: at 7.00 for 0.3 shares the weighted average of an empty
  position is not 7 but its neighbour. The NUMERIC(20,4) column rounds it back.\<close>

lemma flit_three_tenths: "flit (3 / 10) = FNum (5404319552844595 / 2 ^ 54)"
proof -
  have "rnd (3 / 10) = of_int 5404319552844595 * 2 powi (- 54)"
    by (rule rnd_eqI) (simp_all add: power_int_def field_simps)
  then show ?thesis unfolding flit_def by (intro fl_eqI) (simp_all add: power_int_def power_divide)
qed

lemma cost_basis_of_empty_position_inexact:
  "WeightedAvgCost 0 0 (flit (3 / 10)) (FNum 7) \<noteq> FNum 7"
proof -
  let ?t = "5404319552844595 / 2 ^ 54 :: rat" and ?p = "4728779608739021 / 2 ^ 51 :: rat"
  have "rnd ?t = of_int 5404319552844595 * 2 powi (- 54)"
    by (rule rnd_eqI) (simp_all add: power_int_def field_simps)
  then have t: "fl s ?t = FNum ?t" for s by (intro fl_eqI) (simp_all add: power_int_def power_divide)
  have "rnd (7 * ?t) = of_int 4728779608739021 * 2 powi (- 51)"
    by (rule rnd_eqI) (simp_all add: power_int_def field_simps)
  then have p: "fl s (7 * ?t) = FNum ?p" for s
    by (intro fl_eqI) (simp_all add: power_int_def power_divide)
  have "rnd ?p = of_int 4728779608739021 * 2 powi (- 51)"
    by (rule rnd_eqI) (simp_all add: power_int_def field_simps)
  then have p': "fl s ?p = FNum ?p" for s by (intro fl_eqI) (simp_all add: power_int_def power_divide)
  have "rnd (?p / ?t) = of_int 7881299347898369 * 2 powi (- 50)"
    by (rule rnd_eqI) (simp_all add: power_int_def field_simps)
  then have q: "fl s (?p / ?t) = FNum (7881299347898369 / 2 ^ 50)" for s
    by (intro fl_eqI) (simp_all add: power_int_def power_divide)
  have ops: "0 + FNum ?t = FNum ?t" "0 * 0 = (0::f64)" "FNum 7 * FNum ?t = FNum ?p" "0 + FNum ?p = FNum ?p"
    "\<not> feq (FNum ?t) 0"
    using t p p' by (simp_all add: plus_f64_def times_f64_def zero_f64_def feq_def less_eq_f64_def fl_int)
  have "FNum ?p / FNum ?t = FNum (7881299347898369 / 2 ^ 50)"
    using q by (simp add: divide_f64_def)
  then show ?thesis unfolding WeightedAvgCost_def flit_three_tenths Let_def ops by (simp add: ops(5) zero_f64_def)
qed

end
