(* ===== verification/TradingHandlerProps.thy ===== *)
theory TradingHandlerProps
  imports TradingHandler TradingProps
begin

text \<open>
  The trading engine behind its router: who can change what.
\<close>

definition only_account :: "uuid \<Rightarrow> tdb \<Rightarrow> tdb \<Rightarrow> bool" where
  \<comment> \<open>the tables changed at most in rows of account \<open>a\<close>, and the logs only grew\<close>
  "only_account a db db' \<longleftrightarrow>
     (\<forall>b. b \<noteq> a \<longrightarrow> balance_of db' b = balance_of db b \<and> position_of db' b = position_of db b)
   \<and> (\<exists>os. orders db' = orders db @ os \<and> fst ` set os \<subseteq> {a})
   \<and> (\<exists>ts. trades db' = trades db @ ts \<and> fst ` set ts \<subseteq> {a})"

lemma only_account_refl [simp]: "only_account a db db"
  by (auto simp: only_account_def)

lemma only_account_reject: "reject_step env p reason db db' \<Longrightarrow> only_account (x_account p) db db'"
  by (auto simp: only_account_def reject_step_def)

lemma only_account_fill:
  assumes "fill_step env p db o1 t1 nb db'" shows "only_account (x_account p) db db'"
proof -
  from fill_step_ledger [OF assms] obtain q' c' where l: "balance_of db' = (balance_of db)(x_account p \<mapsto> nb)"
      "\<And>a symb. position_of db' a symb = (if a = x_account p \<and> symb = x_symbol p then (q', c') else position_of db a symb)"
    by metis
  have logs: "orders db' = orders db @ [(x_account p, o1)]" "trades db' = trades db @ [(x_account p, t1)]"
    using assms by (auto simp: fill_step_def)
  have "position_of db' b = position_of db b" if "b \<noteq> x_account p" for b using l(2) that by (simp add: fun_eq_iff)
  then show ?thesis by (simp add: only_account_def l(1) logs)
qed

lemma ExecuteOrder_only: "ExecuteOrder env p db = (r, db') \<Longrightarrow> only_account (x_account p) db db'"
  using ExecuteOrder_outcome [of env p db r db'] only_account_reject only_account_fill
  by (cases "(env, p, db, r, db')" rule: exec_outcome.cases) (auto simp: lost_commit_def)

lemma RecordRejectedOrder_only: "RecordRejectedOrder env a symb side q reason db = (r, db') \<Longrightarrow> only_account a db db'"
  using RecordRejectedOrder_cases [of env a symb side q reason db r db'] only_account_reject by auto

lemma PlaceOrder_only:
  assumes "PlaceOrder uc (postgres_store env) prices inval user req db c = (r, db', c')"
  shows "db' = db \<or> (\<exists>row\<in>set (accounts db). r_user row = user \<and> only_account (r_id row) db db')"
proof (cases "AccountForUser (env CallAccount) user db")
  case (Inl e)
  then show ?thesis using assms by (auto simp: PlaceOrder_def postgres_store_def split: sum.splits)
next
  case (Inr acct)
  then obtain row where row: "find (\<lambda>r. r_user r = user) (accounts db) = Some row" "ac_id acct = r_id row"
    by (auto simp: AccountForUser_def split: if_splits option.splits)
  then have "row \<in> set (accounts db)" "r_user row = user" by (auto simp: find_Some_iff)
  moreover have "only_account (r_id row) db db'"
    using assms Inr row(2) RecordRejectedOrder_only [OF prod.collapse [symmetric]] ExecuteOrder_only
    by (fastforce simp: PlaceOrder_def postgres_store_def recordRejection_def split: sum.splits prod.splits)
  ultimately show ?thesis by blast
qed

text \<open>C22. A request changes the trading tables only when it is an order posted with a valid,
  unexpired access token, and then only in the one account of the user the token names: every
  other balance and holding stays, and no other account's log grows.\<close>

theorem trading_acts_for_its_subject:
  assumes "NewRouter lib now secret api r db c = (answer, db', c')" and "ta_store api = postgres_store env"
    and "db' \<noteq> db" and "jwt_ok lib"
  shows "\<exists>token cl user row. hr_auth r = lit ''Bearer '' @ token \<and> ValidateToken lib now secret token = Some cl
    \<and> c_type cl = TokenTypeAccess \<and> (\<forall>e. c_expires cl = Some e \<longrightarrow> now < e)
    \<and> ta_uuid api (c_subject cl) = Some user \<and> hr_method r = lit ''POST'' \<and> hr_path r = lit ''/trading/orders''
    \<and> row \<in> set (accounts db) \<and> r_user row = user \<and> only_account (r_id row) db db'"
proof -
  from assms(3) have ch: "(db', c') \<noteq> (db, c)" by simp
  then obtain subject where s: "authenticate lib now secret (hr_auth r) = Some subject"
      "trading_endpoint api r (Some subject) db c = (answer, db', c')"
    using NewRouter_changes [OF assms(1)] by blast
  from trading_endpoint_changes [OF s(2) ch] obtain user req res where u: "userID (ta_uuid api) (Some subject) = Some user"
      "PlaceOrder (ta_upper api) (postgres_store env) (ta_prices api) (ta_inval api) user req db c = (res, db', c')"
      "hr_method r = lit ''POST''" "hr_path r = lit ''/trading/orders''"
    using assms(2) by metis
  from s(1) obtain token cl where t: "hr_auth r = lit ''Bearer '' @ token" "ValidateToken lib now secret token = Some cl"
      "c_type cl = TokenTypeAccess" "c_subject cl = subject"
    by (auto simp: authenticate_Some)
  from PlaceOrder_only [OF u(2)] assms(3) obtain row where "row \<in> set (accounts db)" "r_user row = user"
      "only_account (r_id row) db db'" by blast
  moreover have "ta_uuid api (c_subject cl) = Some user" using t(4) u(1) by (simp add: userID_def)
  moreover note ValidateToken_Some [OF assms(4) t(2), THEN conjunct1] t(1-3) u(3,4)
  ultimately show ?thesis by blast
qed

definition demo_claims :: claims where
  "demo_claims = \<lparr>c_type = TokenTypeAccess, c_id = [1], c_subject = [9], c_issued = Some 0, c_expires = Some 50\<rparr>"

definition demo_api :: "(tdb, gostr \<Rightarrow> bool option) trading_api" where
  "demo_api = \<lparr>ta_upper = id, ta_store = postgres_store (\<lambda>_. demo_pg), ta_prices = (\<lambda>_. Inr (FNum 3)),
     ta_inval = redis_invalidate (\<lambda>u. [u]) False, ta_uuid = (\<lambda>s. if s = [9] then Some 9 else None)\<rparr>"

definition demo_post :: http_request where
  "demo_post = \<lparr>hr_method = lit ''POST'', hr_path = lit ''/trading/orders'', hr_auth = lit ''Bearer '' @ [7], hr_limit = [],
     hr_body = Some (JObj [(lit ''symbol'', JStr [32, 97]), (lit ''side'', JStr SideBuy), (lit ''quantity'', JNum False 2 0 True)])\<rparr>"

lemma demo_decodes: "decode_order (JObj [(lit ''symbol'', JStr [32, 97]), (lit ''side'', JStr SideBuy), (lit ''quantity'', JNum False 2 0 True)])
    = Some \<lparr>rq_symbol = [32, 97], rq_side = SideBuy, rq_quantity = FNum 2\<rparr>"
proof -
  have "num_value False 2 0 = FNum 2" by (simp add: num_value_def fcalc)
  then show ?thesis
    by (simp add: decode_order_def dec_field_def dec_member_def names_field_def fold_rune_def lit_def dec_string_def dec_float_def is_inf_def)
qed

lemma demo_routed: "NewRouter (one_token [2] demo_claims) 20 [2] demo_api demo_post demo_db (\<lambda>_. Some True) =
    (OrderReply (Reply 201 \<lparr>pr_order = demo_order, pr_trade = demo_trade, pr_balance = FNum 94\<rparr>), demo_db',
     (\<lambda>_. Some True)(Insights (\<lambda>u. [u]) 9 := None))"
proof -
  have "ValidateToken (one_token [2] demo_claims) 20 [2] [7] = Some demo_claims"
    by (rule one_token_valid) (simp add: demo_claims_def)
  then have a: "authenticate (one_token [2] demo_claims) 20 [2] (lit ''Bearer '' @ [7]) = Some [9]"
    by (auto simp: authenticate_Some demo_claims_def)
  have p: "cut_prefix (lit ''/trading/'') (lit ''/trading/orders'') = Some (lit ''orders'')"
    "lit ''POST'' \<noteq> lit ''GET''"
    by (simp_all add: cut_prefix_Some lit_def)
  show ?thesis using demo_placed [of "\<lambda>_. Some True"]
    by (simp add: NewRouter_def demo_post_def RequireAuth_def a p trading_endpoint_def handle_PlaceOrder_def
        userID_def demo_api_def demo_decodes)
qed

theorem trading_acts_for_its_subject_witness:
  "\<exists>row. row \<in> set (accounts demo_db) \<and> r_user row = 9 \<and> only_account (r_id row) demo_db demo_db'"
proof -
  have "demo_db' \<noteq> demo_db" by (simp add: demo_defs)
  from trading_acts_for_its_subject [OF demo_routed _ this one_token_ok, of "\<lambda>_. demo_pg"] show ?thesis
    by (auto simp: demo_api_def split: if_splits)
qed

end
