(* ===== verification/PortfolioMath.thy ===== *)
theory PortfolioMath
  imports F64Facts
begin

text \<open>
  Package \<open>pkg/portfoliomath\<close>: the statistics of an equity curve shared by the backtesting
  engine and the insights service. Loops over a slice are folds from the left, so every
  rounding happens in the order of the source.
\<close>

definition TradingDaysPerYear :: f64 where "TradingDaysPerYear = FNum 252"

fun DailyReturns :: "f64 list \<Rightarrow> f64 list" where
  "DailyReturns (prev # cur # rest) =
     (if feq prev 0 then DailyReturns (cur # rest)
      else (cur - prev) / prev # DailyReturns (cur # rest))"
| "DailyReturns equity = []"

definition Mean :: "f64 list \<Rightarrow> f64" where
  "Mean xs = foldl (+) 0 xs / fint (int (length xs))"

definition StdevPopulation :: "f64 list \<Rightarrow> f64 \<Rightarrow> f64" where
  "StdevPopulation xs mean =
     fsqrt (foldl (\<lambda>sumSq x. let d = x - mean in sumSq + d * d) 0 xs / fint (int (length xs)))"

definition Sharpe :: "f64 list \<Rightarrow> f64" where
  "Sharpe equity = (let returns = DailyReturns equity in
     if returns = [] then 0
     else let mean = Mean returns; stdev = StdevPopulation returns mean in
       if feq stdev 0 then 0 else mean / stdev * fsqrt TradingDaysPerYear)"

definition drawdown_step :: "f64 \<times> f64 \<Rightarrow> f64 \<Rightarrow> f64 \<times> f64" where
  "drawdown_step = (\<lambda>(peak, maxDD) v.
     let peak' = (if v > peak then v else peak) in
     if peak' \<le> 0 then (peak', maxDD)
     else let dd = (peak' - v) / peak' * FNum 100 in (peak', if dd > maxDD then dd else maxDD))"

definition MaxDrawdownPct :: "f64 list \<Rightarrow> f64" where
  "MaxDrawdownPct equity = (if equity = [] then 0
     else snd (foldl drawdown_step (hd equity, 0) equity))"

end
