(* ===== verification/BacktestModel.thy ===== *)
theory BacktestModel
  imports GoTime GoJSON PortfolioMath
begin

text \<open>
  internal/service/types.go and errors.go of services/backtesting: the data of a backtest.
  A strategy's parameter record is the struct its constructor validates; the encoded form
  the struct carries beside it is always \<open>json.Marshal\<close> of the same values, so it is a
  function of the record (\<open>Params\<close>) and not a second field.
\<close>

record bar =
  Timestamp :: instant
  Open :: f64
  High :: f64
  Low :: f64
  Close :: f64
  Volume :: int

datatype side = SideBuy | SideSell

datatype signal = SignalNone | SignalBuy | SignalSell

type_synonym strategy_kind = gostr

definition StrategyMACrossover :: strategy_kind where "StrategyMACrossover = lit ''ma_crossover''"
definition StrategyRSI :: strategy_kind where "StrategyRSI = lit ''rsi''"
definition StrategyMACD :: strategy_kind where "StrategyMACD = lit ''macd''"

record ma_params =
  ShortWindow :: int
  LongWindow :: int

record rsi_params =
  Period :: int
  Oversold :: f64
  Overbought :: f64

record macd_params =
  FastPeriod :: int
  SlowPeriod :: int
  SignalPeriod :: int

datatype strategy = MACrossover ma_params | RSI rsi_params | MACD macd_params

record strategy_params =
  sp_symbols :: "gostr list"
  sp_strategy :: strategy
  sp_start :: instant
  sp_end :: instant
  sp_capital :: f64

record trade_record =
  tr_symbol :: gostr
  tr_side :: side
  tr_time :: instant
  tr_price :: f64
  tr_quantity :: f64
  tr_realized_pl :: "f64 option"

record simulation_result =
  Trades :: "trade_record list"
  EquityCurve :: "f64 list"
  FinalEquity :: f64

record metrics =
  TotalReturnPct :: f64
  SharpeRatio :: f64
  MaxDrawdown :: f64
  WinRatePct :: f64
  ProfitFactor :: "f64 option"

record backtest =
  b_id :: uuid
  b_user :: uuid
  b_symbols :: "gostr list"
  b_strategy :: strategy_kind
  b_params :: json
  b_start :: instant
  b_end :: instant
  b_capital :: f64
  b_final_equity :: f64
  b_metrics :: metrics
  b_created_at :: instant

record backtest_detail =
  d_backtest :: backtest
  d_trades :: "trade_record list"

text \<open>\<open>rq_params\<close> is the undecoded \<open>json.RawMessage\<close>; \<open>None\<close> when the body has no such member.\<close>

record run_backtest_request =
  rq_symbols :: "gostr list"
  rq_strategy :: strategy_kind
  rq_params :: "json option"
  rq_start_date :: gostr
  rq_end_date :: gostr
  rq_starting_capital :: f64

text \<open>\<open>ErrStore\<close> is any error of the database.\<close>

datatype backtest_err = ErrInvalidRequest | ErrSymbolUnavailable | ErrDateRangeUnavailable
  | ErrUpstreamUnavailable | ErrNotFound | ErrStore

end
