(* ===== verification/Strategy.thy ===== *)
theory Strategy
  imports BacktestModel
begin

text \<open>
  internal/service/indicators.go and strategy.go of services/backtesting: the indicators,
  the three strategies and \<open>NewStrategy\<close>, which decodes and validates a request's
  parameters. A period that reached an indicator is a validated positive Go \<open>int\<close>; where
  an index or a length is computed from it, \<open>nat\<close> reads it. \<open>wrap64\<close> marks the additions
  that could overflow an \<open>int\<close>.
\<close>

section \<open>Indicators\<close>

fun ema_run :: "f64 \<Rightarrow> f64 \<Rightarrow> f64 list \<Rightarrow> f64 list" where
  \<comment> \<open>the smoothing loop, from the seed\<close>
  "ema_run alpha prev [] = [prev]"
| "ema_run alpha prev (v # vs) = prev # ema_run alpha (v * alpha + prev * (1 - alpha)) vs"

definition ema :: "f64 list \<Rightarrow> int \<Rightarrow> f64 list" where
  "ema values period =
     (if period \<le> 0 \<or> period > int (length values) then replicate (length values) 0
      else let p = nat period;
               seed = foldl (+) 0 (take p values) / fint period;
               alpha = FNum 2 / fint (wrap64 (period + 1))
           in replicate (p - 1) 0 @ ema_run alpha seed (drop p values))"

definition rsiFromAverages :: "f64 \<Rightarrow> f64 \<Rightarrow> f64" where
  "rsiFromAverages avgGain avgLoss =
     (if feq avgGain 0 \<and> feq avgLoss 0 then FNum 50
      else if feq avgLoss 0 then FNum 100
      else if feq avgGain 0 then 0
      else let rs = avgGain / avgLoss in FNum 100 - FNum 100 / (1 + rs))"

fun deltas :: "f64 list \<Rightarrow> f64 list" where
  "deltas (a # b # rest) = (b - a) # deltas (b # rest)"
| "deltas _ = []"

definition gain_loss :: "f64 \<times> f64 \<Rightarrow> f64 \<Rightarrow> f64 \<times> f64" where
  "gain_loss = (\<lambda>(gainSum, lossSum) delta.
     if delta > 0 then (gainSum + delta, lossSum) else (gainSum, lossSum + - delta))"

definition wilder_step :: "int \<Rightarrow> f64 \<times> f64 \<Rightarrow> f64 \<Rightarrow> f64 \<times> f64" where
  "wilder_step period = (\<lambda>(avgGain, avgLoss) delta.
     let (gain, loss) = (if delta > 0 then (delta, 0) else (0, - delta))
     in ((avgGain * fint (period - 1) + gain) / fint period,
         (avgLoss * fint (period - 1) + loss) / fint period))"

fun rsi_run :: "int \<Rightarrow> f64 \<times> f64 \<Rightarrow> f64 list \<Rightarrow> f64 list" where
  "rsi_run period avg [] = [rsiFromAverages (fst avg) (snd avg)]"
| "rsi_run period avg (d # ds) =
     rsiFromAverages (fst avg) (snd avg) # rsi_run period (wilder_step period avg d) ds"

definition wilderRSI :: "f64 list \<Rightarrow> int \<Rightarrow> f64 list" where
  "wilderRSI closes period =
     (if period \<le> 0 \<or> period \<ge> int (length closes) then replicate (length closes) 0
      else let p = nat period; ds = deltas closes;
               (gainSum, lossSum) = foldl gain_loss (0, 0) (take p ds)
           in replicate p 0 @ rsi_run period (gainSum / fint period, lossSum / fint period) (drop p ds))"

definition closesOf :: "bar list \<Rightarrow> f64 list" where
  "closesOf bars = map Close bars"

primrec running_sum :: "f64 list \<Rightarrow> nat \<Rightarrow> nat \<Rightarrow> f64" where
  \<comment> \<open>\<open>sum\<close> after \<open>i\<close> iterations\<close>
  "running_sum closes w 0 = 0"
| "running_sum closes w (Suc i) =
     (let sum = running_sum closes w i + closes ! i
      in if i \<ge> w then sum - closes ! (i - w) else sum)"

definition movingAverages :: "bar list \<Rightarrow> int \<Rightarrow> f64 list" where
  "movingAverages bars window = (let w = nat window in
     map (\<lambda>i. if i \<ge> w - 1 then running_sum (closesOf bars) w (Suc i) / fint window else 0) [0..<length bars])"

section \<open>Crossing signals\<close>

fun cross_run :: "bool option \<Rightarrow> (f64 \<times> f64) list \<Rightarrow> signal list" where
  \<comment> \<open>the state is \<open>wasAbove\<close>, \<open>None\<close> while \<open>haveState\<close> is false\<close>
  "cross_run st [] = []"
| "cross_run st ((fast, slow) # rest) =
     (let above = fast > slow in
      (case st of
         None \<Rightarrow> SignalNone
       | Some wasAbove \<Rightarrow> if above \<and> \<not> wasAbove then SignalBuy
                          else if \<not> above \<and> wasAbove then SignalSell else SignalNone)
      # cross_run (Some above) rest)"

definition crossoverSignals :: "f64 list \<Rightarrow> f64 list \<Rightarrow> nat \<Rightarrow> signal list" where
  "crossoverSignals fast slow start =
     replicate (min start (length fast)) SignalNone @ cross_run None (zip (drop start fast) (drop start slow))"

definition zone_exit :: "f64 \<Rightarrow> f64 \<Rightarrow> f64 \<Rightarrow> f64 \<Rightarrow> signal" where
  "zone_exit oversold overbought prev cur =
     (if prev \<le> oversold \<and> cur > oversold then SignalBuy
      else if prev \<ge> overbought \<and> cur < overbought then SignalSell else SignalNone)"

definition rsiZoneExitSignals :: "f64 list \<Rightarrow> f64 \<Rightarrow> f64 \<Rightarrow> nat \<Rightarrow> signal list" where
  "rsiZoneExitSignals rsi oversold overbought start =
     map (\<lambda>i. if i < start then SignalNone else zone_exit oversold overbought (rsi ! (i - 1)) (rsi ! i))
       [0..<length rsi]"

section \<open>The strategies\<close>

definition ma_warmup :: "ma_params \<Rightarrow> int" where
  "ma_warmup p = LongWindow p"

definition ma_signals :: "ma_params \<Rightarrow> bar list \<Rightarrow> signal list" where
  "ma_signals p bars =
     (if LongWindow p > int (length bars) then replicate (length bars) SignalNone
      else crossoverSignals (movingAverages bars (ShortWindow p)) (movingAverages bars (LongWindow p))
             (nat (LongWindow p - 1)))"

definition rsi_warmup :: "rsi_params \<Rightarrow> int" where
  "rsi_warmup p = wrap64 (Period p + 1)"

definition rsi_signals :: "rsi_params \<Rightarrow> bar list \<Rightarrow> signal list" where
  "rsi_signals p bars =
     (if rsi_warmup p > int (length bars) then replicate (length bars) SignalNone
      else rsiZoneExitSignals (wilderRSI (closesOf bars) (Period p)) (Oversold p) (Overbought p)
             (nat (Period p + 1)))"

definition macd_warmup :: "macd_params \<Rightarrow> int" where
  "macd_warmup p = wrap64 (wrap64 (SlowPeriod p + SignalPeriod p) - 1)"

definition macd_line :: "macd_params \<Rightarrow> bar list \<Rightarrow> f64 list" where
  "macd_line p bars = (let closes = closesOf bars; fastEMA = ema closes (FastPeriod p); slowEMA = ema closes (SlowPeriod p)
     in map (\<lambda>i. if i < nat (SlowPeriod p - 1) then 0 else fastEMA ! i - slowEMA ! i) [0..<length bars])"

definition macd_signals :: "macd_params \<Rightarrow> bar list \<Rightarrow> signal list" where
  "macd_signals p bars =
     (if macd_warmup p > int (length bars) then replicate (length bars) SignalNone
      else let k = nat (SlowPeriod p - 1);
               macdLine = macd_line p bars;
               signalLine = replicate k 0 @ ema (drop k macdLine) (SignalPeriod p)
           in crossoverSignals macdLine signalLine (nat (SlowPeriod p + SignalPeriod p - 2)))"

fun Kind :: "strategy \<Rightarrow> strategy_kind" where
  "Kind (MACrossover _) = StrategyMACrossover"
| "Kind (RSI _) = StrategyRSI"
| "Kind (MACD _) = StrategyMACD"

fun WarmupBars :: "strategy \<Rightarrow> int" where
  "WarmupBars (MACrossover p) = ma_warmup p"
| "WarmupBars (RSI p) = rsi_warmup p"
| "WarmupBars (MACD p) = macd_warmup p"

fun GenerateSignals :: "strategy \<Rightarrow> bar list \<Rightarrow> signal list" where
  "GenerateSignals (MACrossover p) = ma_signals p"
| "GenerateSignals (RSI p) = rsi_signals p"
| "GenerateSignals (MACD p) = macd_signals p"

section \<open>Construction\<close>

definition maxWarmupBars :: int where "maxWarmupBars = 500"
definition minShortWindow :: int where "minShortWindow = 2"

definition newMACrossover :: "int \<Rightarrow> int \<Rightarrow> backtest_err + strategy" where
  "newMACrossover shortWindow longWindow =
     (if shortWindow < minShortWindow then Inl ErrInvalidRequest
      else if longWindow \<le> shortWindow then Inl ErrInvalidRequest
      else Inr (MACrossover \<lparr>ShortWindow = shortWindow, LongWindow = longWindow\<rparr>))"

definition newRSIStrategy :: "int \<Rightarrow> f64 \<Rightarrow> f64 \<Rightarrow> backtest_err + strategy" where
  "newRSIStrategy period oversold overbought =
     (if period < 2 then Inl ErrInvalidRequest
      else if period > maxWarmupBars then Inl ErrInvalidRequest
      else if \<not> (oversold > 0 \<and> oversold < overbought \<and> overbought < FNum 100) then Inl ErrInvalidRequest
      else Inr (RSI \<lparr>Period = period, Oversold = oversold, Overbought = overbought\<rparr>))"

definition newMACDStrategy :: "int \<Rightarrow> int \<Rightarrow> int \<Rightarrow> backtest_err + strategy" where
  "newMACDStrategy fastPeriod slowPeriod signalPeriod =
     (if fastPeriod < 2 then Inl ErrInvalidRequest
      else if slowPeriod \<le> fastPeriod then Inl ErrInvalidRequest
      else if signalPeriod < 2 then Inl ErrInvalidRequest
      else if slowPeriod > maxWarmupBars then Inl ErrInvalidRequest
      else if signalPeriod > maxWarmupBars then Inl ErrInvalidRequest
      else Inr (MACD \<lparr>FastPeriod = fastPeriod, SlowPeriod = slowPeriod, SignalPeriod = signalPeriod\<rparr>))"

text \<open>Decoding of the three parameter structs, field by field.\<close>

definition dec_ma :: "json \<Rightarrow> (int \<times> int) option" where
  "dec_ma j = (case (dec_field (lit ''short_window'') dec_int 0 j, dec_field (lit ''long_window'') dec_int 0 j) of
     (Some s, Some l) \<Rightarrow> Some (s, l) | _ \<Rightarrow> None)"

definition dec_rsi :: "json \<Rightarrow> (int \<times> f64 \<times> f64) option" where
  "dec_rsi j = (case (dec_field (lit ''period'') dec_int 0 j, dec_field (lit ''oversold'') dec_float 0 j,
                      dec_field (lit ''overbought'') dec_float 0 j) of
     (Some p, Some l, Some h) \<Rightarrow> Some (p, l, h) | _ \<Rightarrow> None)"

definition dec_macd :: "json \<Rightarrow> (int \<times> int \<times> int) option" where
  "dec_macd j = (case (dec_field (lit ''fast_period'') dec_int 0 j, dec_field (lit ''slow_period'') dec_int 0 j,
                       dec_field (lit ''signal_period'') dec_int 0 j) of
     (Some f, Some s, Some g) \<Rightarrow> Some (f, s, g) | _ \<Rightarrow> None)"

definition newStrategyByKind :: "strategy_kind \<Rightarrow> json option \<Rightarrow> backtest_err + strategy" where
  \<comment> \<open>unmarshaling an absent \<open>params\<close> fails: no input is not a JSON value\<close>
  "newStrategyByKind kind raw =
     (if kind = StrategyMACrossover then
        (case Option.bind raw dec_ma of None \<Rightarrow> Inl ErrInvalidRequest
         | Some (s, l) \<Rightarrow> newMACrossover s l)
      else if kind = StrategyRSI then
        (case Option.bind raw dec_rsi of None \<Rightarrow> Inl ErrInvalidRequest
         | Some (p, l, h) \<Rightarrow> newRSIStrategy p l h)
      else if kind = StrategyMACD then
        (case Option.bind raw dec_macd of None \<Rightarrow> Inl ErrInvalidRequest
         | Some (f, s, g) \<Rightarrow> newMACDStrategy f s g)
      else Inl ErrInvalidRequest)"

definition NewStrategy :: "strategy_kind \<Rightarrow> json option \<Rightarrow> backtest_err + strategy" where
  "NewStrategy kind raw = sum_bind (newStrategyByKind kind raw) (\<lambda>strategy.
     if WarmupBars strategy > maxWarmupBars then Inl ErrInvalidRequest else Inr strategy)"

fun Params :: "strategy \<Rightarrow> json" where
  \<comment> \<open>\<open>json.Marshal\<close> of the parameter struct; the thresholds of a constructed strategy are finite\<close>
  "Params (MACrossover p) = JObj [(lit ''short_window'', enc_int (ShortWindow p)),
     (lit ''long_window'', enc_int (LongWindow p))]"
| "Params (RSI p) = JObj [(lit ''period'', enc_int (Period p)),
     (lit ''oversold'', case enc_float (Oversold p) of Some j \<Rightarrow> j | None \<Rightarrow> JNull),
     (lit ''overbought'', case enc_float (Overbought p) of Some j \<Rightarrow> j | None \<Rightarrow> JNull)]"
| "Params (MACD p) = JObj [(lit ''fast_period'', enc_int (FastPeriod p)),
     (lit ''slow_period'', enc_int (SlowPeriod p)), (lit ''signal_period'', enc_int (SignalPeriod p))]"

end
