(* ===== verification/Simulator.thy ===== *)
theory Simulator
  imports Strategy
begin

text \<open>
  internal/service/align.go, simulate\_portfolio.go and metrics.go of services/backtesting:
  the common timeline, the simulation of one shared pool of capital and the metrics.

  \<open>SimulatePortfolio\<close> indexes parallel slices; \<open>alignBars\<close> gives them their common
  length, and on slices of other shapes the Go code panics, which the model leaves open.
  The loops over symbols are folds over the indices \<open>0, 1, ...\<close> in that order.
\<close>

section \<open>The timeline\<close>

definition dayKey :: "instant \<Rightarrow> gostr" where
  "dayKey t = format_date t"

definition sliceRange :: "bar list \<Rightarrow> instant \<Rightarrow> instant \<Rightarrow> bar list" where
  "sliceRange bars start stop =
     filter (\<lambda>b. \<not> Timestamp b < start \<and> Timestamp b < AddDate stop 0 0 1) bars"

definition index_by_day :: "bar list \<Rightarrow> gostr \<rightharpoonup> bar" where
  \<comment> \<open>the map built by assigning each bar to its day, so the last bar of a day stays\<close>
  "index_by_day bars = foldl (\<lambda>m b. m(dayKey (Timestamp b) \<mapsto> b)) Map.empty bars"

fun day_matches :: "(gostr \<rightharpoonup> bar) list \<Rightarrow> gostr \<Rightarrow> bar list option" where
  \<comment> \<open>the bars of one day of the symbols after the first; \<open>None\<close> when one is missing\<close>
  "day_matches [] key = Some []"
| "day_matches (day # days) key = (case day key of None \<Rightarrow> None
     | Some b \<Rightarrow> map_option ((#) b) (day_matches days key))"

definition append_column :: "bar list list \<Rightarrow> bar list \<Rightarrow> bar list list" where
  "append_column aligned column = map2 (\<lambda>bs b. bs @ [b]) aligned column"

definition alignBars :: "(gostr \<times> bar list) list \<Rightarrow> instant \<Rightarrow> instant \<Rightarrow> gostr list \<times> bar list list" where
  \<comment> \<open>the map argument is the association list of its entries\<close>
  "alignBars bars start stop =
     (let symbols = sort (map fst bars) in
      if symbols = [] then (symbols, [])
      else let ranged = map (\<lambda>s. sliceRange (the (map_of bars s)) start stop) symbols;
               byDay = map index_by_day (tl ranged)
           in (symbols,
               foldl (\<lambda>aligned driver. case day_matches byDay (dayKey (Timestamp driver)) of
                   None \<Rightarrow> aligned
                 | Some others \<Rightarrow> append_column aligned (driver # others))
                 (map (\<lambda>_. []) symbols) (hd ranged)))"

section \<open>The simulation\<close>

record sim_state =
  cash :: f64
  quantity :: "f64 list"
  avgCost :: "f64 list"
  trades :: "trade_record list"

definition sim_sell :: "gostr list \<Rightarrow> bar list list \<Rightarrow> signal list list \<Rightarrow> nat \<Rightarrow> sim_state \<Rightarrow> nat \<Rightarrow> sim_state" where
  "sim_sell symbols bars signals i st s =
     (if signals ! s ! (i - 1) \<noteq> SignalSell \<or> feq (quantity st ! s) 0 then st
      else let bar = bars ! s ! i;
               pl = (Open bar - avgCost st ! s) * quantity st ! s
           in st\<lparr>cash := cash st + quantity st ! s * Open bar,
                 trades := trades st @ [\<lparr>tr_symbol = symbols ! s, tr_side = SideSell, tr_time = Timestamp bar,
                   tr_price = Open bar, tr_quantity = quantity st ! s, tr_realized_pl = Some pl\<rparr>],
                 quantity := (quantity st)[s := 0], avgCost := (avgCost st)[s := 0]\<rparr>)"

definition sim_buy :: "gostr list \<Rightarrow> bar list list \<Rightarrow> signal list list \<Rightarrow> nat \<Rightarrow> f64 \<Rightarrow> sim_state \<Rightarrow> nat \<Rightarrow> sim_state" where
  "sim_buy symbols bars signals i target st s =
     (if signals ! s ! (i - 1) \<noteq> SignalBuy \<or> \<not> feq (quantity st ! s) 0 then st
      else let spend = fmin (cash st) target in
        if spend \<le> 0 then st
        else let bar = bars ! s ! i; q = spend / Open bar in
          st\<lparr>quantity := (quantity st)[s := q], avgCost := (avgCost st)[s := Open bar],
             cash := cash st - spend,
             trades := trades st @ [\<lparr>tr_symbol = symbols ! s, tr_side = SideBuy, tr_time = Timestamp bar,
               tr_price = Open bar, tr_quantity = q, tr_realized_pl = None\<rparr>]\<rparr>)"

definition worth :: "(bar \<Rightarrow> f64) \<Rightarrow> nat \<Rightarrow> bar list list \<Rightarrow> nat \<Rightarrow> sim_state \<Rightarrow> f64" where
  \<comment> \<open>cash and holdings at one price of bar \<open>i\<close>\<close>
  "worth price n bars i st = foldl (\<lambda>total s. total + quantity st ! s * price (bars ! s ! i)) (cash st) [0..<n]"

definition sim_bar :: "gostr list \<Rightarrow> bar list list \<Rightarrow> signal list list \<Rightarrow> nat \<Rightarrow> sim_state \<Rightarrow> sim_state" where
  "sim_bar symbols bars signals i st =
     (if i = 0 then st
      else let n = length symbols;
               sold = foldl (sim_sell symbols bars signals i) st [0..<n];
               target = worth Open n bars i sold / fint (int n)
           in foldl (sim_buy symbols bars signals i target) sold [0..<n])"

definition sim_start :: "nat \<Rightarrow> f64 \<Rightarrow> sim_state" where
  "sim_start n capital = \<lparr>cash = capital, quantity = replicate n 0, avgCost = replicate n 0, trades = []\<rparr>"

definition sim_step :: "gostr list \<Rightarrow> bar list list \<Rightarrow> signal list list \<Rightarrow> sim_state \<times> f64 list \<Rightarrow> nat \<Rightarrow> sim_state \<times> f64 list" where
  "sim_step symbols bars signals = (\<lambda>(st, equity) i.
     let st' = sim_bar symbols bars signals i st
     in (st', equity @ [worth Close (length symbols) bars i st']))"

definition SimulatePortfolio :: "gostr list \<Rightarrow> bar list list \<Rightarrow> signal list list \<Rightarrow> f64 \<Rightarrow> simulation_result" where
  "SimulatePortfolio symbols bars signals startingCapital =
     (let n = length symbols;
          barCount = (if n > 0 then length (bars ! 0) else 0);
          (st, equity) = foldl (sim_step symbols bars signals) (sim_start n startingCapital, []) [0..<barCount]
      in \<lparr>Trades = trades st, EquityCurve = equity,
          FinalEquity = (if equity \<noteq> [] then last equity else startingCapital)\<rparr>)"

section \<open>Metrics\<close>

record tally =
  closed :: int
  wins :: int
  grossGain :: f64
  grossLoss :: f64

definition tally_trade :: "tally \<Rightarrow> trade_record \<Rightarrow> tally" where
  "tally_trade y t = (case tr_realized_pl t of
     None \<Rightarrow> y
   | Some pl \<Rightarrow>
       if tr_side t \<noteq> SideSell then y
       else let y = y\<lparr>closed := closed y + 1\<rparr> in
         if pl > 0 then y\<lparr>wins := wins y + 1, grossGain := grossGain y + pl\<rparr>
         else if pl < 0 then y\<lparr>grossLoss := grossLoss y + - pl\<rparr> else y)"

definition tradeStats :: "trade_record list \<Rightarrow> f64 \<times> f64 option" where
  "tradeStats ts =
     (let y = foldl tally_trade \<lparr>closed = 0, wins = 0, grossGain = 0, grossLoss = 0\<rparr> ts in
      if closed y = 0 then (0, None)
      else let winRatePct = fint (wins y) / fint (closed y) * FNum 100 in
        if feq (grossLoss y) 0 then (winRatePct, None) else (winRatePct, Some (grossGain y / grossLoss y)))"

definition ComputeMetrics :: "simulation_result \<Rightarrow> f64 \<Rightarrow> metrics" where
  "ComputeMetrics result startingCapital =
     (let totalReturnPct = (if startingCapital > 0
            then (FinalEquity result - startingCapital) / startingCapital * FNum 100 else 0);
          (winRatePct, profitFactor) = tradeStats (Trades result)
      in \<lparr>TotalReturnPct = totalReturnPct, SharpeRatio = Sharpe (EquityCurve result),
          MaxDrawdown = MaxDrawdownPct (EquityCurve result), WinRatePct = winRatePct,
          ProfitFactor = profitFactor\<rparr>)"

end
