(* ===== verification/BacktestService.thy ===== *)
theory BacktestService
  imports Simulator
begin

text \<open>
  internal/service/backtest.go, internal/client, internal/store and internal/handler of
  services/backtesting: validation, the fan-out that fetches histories, the run itself, its
  persistence and the HTTP layer.

  Outside the repository and therefore parameters: the Unicode tables (\<open>uc\<close>), what
  market-data answers for a symbol, and Postgres (\<open>bt_pg\<close>: failing statements, the outcome
  of the commit, what a NUMERIC(20,4), JSONB or TIMESTAMPTZ column gives back, fresh
  identifiers and the clock). A DATE column keeps the day of the instant written to it.
\<close>

section \<open>Validation\<close>

definition maxSymbols :: nat where "maxSymbols = 10"

fun normalize_loop :: "(rune \<Rightarrow> rune) \<Rightarrow> gostr list \<Rightarrow> gostr list \<Rightarrow> backtest_err + gostr list" where
  \<comment> \<open>\<open>out\<close> holds the same symbols as the map \<open>seen\<close>\<close>
  "normalize_loop uc out [] = Inr out"
| "normalize_loop uc out (s # rest) =
     (let symbol = to_upper uc (trim_space s) in
      if symbol = [] then Inl ErrInvalidRequest
      else if symbol \<in> set out then Inl ErrInvalidRequest
      else normalize_loop uc (out @ [symbol]) rest)"

definition normalizeSymbols :: "(rune \<Rightarrow> rune) \<Rightarrow> gostr list \<Rightarrow> backtest_err + gostr list" where
  "normalizeSymbols uc raw =
     (if length raw = 0 then Inl ErrInvalidRequest
      else if length raw > maxSymbols then Inl ErrInvalidRequest
      else sum_bind (normalize_loop uc [] raw) (\<lambda>out. Inr (sort out)))"

definition validateRequest :: "(rune \<Rightarrow> rune) \<Rightarrow> run_backtest_request \<Rightarrow> backtest_err + strategy_params" where
  "validateRequest uc req =
     sum_bind (normalizeSymbols uc (rq_symbols req)) (\<lambda>symbols.
     sum_bind (NewStrategy (rq_strategy req) (rq_params req)) (\<lambda>strategy.
     if rq_starting_capital req \<le> 0 then Inl ErrInvalidRequest
     else case parse_date (rq_start_date req) of None \<Rightarrow> Inl ErrInvalidRequest
     | Some start \<Rightarrow> case parse_date (rq_end_date req) of None \<Rightarrow> Inl ErrInvalidRequest
     | Some stop \<Rightarrow>
        if \<not> start < stop then Inl ErrInvalidRequest
        else Inr \<lparr>sp_symbols = symbols, sp_strategy = strategy, sp_start = start, sp_end = stop,
                  sp_capital = rq_starting_capital req\<rparr>))"

section \<open>Fetching the histories\<close>

type_synonym history_client = "gostr \<Rightarrow> backtest_err + bar list"

definition History :: "bar list http_exchange \<Rightarrow> backtest_err + bar list" where
  \<comment> \<open>\<open>MarketDataClient.History\<close> on one exchange\<close>
  "History ex = (case ex of
     ReqFailed \<Rightarrow> Inl ErrUpstreamUnavailable
   | NoAnswer \<Rightarrow> Inl ErrUpstreamUnavailable
   | Answer status body \<Rightarrow>
       if status \<noteq> 200 then Inl ErrUpstreamUnavailable
       else case body of
         None \<Rightarrow> Inl ErrUpstreamUnavailable
       | Some bars \<Rightarrow> if length bars = 0 then Inl ErrSymbolUnavailable else Inr bars)"

fun first_error :: "('e + 'a) option list \<Rightarrow> 'e option" where
  \<comment> \<open>the scan of \<open>errs\<close>\<close>
  "first_error [] = None"
| "first_error (Some (Inl e) # slots) = Some e"
| "first_error (_ # slots) = first_error slots"

fun slot_value :: "('e + 'a list) option \<Rightarrow> 'a list" where
  "slot_value (Some (Inr x)) = x"
| "slot_value _ = []"

definition fetchHistories :: "history_client \<Rightarrow> gostr list \<Rightarrow> nat list \<Rightarrow> backtest_err + (gostr \<times> bar list) list" where
  \<comment> \<open>\<open>sched\<close> is the order in which the goroutines finish\<close>
  "fetchHistories history symbols sched =
     (let slots = gather history symbols sched in
      case first_error slots of
        Some e \<Rightarrow> Inl e
      | None \<Rightarrow> Inr (zip symbols (map slot_value slots)))"

section \<open>The store\<close>

datatype bt_stmt = BeginRun | InsertRun | InsertFill | CloseBatch | SelectRuns | SelectRun | SelectFills

record bt_pg =
  bp_fails :: "bt_stmt \<Rightarrow> bool"
  bp_commit :: commit_outcome
  bp_numeric :: "f64 \<Rightarrow> f64 option"
  bp_jsonb :: "json \<Rightarrow> json"
  bp_time :: "instant \<Rightarrow> instant"
  bp_uuid :: uuid
  bp_now :: instant

record bt_db =
  runs :: "backtest list"
  fills :: "(uuid \<times> nat \<times> trade_record) list"

fun column_opt :: "('a \<Rightarrow> 'a option) \<Rightarrow> 'a option \<Rightarrow> 'a option option" where
  "column_opt f None = Some None"
| "column_opt f (Some v) = map_option Some (f v)"

definition store_metrics :: "bt_pg \<Rightarrow> metrics \<Rightarrow> metrics option" where
  "store_metrics env m =
     Option.bind (bp_numeric env (TotalReturnPct m)) (\<lambda>r.
     Option.bind (bp_numeric env (SharpeRatio m)) (\<lambda>s.
     Option.bind (bp_numeric env (MaxDrawdown m)) (\<lambda>d.
     Option.bind (bp_numeric env (WinRatePct m)) (\<lambda>w.
     Option.bind (column_opt (bp_numeric env) (ProfitFactor m)) (\<lambda>p.
     Some \<lparr>TotalReturnPct = r, SharpeRatio = s, MaxDrawdown = d, WinRatePct = w, ProfitFactor = p\<rparr>)))))"

definition store_run :: "bt_pg \<Rightarrow> backtest \<Rightarrow> backtest option" where
  \<comment> \<open>the row INSERT INTO backtests leaves, \<open>None\<close> when a column refuses its value\<close>
  "store_run env b =
     Option.bind (bp_numeric env (b_capital b)) (\<lambda>c.
     Option.bind (bp_numeric env (b_final_equity b)) (\<lambda>f.
     Option.bind (store_metrics env (b_metrics b)) (\<lambda>m.
     Some (b\<lparr>b_params := bp_jsonb env (b_params b), b_start := b_start b div day_ns * day_ns,
             b_end := b_end b div day_ns * day_ns, b_capital := c, b_final_equity := f, b_metrics := m\<rparr>))))"

definition store_fill :: "bt_pg \<Rightarrow> trade_record \<Rightarrow> trade_record option" where
  "store_fill env t =
     Option.bind (bp_numeric env (tr_price t)) (\<lambda>p.
     Option.bind (bp_numeric env (tr_quantity t)) (\<lambda>q.
     Option.bind (column_opt (bp_numeric env) (tr_realized_pl t)) (\<lambda>pl.
     Some (t\<lparr>tr_time := bp_time env (tr_time t), tr_price := p, tr_quantity := q, tr_realized_pl := pl\<rparr>))))"

definition store_fills :: "bt_pg \<Rightarrow> trade_record list \<Rightarrow> trade_record list option" where
  "store_fills env ts = those (map (store_fill env) ts)"

definition SaveBacktest :: "bt_pg \<Rightarrow> backtest \<Rightarrow> trade_record list \<Rightarrow> bt_db \<Rightarrow> (backtest_err + backtest) \<times> bt_db" where
  "SaveBacktest env b ts db =
     (if bp_fails env BeginRun \<or> bp_fails env InsertRun then (Inl ErrStore, db)
      else let b1 = b\<lparr>b_id := bp_uuid env, b_created_at := bp_now env\<rparr> in
        case store_run env b1 of
          None \<Rightarrow> (Inl ErrStore, db)
        | Some row \<Rightarrow>
            (case (if ts \<noteq> [] \<and> (bp_fails env InsertFill \<or> bp_fails env CloseBatch) then None else store_fills env ts) of
               None \<Rightarrow> (Inl ErrStore, db)
             | Some frows \<Rightarrow>
                 let work = db\<lparr>runs := runs db @ [row],
                       fills := fills db @ map (Pair (b_id b1)) (List.enumerate 0 frows)\<rparr>
                 in (case bp_commit env of
                       CommitOk \<Rightarrow> (Inr b1, work)
                     | CommitFailed \<Rightarrow> (Inl ErrStore, db)
                     | CommitLost \<Rightarrow> (Inl ErrStore, work))))"

definition ListBacktests :: "bt_pg \<Rightarrow> uuid \<Rightarrow> bt_db \<Rightarrow> backtest_err + backtest list" where
  "ListBacktests env user db =
     (if bp_fails env SelectRuns then Inl ErrStore
      else Inr (sort_key (\<lambda>b. - b_created_at b)
             (sort_key (\<lambda>b. - int (b_id b)) (filter (\<lambda>b. b_user b = user) (runs db)))))"

definition GetBacktest :: "bt_pg \<Rightarrow> uuid \<Rightarrow> uuid \<Rightarrow> bt_db \<Rightarrow> backtest_err + backtest_detail" where
  "GetBacktest env user i db =
     (if bp_fails env SelectRun then Inl ErrStore
      else case find (\<lambda>b. b_id b = i \<and> b_user b = user) (runs db) of
        None \<Rightarrow> Inl ErrNotFound
      | Some b \<Rightarrow>
          if bp_fails env SelectFills then Inl ErrStore
          else Inr \<lparr>d_backtest = b, d_trades = map (snd \<circ> snd)
                 (sort_key (\<lambda>f. fst (snd f)) (filter (\<lambda>f. fst f = i) (fills db)))\<rparr>)"

section \<open>The run\<close>

definition run_result :: "strategy_params \<Rightarrow> (gostr \<times> bar list) list \<Rightarrow> backtest_err + simulation_result \<times> metrics" where
  \<comment> \<open>the part of \<open>RunBacktest\<close> between the fetch and the save\<close>
  "run_result params fetched =
     (let (symbols, aligned) = alignBars fetched (sp_start params) (sp_end params) in
      if length aligned = 0 \<or> length (aligned ! 0) = 0 then Inl ErrDateRangeUnavailable
      else if WarmupBars (sp_strategy params) > int (length (aligned ! 0)) then Inl ErrInvalidRequest
      else let signals = map (GenerateSignals (sp_strategy params)) aligned;
               result = SimulatePortfolio symbols aligned signals (sp_capital params)
           in Inr (result, ComputeMetrics result (sp_capital params)))"

definition RunBacktest :: "(rune \<Rightarrow> rune) \<Rightarrow> history_client \<Rightarrow> (gostr list \<Rightarrow> nat list) \<Rightarrow> bt_pg \<Rightarrow> uuid
    \<Rightarrow> run_backtest_request \<Rightarrow> bt_db \<Rightarrow> (backtest_err + backtest_detail) \<times> bt_db" where
  "RunBacktest uc history sched env user req db =
     (case sum_bind (validateRequest uc req) (\<lambda>params.
           sum_bind (fetchHistories history (sp_symbols params) (sched (sp_symbols params))) (\<lambda>fetched.
           sum_bind (run_result params fetched) (\<lambda>(result, metrics). Inr (params, result, metrics)))) of
        Inl e \<Rightarrow> (Inl e, db)
      | Inr (params, result, metrics) \<Rightarrow>
          (case SaveBacktest env
              \<lparr>b_id = 0, b_user = user, b_symbols = sp_symbols params, b_strategy = Kind (sp_strategy params),
               b_params = Params (sp_strategy params), b_start = sp_start params, b_end = sp_end params,
               b_capital = sp_capital params, b_final_equity = FinalEquity result, b_metrics = metrics,
               b_created_at = 0\<rparr> (Trades result) db of
             (Inl e, db') \<Rightarrow> (Inl e, db')
           | (Inr saved, db') \<Rightarrow> (Inr \<lparr>d_backtest = saved, d_trades = Trades result\<rparr>, db')))"

section \<open>The handler\<close>

text \<open>
  A request reaches a handler with the subject \<open>RequireAuth\<close> put on its context, if any;
  \<open>parse_uuid\<close> is \<open>uuid.Parse\<close>.
\<close>

definition userID :: "(gostr \<Rightarrow> uuid option) \<Rightarrow> gostr option \<Rightarrow> uuid option" where
  "userID parse_uuid subject = Option.bind subject parse_uuid"

definition unauthorized :: "'b reply" where
  "unauthorized = ErrorReply 401 ''invalid_token'' (lit ''invalid or expired token'')"

definition writeServiceError :: "backtest_err \<Rightarrow> 'b reply" where
  \<comment> \<open>the message of a 400 invalid\_request is the text of the error and is not modelled\<close>
  "writeServiceError e = (case e of
     ErrInvalidRequest \<Rightarrow> ErrorReply 400 ''invalid_request'' []
   | ErrSymbolUnavailable \<Rightarrow> ErrorReply 400 ''symbol_unavailable'' (lit ''no historical data is available for that symbol'')
   | ErrDateRangeUnavailable \<Rightarrow> ErrorReply 400 ''date_range_unavailable'' (lit ''no historical data is available in the requested date range'')
   | ErrUpstreamUnavailable \<Rightarrow> ErrorReply 502 ''upstream_unavailable'' (lit ''market data is unavailable; the backtest was not run'')
   | ErrNotFound \<Rightarrow> ErrorReply 404 ''not_found'' (lit ''backtest not found'')
   | ErrStore \<Rightarrow> ErrorReply 500 ''internal_error'' (lit ''something went wrong''))"

fun handle_result :: "int \<Rightarrow> backtest_err + 'b \<Rightarrow> 'b reply" where
  "handle_result ok_status (Inl e) = writeServiceError e"
| "handle_result ok_status (Inr v) = Reply ok_status v"

definition handle_run :: "(rune \<Rightarrow> rune) \<Rightarrow> history_client \<Rightarrow> (gostr list \<Rightarrow> nat list) \<Rightarrow> bt_pg \<Rightarrow> (gostr \<Rightarrow> uuid option)
    \<Rightarrow> gostr option \<Rightarrow> run_backtest_request option \<Rightarrow> bt_db \<Rightarrow> backtest_detail reply \<times> bt_db" where
  \<comment> \<open>the body is \<open>None\<close> when it is over the limit or does not decode\<close>
  "handle_run uc history sched env parse_uuid subject body db =
     (case userID parse_uuid subject of
        None \<Rightarrow> (unauthorized, db)
      | Some user \<Rightarrow>
          (case body of
             None \<Rightarrow> (ErrorReply 400 ''invalid_request'' (lit ''malformed JSON body''), db)
           | Some req \<Rightarrow> (case RunBacktest uc history sched env user req db of
               (r, db') \<Rightarrow> (handle_result 201 r, db'))))"

definition handle_list :: "bt_pg \<Rightarrow> (gostr \<Rightarrow> uuid option) \<Rightarrow> gostr option \<Rightarrow> bt_db \<Rightarrow> backtest list reply" where
  "handle_list env parse_uuid subject db =
     (case userID parse_uuid subject of None \<Rightarrow> unauthorized
      | Some user \<Rightarrow> handle_result 200 (ListBacktests env user db))"

definition handle_get :: "bt_pg \<Rightarrow> (gostr \<Rightarrow> uuid option) \<Rightarrow> gostr option \<Rightarrow> gostr \<Rightarrow> bt_db \<Rightarrow> backtest_detail reply" where
  "handle_get env parse_uuid subject param db =
     (case userID parse_uuid subject of None \<Rightarrow> unauthorized
      | Some user \<Rightarrow> (case parse_uuid param of
          None \<Rightarrow> ErrorReply 400 ''invalid_request'' (lit ''id must be a UUID'')
        | Some i \<Rightarrow> handle_result 200 (GetBacktest env user i db)))"

end
