(* ===== verification/GoJSONFacts.thy ===== *)
theory GoJSONFacts
  imports GoJSON
begin

text \<open>
  Encoding a finite float and decoding the number again gives the same float: the digits
  chosen read back by construction, and the exact expansion exists because the denominator
  of a float is a power of two.
\<close>

lemma dvd_pow2: "(b::int) dvd 2 ^ j \<Longrightarrow> 0 < b \<Longrightarrow> \<exists>i. b = 2 ^ i"
proof (induction j arbitrary: b)
  case 0 then show ?case using zdvd_imp_le [of b 1] by (intro exI [of _ 0]) simp
next
  case (Suc j)
  show ?case
  proof (cases "even b")
    case True
    then obtain c where c: "b = 2 * c" by (elim dvdE)
    then obtain i where "c = 2 ^ i" using Suc by fastforce
    then show ?thesis using c by (intro exI [of _ "Suc i"]) simp
  next
    case False
    then have "coprime b 2" by (simp add: coprime_commute)
    then have "b dvd 2 ^ j" using Suc.prems(1) by (simp add: coprime_dvd_mult_right_iff)
    then show ?thesis using Suc by blast
  qed
qed

lemma bitlen_pow2: "bitlen (2 ^ i) = int i + 1"
proof (induction i)
  case 0 then show ?case by (simp add: bitlen.simps [of 1] bitlen.simps [of 0])
next
  case (Suc i) then show ?case by (subst bitlen.simps) simp
qed

lemma denominator_pow2:
  assumes "representable r" "quotient_of r = (a, b)"
  obtains k :: nat where "b = 2 ^ k"
proof -
  obtain m e where r: "r = of_int m * 2 powi e" using assms(1) by (auto simp: representable_def)
  have pos: "0 < b" using quotient_of_denom_pos [OF assms(2)] .
  show thesis
  proof (cases "0 \<le> e")
    case True
    then have "r = of_int (m * 2 ^ nat e)" using r by (simp add: power_int_def)
    then have "b = 1" using assms(2) by (simp add: quotient_of_int del: of_int_mult)
    then show ?thesis using that [of 0] by simp
  next
    case False
    define j where "j = nat (- e)"
    have e: "e = - int j" using False by (simp add: j_def)
    have "r = of_int m / 2 ^ j" unfolding r e by (simp add: power_int_minus divide_inverse)
    then have "r = Fract m (2 ^ j)" by (simp add: Fract_of_int_quotient)
    then have "quotient_of r = Rat.normalize (m, 2 ^ j)" by (simp add: quotient_of_Fract)
    then have "b = 2 ^ j div gcd m (2 ^ j)" using assms(2) by (simp add: Rat.normalize_def Let_def)
    then have "b dvd 2 ^ j" by (metis dvd_div_mult_self dvd_triv_left gcd_dvd2)
    then show ?thesis using dvd_pow2 [OF _ pos] that by blast
  qed
qed

lemma fl_representable_pos: "representable r \<Longrightarrow> 0 < r \<Longrightarrow> r < 2 ^ 1024 \<Longrightarrow> fl s r = FNum r"
  by (simp add: fl_rep)

lemma exact_digits:
  assumes "representable r" "0 < r" "quotient_of r = (a, b)" "k = bitlen b - 1"
  shows "of_nat (nat (a * 5 ^ nat k)) * 10 powi - k = r"
proof -
  obtain j :: nat where b: "b = 2 ^ j" using assms(1,3) by (rule denominator_pow2)
  have k: "k = int j" using assms(4) by (simp add: b bitlen_pow2)
  have r: "r = of_int a / 2 ^ j" using quotient_of_div [OF assms(3)] by (simp add: b)
  then have a: "0 \<le> a" using assms(2) by (simp add: zero_less_divide_iff)
  have "(10::rat) ^ j = 2 ^ j * 5 ^ j" by (simp flip: power_mult_distrib)
  then show ?thesis using a by (simp add: k r power_int_minus field_simps)
qed

lemma shortest_reads_back:
  assumes "representable r" "0 < r" "r < 2 ^ 1024" "shortest r = (m, e)"
  shows "fl False (of_nat m * 10 powi e) = FNum r"
proof (cases "filter (\<lambda>(m, e). fl False (of_nat m * 10 powi e) = FNum r) (map (digits_candidate r) [1..<18])")
  case Nil
  obtain a b where q: "quotient_of r = (a, b)" by fastforce
  have "(m, e) = (nat (a * 5 ^ nat (bitlen b - 1)), - (bitlen b - 1))"
    using assms(4) Nil by (simp add: shortest_def q Let_def)
  then have "of_nat m * 10 powi e = r" using exact_digits [OF assms(1,2) q refl] by simp
  then show ?thesis using assms by (simp add: fl_representable_pos)
next
  case (Cons c cs)
  then have "(m, e) \<in> set (filter (\<lambda>(m, e). fl False (of_nat m * 10 powi e) = FNum r) (map (digits_candidate r) [1..<18]))"
    using assms(4) by (simp add: shortest_def)
  then show ?thesis by simp
qed

lemma enc_float_reads_back:
  assumes "fin x" "wf64 x"
  obtains j where "enc_float x = Some j" "dec_float j = Some x"
proof (cases x)
  case FNegZero
  then show ?thesis using that by (simp add: dec_float_def num_value_def fl_def is_inf_def)
next
  case (FNum r)
  show ?thesis
  proof (cases "r = 0")
    case True
    then show ?thesis using that FNum by (simp add: dec_float_def num_value_def fl_def is_inf_def)
  next
    case False
    have a: "representable \<bar>r\<bar>" "0 < \<bar>r\<bar>" "\<bar>r\<bar> < 2 ^ 1024"
      using assms False FNum representable_minus [of r] by (auto simp: wf64_def abs_if)
    obtain m e where me: "shortest \<bar>r\<bar> = (m, e)" by fastforce
    have v: "num_value False m e = FNum \<bar>r\<bar>" using shortest_reads_back [OF a me] by (simp add: num_value_def)
    have v': "0 \<le> e \<Longrightarrow> num_value False (m * 10 ^ nat e) 0 = FNum \<bar>r\<bar>"
      using v by (simp add: num_value_def power_int_def)
    have w: "num_value (r < 0) m' e' = x" if "num_value False m' e' = FNum \<bar>r\<bar>" for m' e'
      using that False FNum by (cases "r < 0") (simp_all add: num_value_neg)
    have ni: "\<not> is_inf x" using FNum by (simp add: is_inf_def)
    show ?thesis
    proof (cases "0 \<le> e \<and> \<bar>r\<bar> < 10 ^ 21")
      case True
      then have "enc_float x = Some (JNum (r < 0) (m * 10 ^ nat e) 0 True)" using False FNum me by simp
      moreover have "dec_float (JNum (r < 0) (m * 10 ^ nat e) 0 True) = Some x"
        using w [OF v'] True ni by (simp add: dec_float_def Let_def)
      ultimately show ?thesis by (rule that)
    next
      case notint: False
      then have "enc_float x = Some (JNum (r < 0) m e False)" using False FNum me by auto
      moreover have "dec_float (JNum (r < 0) m e False) = Some x" using w [OF v] ni by (simp add: dec_float_def Let_def)
      ultimately show ?thesis by (rule that)
    qed
  qed
qed (use assms in simp_all)

lemma dec_member_sticky: "foldl (dec_member f d) None ms = None"
  by (induction ms) (simp_all add: dec_member_def split_beta)

lemma dec_field_inv:
  assumes "dec_field f d z j = Some v" "P z" "\<And>j v. d j = Some v \<Longrightarrow> P v"
  shows "P v"
proof -
  have "foldl (dec_member f d) (Some z') ms = Some v \<Longrightarrow> P z' \<Longrightarrow> P v" for z' ms
  proof (induction ms arbitrary: z')
    case (Cons m ms)
    show ?case
    proof (cases "dec_member f d (Some z') m")
      case None then show ?thesis using Cons.prems by (simp add: dec_member_sticky)
    next
      case (Some y)
      then have "P y" using Cons.prems(2) assms(3) by (cases m) (auto simp: dec_member_def split: if_splits)
      then show ?thesis using Cons Some by simp
    qed
  qed simp
  then show ?thesis using assms by (auto simp: dec_field_def split: json.splits)
qed

lemma dec_float_wf: "dec_float j = Some v \<Longrightarrow> wf64 v"
  by (auto simp: dec_float_def num_value_def Let_def split: json.splits if_splits)

lemma dec_int_int64: "dec_int j = Some v \<Longrightarrow> int64 v"
  by (auto simp: dec_int_def Let_def split: json.splits bool.splits if_splits)

lemma enc_int_not_null [simp]: "enc_int n \<noteq> JNull"
  by (simp add: enc_int_def)

end
