(* ===== verification/StrategyFacts.thy ===== *)
theory StrategyFacts
  imports Strategy GoJSONFacts
begin

text \<open>
  What the pipeline relies on from a strategy is a contract (\<open>signal_source\<close>): one signal
  per bar, none before the warm-up is over, and no signal that depends on a later bar. It
  is proved once for each of the three strategies, and what follows from it is proved once
  in the locale. The file also shows that \<open>NewStrategy\<close> only accepts parameters for which
  the contract holds, with no warm-up sum that wrapped around, and that the stored
  parameters read back as the same strategy; and that the readings of the relative strength
  index are numbers between 0 and 100.
\<close>

locale signal_source =
  fixes ok :: "'p \<Rightarrow> bool" and warmup :: "'p \<Rightarrow> int" and gen :: "'p \<Rightarrow> bar list \<Rightarrow> signal list"
  assumes gen_length: "ok p \<Longrightarrow> length (gen p bars) = length bars"
    and gen_causal: "ok p \<Longrightarrow> gen p (take n bars) = take n (gen p bars)"
    and gen_warm: "ok p \<Longrightarrow> i < length bars \<Longrightarrow> int i < warmup p \<Longrightarrow> gen p bars ! i = SignalNone"
begin

lemma no_lookahead:
  assumes "ok p" "take (Suc i) bars = take (Suc i) bars'" "i < length bars" "i < length bars'"
  shows "gen p bars ! i = gen p bars' ! i"
proof -
  have "take (Suc i) (gen p bars) ! i = take (Suc i) (gen p bars') ! i"
    using assms(1,2) gen_causal [of p "Suc i" bars] gen_causal [of p "Suc i" bars'] by simp
  then show ?thesis by simp
qed

lemma too_short: "ok p \<Longrightarrow> int (length bars) \<le> warmup p \<Longrightarrow> gen p bars = replicate (length bars) SignalNone"
  by (rule nth_equalityI) (simp_all add: gen_length gen_warm)

end

section \<open>Indicators\<close>

lemma length_ema_run [simp]: "length (ema_run a s vs) = Suc (length vs)"
  by (induction vs arbitrary: s) simp_all

lemma take_ema_run: "take (Suc k) (ema_run a s vs) = ema_run a s (take k vs)"
proof (induction vs arbitrary: s k)
  case (Cons v vs) then show ?case by (cases k) simp_all
qed simp

lemma length_ema [simp]: "length (ema xs p) = length xs"
  by (auto simp: ema_def Let_def)

lemma take_ema:
  assumes "0 < p" "p \<le> int n" "n \<le> length xs"
  shows "ema (take n xs) p = take n (ema xs p)"
proof -
  define k where "k = nat p"
  have k: "p = int k" "0 < k" "k \<le> n" using assms by (simp_all add: k_def)
  have "n - (k - 1) = Suc (n - k)" using k by simp
  then show ?thesis using assms k by (simp add: ema_def Let_def take_ema_run min_def drop_take)
qed

lemma length_deltas [simp]: "length (deltas xs) = length xs - 1"
  by (induction xs rule: deltas.induct) simp_all

lemma take_deltas: "deltas (take n xs) = take (n - 1) (deltas xs)"
proof (induction xs arbitrary: n rule: deltas.induct)
  case (1 a b rest)
  show ?case
  proof (cases "n < 2")
    case True then show ?thesis by (cases n) (simp_all add: less_Suc_eq)
  next
    case False
    then obtain k where "n = Suc (Suc k)" by (metis Suc_pred' add_2_eq_Suc le_add_diff_inverse not_less)
    then show ?thesis using "1" [of "Suc k"] by simp
  qed
next
  case "2_2" then show ?case by (cases n) simp_all
qed simp

lemma length_rsi_run [simp]: "length (rsi_run p avg ds) = Suc (length ds)"
  by (induction ds arbitrary: avg) simp_all

lemma take_rsi_run: "take (Suc k) (rsi_run p avg ds) = rsi_run p avg (take k ds)"
proof (induction ds arbitrary: avg k)
  case (Cons d ds) then show ?case by (cases k) simp_all
qed simp

lemma length_wilderRSI [simp]: "length (wilderRSI xs p) = length xs"
  by (auto simp: wilderRSI_def Let_def split: prod.splits)

lemma take_wilderRSI:
  assumes "0 < p" "p < int n" "n \<le> length xs"
  shows "wilderRSI (take n xs) p = take n (wilderRSI xs p)"
proof -
  define k where "k = nat p"
  have k: "p = int k" "0 < k" "k < n" using assms by (simp_all add: k_def)
  have t: "take k (take (n - 1) ds) = take k ds" "drop k (take (n - 1) ds) = take (n - Suc k) (drop k ds)" for ds :: "f64 list"
    using k by (simp_all add: drop_take min_absorb1)
  have "n - k = Suc (n - Suc k)" using k by simp
  then show ?thesis using assms k
    by (simp add: wilderRSI_def Let_def take_deltas t [simplified] take_rsi_run split: prod.splits)
qed

lemma running_sum_take: "i \<le> n \<Longrightarrow> running_sum (take n xs) w i = running_sum xs w i"
  by (induction i) (simp_all add: Let_def)

lemma length_movingAverages [simp]: "length (movingAverages bars w) = length bars"
  by (simp add: movingAverages_def Let_def)

lemma closesOf_take: "closesOf (take n bars) = take n (closesOf bars)"
  by (simp add: closesOf_def take_map)

lemma length_closesOf [simp]: "length (closesOf bars) = length bars"
  by (simp add: closesOf_def)

lemma take_movingAverages: "movingAverages (take n bars) w = take n (movingAverages bars w)"
  by (rule nth_equalityI) (simp_all add: movingAverages_def Let_def closesOf_take running_sum_take
      del: running_sum.simps)

section \<open>Crossings\<close>

lemma length_cross_run [simp]: "length (cross_run st zs) = length zs"
  by (induction st zs rule: cross_run.induct) (simp_all add: Let_def)

lemma take_cross_run: "take k (cross_run st zs) = cross_run st (take k zs)"
proof (induction st zs arbitrary: k rule: cross_run.induct)
  case (2 st fast slow rest)
  then show ?case by (cases k) (simp_all add: Let_def)
qed simp

lemma length_crossoverSignals: "length slow = length fast \<Longrightarrow> length (crossoverSignals fast slow start) = length fast"
  by (simp add: crossoverSignals_def)

lemma take_crossoverSignals:
  "length slow = length fast \<Longrightarrow> crossoverSignals (take n fast) (take n slow) start = take n (crossoverSignals fast slow start)"
  by (auto simp: crossoverSignals_def take_cross_run take_zip drop_take min_def)

lemma crossoverSignals_start:
  assumes "length slow = length fast" "i \<le> start" "i < length fast"
  shows "crossoverSignals fast slow start ! i = SignalNone"
proof (cases "i = start")
  case True
  then obtain f fs s ss where "drop start fast = f # fs" "drop start slow = s # ss"
    using assms by (metis Cons_nth_drop_Suc)
  then show ?thesis using assms True by (simp add: crossoverSignals_def nth_append Let_def)
qed (use assms in \<open>simp add: crossoverSignals_def nth_append\<close>)

section \<open>The contract holds\<close>

definition ma_ok :: "ma_params \<Rightarrow> bool" where
  "ma_ok p \<longleftrightarrow> 2 \<le> ShortWindow p \<and> ShortWindow p < LongWindow p"

definition rsi_ok :: "rsi_params \<Rightarrow> bool" where
  "rsi_ok p \<longleftrightarrow> 2 \<le> Period p \<and> Period p \<le> 500 \<and> 0 < Oversold p \<and> Oversold p < Overbought p \<and> Overbought p < FNum 100"

definition macd_ok :: "macd_params \<Rightarrow> bool" where
  "macd_ok p \<longleftrightarrow> 2 \<le> FastPeriod p \<and> FastPeriod p < SlowPeriod p \<and> SlowPeriod p \<le> 500
     \<and> 2 \<le> SignalPeriod p \<and> SignalPeriod p \<le> 500"

lemma rsi_warmup_eq: "rsi_ok p \<Longrightarrow> rsi_warmup p = Period p + 1"
  by (simp add: rsi_warmup_def rsi_ok_def wrap64_id int64_def)

lemma macd_warmup_eq: "macd_ok p \<Longrightarrow> macd_warmup p = SlowPeriod p + SignalPeriod p - 1"
  by (simp add: macd_warmup_def macd_ok_def wrap64_id int64_def)

lemma take_replicate_min: "take n (replicate m x) = replicate (min n m) x"
  by simp

lemma gen_causal_cases:
  assumes "length bars \<le> n \<Longrightarrow> gen (take n bars) = take n (gen bars)"
    and "n < length bars \<Longrightarrow> gen (take n bars) = take n (gen bars)"
  shows "gen (take n bars) = take n (gen bars)"
  using assms by (cases "length bars \<le> n") auto

lemma ma_length: "length (ma_signals p bars) = length bars"
  by (simp add: ma_signals_def length_crossoverSignals)

lemma ma_warm: "ma_ok p \<Longrightarrow> i < length bars \<Longrightarrow> int i < ma_warmup p \<Longrightarrow> ma_signals p bars ! i = SignalNone"
  unfolding ma_signals_def ma_warmup_def by (auto intro!: crossoverSignals_start)

lemma none_prefix:
  assumes "length xs = m" "n \<le> m" "\<And>i. i < n \<Longrightarrow> xs ! i = SignalNone"
  shows "replicate n SignalNone = take n xs"
  using assms by (intro nth_equalityI) auto

lemma ma_causal: "ma_ok p \<Longrightarrow> ma_signals p (take n bars) = take n (ma_signals p bars)"
proof (cases "n < length bars")
  case True
  assume ok: "ma_ok p"
  show ?thesis
  proof (cases "int n < LongWindow p")
    case lt: True
    then have "ma_signals p (take n bars) = replicate n SignalNone" using True by (simp add: ma_signals_def)
    also have "\<dots> = take n (ma_signals p bars)"
      using True lt ok by (intro none_prefix [OF ma_length]) (auto simp: ma_warm ma_warmup_def)
    finally show ?thesis .
  next
    case False
    then show ?thesis using True
      by (simp add: ma_signals_def take_movingAverages take_crossoverSignals)
  qed
qed (simp add: ma_length)

interpretation ma: signal_source ma_ok ma_warmup ma_signals
  by unfold_locales (auto simp: ma_length ma_causal ma_warm)

lemma rsi_length: "length (rsi_signals p bars) = length bars"
  by (simp add: rsi_signals_def rsiZoneExitSignals_def)

lemma rsi_warm: "rsi_ok p \<Longrightarrow> i < length bars \<Longrightarrow> int i < rsi_warmup p \<Longrightarrow> rsi_signals p bars ! i = SignalNone"
  using rsi_warmup_eq [of p] by (auto simp: rsi_signals_def rsiZoneExitSignals_def)

lemma rsi_causal: "rsi_ok p \<Longrightarrow> rsi_signals p (take n bars) = take n (rsi_signals p bars)"
proof (cases "n < length bars")
  case True
  assume ok: "rsi_ok p"
  note w = rsi_warmup_eq [OF ok]
  show ?thesis
  proof (cases "int n < rsi_warmup p")
    case lt: True
    then have "rsi_signals p (take n bars) = replicate n SignalNone" using True by (simp add: rsi_signals_def)
    also have "\<dots> = take n (rsi_signals p bars)"
      using True lt ok by (intro none_prefix [OF rsi_length]) (auto simp: rsi_warm)
    finally show ?thesis .
  next
    case False
    then have "wilderRSI (take n (closesOf bars)) (Period p) = take n (wilderRSI (closesOf bars) (Period p))"
      using True ok w by (intro take_wilderRSI) (auto simp: rsi_ok_def)
    then show ?thesis using True False
      by (intro nth_equalityI) (simp_all add: rsi_signals_def rsiZoneExitSignals_def closesOf_take)
  qed
qed (simp add: rsi_length)

interpretation rsi: signal_source rsi_ok rsi_warmup rsi_signals
  by unfold_locales (auto simp: rsi_length rsi_causal rsi_warm)

lemma length_macd_line [simp]: "length (macd_line p bars) = length bars"
  by (simp add: macd_line_def Let_def)

lemma macd_length: "macd_ok p \<Longrightarrow> length (macd_signals p bars) = length bars"
  using macd_warmup_eq [of p]
  by (auto simp: macd_signals_def Let_def macd_ok_def intro!: length_crossoverSignals [THEN trans])

lemma macd_warm: "macd_ok p \<Longrightarrow> i < length bars \<Longrightarrow> int i < macd_warmup p \<Longrightarrow> macd_signals p bars ! i = SignalNone"
  using macd_warmup_eq [of p]
  by (auto simp: macd_signals_def Let_def macd_ok_def intro!: crossoverSignals_start)

lemma macd_line_take:
  assumes "macd_ok p" "n \<le> length bars" "SlowPeriod p \<le> int n"
  shows "macd_line p (take n bars) = take n (macd_line p bars)"
proof -
  have "ema (take n (closesOf bars)) (FastPeriod p) = take n (ema (closesOf bars) (FastPeriod p))"
    "ema (take n (closesOf bars)) (SlowPeriod p) = take n (ema (closesOf bars) (SlowPeriod p))"
    using assms by (auto intro!: take_ema simp: macd_ok_def)
  then show ?thesis using assms
    by (intro nth_equalityI) (simp_all add: macd_line_def Let_def closesOf_take)
qed

lemma macd_causal: "macd_ok p \<Longrightarrow> macd_signals p (take n bars) = take n (macd_signals p bars)"
proof (cases "n < length bars")
  case True
  assume ok: "macd_ok p"
  note w = macd_warmup_eq [OF ok]
  show ?thesis
  proof (cases "int n < macd_warmup p")
    case lt: True
    then have "macd_signals p (take n bars) = replicate n SignalNone" using True by (simp add: macd_signals_def)
    also have "\<dots> = take n (macd_signals p bars)"
      using True lt ok by (intro none_prefix [OF macd_length]) (auto simp: macd_warm)
    finally show ?thesis .
  next
    case False
    define k where "k = nat (SlowPeriod p - 1)"
    have k: "k < n" "SlowPeriod p \<le> int n" "SignalPeriod p \<le> int (n - k)"
      using False w ok by (auto simp: k_def macd_ok_def)
    have line: "macd_line p (take n bars) = take n (macd_line p bars)"
      using macd_line_take [OF ok _ k(2)] True by simp
    have "ema (take (n - k) (drop k (macd_line p bars))) (SignalPeriod p)
        = take (n - k) (ema (drop k (macd_line p bars)) (SignalPeriod p))"
      using True ok k by (intro take_ema) (auto simp: macd_ok_def)
    then have sig: "replicate k 0 @ ema (drop k (take n (macd_line p bars))) (SignalPeriod p)
        = take n (replicate k 0 @ ema (drop k (macd_line p bars)) (SignalPeriod p))"
      using k by (simp add: drop_take min_def)
    have "macd_signals p (take n bars) = crossoverSignals (take n (macd_line p bars))
        (take n (replicate k 0 @ ema (drop k (macd_line p bars)) (SignalPeriod p))) (nat (SlowPeriod p + SignalPeriod p - 2))"
      using True False by (simp add: macd_signals_def Let_def k_def [symmetric] line sig)
    also have "\<dots> = take n (macd_signals p bars)"
      using True False k by (subst take_crossoverSignals) (simp_all add: macd_signals_def Let_def k_def [symmetric])
    finally show ?thesis .
  qed
qed (simp add: macd_length)

interpretation macd: signal_source macd_ok macd_warmup macd_signals
  by unfold_locales (auto simp: macd_length macd_causal macd_warm)

fun strategy_ok :: "strategy \<Rightarrow> bool" where
  "strategy_ok (MACrossover p) = ma_ok p"
| "strategy_ok (RSI p) = rsi_ok p"
| "strategy_ok (MACD p) = macd_ok p"

interpretation strat: signal_source strategy_ok WarmupBars GenerateSignals
proof
  show "strategy_ok p \<Longrightarrow> length (GenerateSignals p bars) = length bars" for p bars
    by (cases p) (simp_all add: ma.gen_length rsi.gen_length macd.gen_length)
  show "strategy_ok p \<Longrightarrow> GenerateSignals p (take n bars) = take n (GenerateSignals p bars)" for p n bars
    by (cases p) (simp_all add: ma.gen_causal rsi.gen_causal macd.gen_causal)
  show "strategy_ok p \<Longrightarrow> i < length bars \<Longrightarrow> int i < WarmupBars p \<Longrightarrow> GenerateSignals p bars ! i = SignalNone" for p i bars
    by (cases p) (simp_all add: ma.gen_warm rsi.gen_warm macd.gen_warm)
qed

section \<open>Only valid parameters get through\<close>

lemma newStrategyByKind_ok:
  assumes "newStrategyByKind kind raw = Inr s"
  shows "strategy_ok s \<and> Kind s = kind"
  using assms
  by (auto simp: newStrategyByKind_def newMACrossover_def newRSIStrategy_def newMACDStrategy_def
      minShortWindow_def maxWarmupBars_def ma_ok_def rsi_ok_def macd_ok_def
      split: if_splits option.splits)

lemma NewStrategy_ok:
  assumes "NewStrategy kind raw = Inr s"
  shows "strategy_ok s" "Kind s = kind" "3 \<le> WarmupBars s" "WarmupBars s \<le> 500"
proof -
  have s: "newStrategyByKind kind raw = Inr s" "WarmupBars s \<le> 500"
    using assms by (auto simp: NewStrategy_def sum_bind_eq_Inr maxWarmupBars_def split: if_splits)
  then show ok: "strategy_ok s" "Kind s = kind" "WarmupBars s \<le> 500"
    using newStrategyByKind_ok by blast+
  show "3 \<le> WarmupBars s"
    using ok(1) by (cases s) (auto simp: ma_warmup_def rsi_warmup_eq macd_warmup_eq, auto simp: ma_ok_def rsi_ok_def macd_ok_def)
qed

lemma field_names:
  "names_field (lit ''short_window'') (lit ''short_window'')" "\<not> names_field (lit ''short_window'') (lit ''long_window'')"
  "names_field (lit ''long_window'') (lit ''long_window'')" "\<not> names_field (lit ''long_window'') (lit ''short_window'')"
  "names_field (lit ''fast_period'') (lit ''fast_period'')" "\<not> names_field (lit ''fast_period'') (lit ''slow_period'')"
  "\<not> names_field (lit ''fast_period'') (lit ''signal_period'')"
  "names_field (lit ''slow_period'') (lit ''slow_period'')" "\<not> names_field (lit ''slow_period'') (lit ''fast_period'')"
  "\<not> names_field (lit ''slow_period'') (lit ''signal_period'')"
  "names_field (lit ''signal_period'') (lit ''signal_period'')" "\<not> names_field (lit ''signal_period'') (lit ''fast_period'')"
  "\<not> names_field (lit ''signal_period'') (lit ''slow_period'')"
  "names_field (lit ''period'') (lit ''period'')" "\<not> names_field (lit ''period'') (lit ''oversold'')"
  "\<not> names_field (lit ''period'') (lit ''overbought'')"
  "names_field (lit ''oversold'') (lit ''oversold'')" "\<not> names_field (lit ''oversold'') (lit ''period'')"
  "\<not> names_field (lit ''oversold'') (lit ''overbought'')"
  "names_field (lit ''overbought'') (lit ''overbought'')" "\<not> names_field (lit ''overbought'') (lit ''period'')"
  "\<not> names_field (lit ''overbought'') (lit ''oversold'')"
  by (simp_all add: names_field_def fold_rune_def lit_def)

lemma dec_ma_params:
  "int64 (ShortWindow p) \<Longrightarrow> int64 (LongWindow p) \<Longrightarrow> dec_ma (Params (MACrossover p)) = Some (ShortWindow p, LongWindow p)"
  by (simp add: dec_ma_def dec_field_def dec_member_def field_names dec_int_enc)

lemma dec_macd_params:
  "int64 (FastPeriod p) \<Longrightarrow> int64 (SlowPeriod p) \<Longrightarrow> int64 (SignalPeriod p) \<Longrightarrow>
   dec_macd (Params (MACD p)) = Some (FastPeriod p, SlowPeriod p, SignalPeriod p)"
  by (simp add: dec_macd_def dec_field_def dec_member_def field_names dec_int_enc)

lemma dec_rsi_params:
  assumes "int64 (Period p)" "enc_float (Oversold p) = Some a" "dec_float a = Some (Oversold p)"
    "enc_float (Overbought p) = Some b" "dec_float b = Some (Overbought p)"
  shows "dec_rsi (Params (RSI p)) = Some (Period p, Oversold p, Overbought p)"
proof -
  have "a \<noteq> JNull" "b \<noteq> JNull" using assms by (auto simp: dec_float_def)
  then show ?thesis using assms
    by (simp add: dec_rsi_def dec_field_def dec_member_def field_names dec_int_enc)
qed

section \<open>The relative strength index\<close>

lemma f64_div_le: "0 \<le> a \<Longrightarrow> fin a \<Longrightarrow> wf64 a \<Longrightarrow> 1 \<le> b \<Longrightarrow> (a / b :: f64) \<le> a"
proof (cases "fin b")
  case True
  assume a: "0 \<le> a" "fin a" "wf64 a" "1 \<le> b"
  then have "1 \<le> val b" "0 \<le> val a" using True f64_le_fin [of 1 b] f64_le_fin [of 0 a] by simp_all
  then have "val a / val b \<le> val a" by (simp add: divide_le_eq mult_le_cancel_left1)
  then show ?thesis using a True \<open>1 \<le> val b\<close> by (simp add: fdiv_fin fl_le_val)
next
  case False
  assume "0 \<le> a" "fin a" "wf64 a" "1 \<le> b"
  with False show ?thesis by (cases b; cases a) (auto simp: f64_ops_def)
qed

lemma f64_mul_nonneg_pos: "0 \<le> a \<Longrightarrow> 0 < b \<Longrightarrow> fin b \<Longrightarrow> 0 \<le> (a * b :: f64)"
proof (cases "fin a")
  case False
  assume "0 \<le> a" "0 < b" "fin b"
  with False show ?thesis by (cases a; cases b) (auto simp: f64_ops_def)
qed (simp add: f64_mul_nonneg f64_less_imp_le)

lemma pct_range_comp: "0 \<le> x \<Longrightarrow> x \<le> FNum 100 \<Longrightarrow> 0 \<le> FNum 100 - x \<and> FNum 100 - x \<le> FNum 100"
proof -
  assume x: "0 \<le> x" "x \<le> FNum 100"
  have w: "wf64 (FNum 100)" using representable_of_int [of 100] by (simp add: wf64_def)
  have f: "fin x" using fin_between [OF x] by simp
  show ?thesis using f64_sub_nonneg [OF x(2) f] f64_sub_le [OF _ w f x(1)] by simp
qed

lemma rsiFromAverages_range:
  assumes "0 \<le> g" "0 \<le> l" "fin g \<or> fin l"
  shows "0 \<le> rsiFromAverages g l \<and> rsiFromAverages g l \<le> FNum 100"
proof -
  have pos: "0 < x" if "0 \<le> x" "\<not> feq x 0" for x :: f64
    using that f64_not_le [of x 0] f64_le_not_NaN [OF that(1)] by (auto simp: feq_def)
  have h: "0 \<le> FNum 100" "wf64 (FNum 100)" using representable_of_int [of 100] by (simp_all add: wf64_def f64_ops_def)
  show ?thesis
  proof (cases "feq g 0 \<or> feq l 0")
    case True then show ?thesis by (auto simp: rsiFromAverages_def f64_ops_def)
  next
    case False
    then have "0 < l" using assms pos by blast
    then have rs: "0 \<le> g / l" using assms(1,3) by (intro f64_div_nonneg)
    then have one: "1 \<le> 1 + g / l" by (rule f64_one_le_add)
    then have "0 < 1 + g / l" by (rule f64_less_le_trans [rotated]) (simp add: f64_ops_def)
    then have "0 \<le> FNum 100 / (1 + g / l)" using h by (intro f64_div_nonneg) simp_all
    moreover have "FNum 100 / (1 + g / l) \<le> FNum 100" using h one by (intro f64_div_le) simp_all
    ultimately show ?thesis using False by (simp add: rsiFromAverages_def Let_def pct_range_comp)
  qed
qed

text \<open>Averages of closes of at most \<open>2^1000\<close>: the moves between them, and so every average,
  are at most \<open>2^1001\<close>, and no sum of the smoothing overflows.\<close>

definition move_bound :: rat where "move_bound = 2 ^ 1001"

definition up_to :: "int \<Rightarrow> f64 \<Rightarrow> bool" where
  \<comment> \<open>between zero and \<open>n\<close> times the largest move\<close>
  "up_to n x \<longleftrightarrow> 0 \<le> x \<and> x \<le> FNum (of_int n * move_bound)"

definition averages :: "f64 \<times> f64 \<Rightarrow> bool" where
  "averages a \<longleftrightarrow> up_to 1 (fst a) \<and> up_to 1 (snd a)"

definition moves :: "f64 \<Rightarrow> bool" where
  "moves d \<longleftrightarrow> FNum (- move_bound) \<le> d \<and> d \<le> FNum move_bound"

lemma move_bound_rep:
  assumes "0 \<le> n" "n \<le> 2 ^ 10" shows "representable (of_int n * move_bound)" "\<bar>of_int n * move_bound\<bar> < 2 ^ 1024"
proof -
  have n: "\<bar>n\<bar> \<le> 2 ^ 53" using assms by simp
  have p: "(2::rat) powi 1001 = 2 ^ 1001" by (simp add: power_int_def)
  show "representable (of_int n * move_bound)" unfolding representable_def move_bound_def
    using n p by (intro exI [of _ n] exI [of _ 1001]) simp
  have "(of_int n :: rat) \<le> 2 ^ 10" using assms(2) by (metis of_int_le_iff of_int_numeral of_int_power)
  then have "of_int n * move_bound \<le> 2 ^ 10 * 2 ^ 1001" unfolding move_bound_def by (rule mult_right_mono) simp
  also have "\<dots> < (2::rat) ^ 1024" by (simp flip: power_add)
  finally show "\<bar>of_int n * move_bound\<bar> < 2 ^ 1024" using assms(1) by (simp add: move_bound_def)
qed

lemma up_to_fin: "up_to n x \<Longrightarrow> fin x \<and> 0 \<le> val x \<and> val x \<le> of_int n * move_bound"
  using fin_between [of 0 x "FNum (of_int n * move_bound)"] f64_le_fin [of 0 x] f64_le_fin [of x "FNum (of_int n * move_bound)"]
  by (simp add: up_to_def)

lemma up_to_fl: "0 \<le> n \<Longrightarrow> n \<le> 2 ^ 10 \<Longrightarrow> 0 \<le> x \<Longrightarrow> x \<le> of_int n * move_bound \<Longrightarrow> up_to n (fl s x)"
  using move_bound_rep [of n] by (simp add: up_to_def fl_nonneg fl_le_rep)

lemma up_to_zero: "0 \<le> n \<Longrightarrow> up_to n x" if "fin x" "val x = 0"
  using that by (cases x) (auto simp: up_to_def f64_ops_def move_bound_def)

lemma up_to_add: "up_to m x \<Longrightarrow> up_to n y \<Longrightarrow> 0 \<le> m \<Longrightarrow> 0 \<le> n \<Longrightarrow> m + n \<le> 2 ^ 10 \<Longrightarrow> up_to (m + n) (x + y)"
proof -
  assume a: "up_to m x" "up_to n y" "0 \<le> m" "0 \<le> n" "m + n \<le> 2 ^ 10"
  note f = up_to_fin [OF a(1)] up_to_fin [OF a(2)]
  have "up_to (m + n) (fl False (val x + val y))" using f a(3-5) by (intro up_to_fl) (simp_all add: algebra_simps)
  moreover have "up_to (m + n) FNegZero" using a(3,4) by (intro up_to_zero) simp_all
  ultimately show ?thesis using f by (simp add: fadd_fin)
qed

lemma up_to_mul: "up_to 1 x \<Longrightarrow> 0 < n \<Longrightarrow> n \<le> 2 ^ 10 \<Longrightarrow> up_to n (x * FNum (of_int n))"
  using up_to_fin [of 1 x] by (auto simp: fmul_fin mult.commute intro!: up_to_fl)

lemma up_to_div: "up_to n x \<Longrightarrow> 0 < n \<Longrightarrow> n \<le> 2 ^ 10 \<Longrightarrow> up_to 1 (x / FNum (of_int n))"
  using up_to_fin [of n x] by (auto simp: fdiv_fin divide_le_eq mult.commute intro!: up_to_fl)

lemma delta_signs: "d \<noteq> NaN \<Longrightarrow> \<not> 0 < d \<Longrightarrow> 0 \<le> - (d::f64)"
  by (cases d) (auto simp: f64_ops_def)

lemma moves_cases: "moves d \<Longrightarrow> (0 < d \<longrightarrow> up_to 1 d) \<and> (\<not> 0 < d \<longrightarrow> up_to 1 (- d))"
  by (cases d) (auto simp: moves_def up_to_def f64_ops_def move_bound_def)

lemma gain_loss_up_to:
  assumes "moves d" "up_to n g" "up_to n l" "0 \<le> n" "n < 2 ^ 10" "gain_loss (g, l) d = (g', l')"
  shows "up_to (n + 1) g' \<and> up_to (n + 1) l'"
proof -
  have "up_to (n + 1) x" if "up_to n x" for x
    using that assms(4) up_to_fin [OF that] by (auto simp: up_to_def move_bound_def f64_le_fin algebra_simps)
  then show ?thesis
    using moves_cases [OF assms(1)] up_to_add [of n _ 1] assms(2-6) by (auto simp: gain_loss_def split: if_splits)
qed

lemma sums_up_to:
  "\<forall>d\<in>set ds. moves d \<Longrightarrow> up_to n g \<Longrightarrow> up_to n l \<Longrightarrow> 0 \<le> n \<Longrightarrow> n + int (length ds) \<le> 2 ^ 10
    \<Longrightarrow> foldl gain_loss (g, l) ds = (g', l') \<Longrightarrow> up_to (n + int (length ds)) g' \<and> up_to (n + int (length ds)) l'"
proof (induction ds arbitrary: n g l)
  case (Cons d ds)
  obtain g1 l1 where e: "gain_loss (g, l) d = (g1, l1)" by fastforce
  have "up_to (n + 1) g1 \<and> up_to (n + 1) l1" using gain_loss_up_to [OF _ _ _ _ _ e] Cons.prems by simp
  then show ?case using Cons.IH [of "n + 1" g1 l1] Cons.prems e by (simp add: algebra_simps)
qed simp

lemma fint_pos: "0 < n \<Longrightarrow> n \<le> 2 ^ 53 \<Longrightarrow> fint n = FNum (of_int n)"
proof -
  assume n: "0 < n" "n \<le> 2 ^ 53"
  have "(of_int n :: rat) < 2 ^ 1024"
    using n of_int_le_iff [where 'a = rat, of n "2 ^ 53"] by simp
  then show ?thesis using n rnd_of_int [of n] by (simp add: fint_def fl_eqI)
qed

lemma wilder_step_averages:
  assumes "2 \<le> period" "period \<le> 500" "moves d" "averages a"
  shows "averages (wilder_step period a d)"
proof -
  have p: "fint (period - 1) = FNum (of_int (period - 1))" "fint period = FNum (of_int period)"
    using assms by (simp_all add: fint_pos)
  have z: "up_to 1 0" by (rule up_to_zero) simp_all
  have "up_to 1 ((x * fint (period - 1) + y) / fint period)" if "up_to 1 x" "up_to 1 y" for x y :: f64
    using up_to_div [OF up_to_add [OF up_to_mul [OF that(1), of "period - 1"] that(2)]] assms(1,2) unfolding p by simp
  then show ?thesis using assms(4) moves_cases [OF assms(3)] z
    by (cases a; cases "0 < d") (simp_all add: averages_def wilder_step_def Let_def)
qed

definition rsi_value :: "f64 \<Rightarrow> bool" where
  \<comment> \<open>a reading between 0 and 100, and so a number\<close>
  "rsi_value x \<longleftrightarrow> 0 \<le> x \<and> x \<le> FNum 100"

lemma rsiFromAverages_value: "averages a \<Longrightarrow> rsi_value (rsiFromAverages (fst a) (snd a))"
  using rsiFromAverages_range [of "fst a" "snd a"] up_to_fin [of 1 "fst a"]
  by (simp add: rsi_value_def averages_def up_to_def)

lemma rsi_run_values:
  "2 \<le> period \<Longrightarrow> period \<le> 500 \<Longrightarrow> averages a \<Longrightarrow> \<forall>d\<in>set ds. moves d \<Longrightarrow> \<forall>x\<in>set (rsi_run period a ds). rsi_value x"
proof (induction ds arbitrary: a)
  case (Cons d ds)
  then have "averages (wilder_step period a d)" by (simp add: wilder_step_averages)
  with Cons show ?case by (simp add: rsiFromAverages_value)
qed (simp add: rsiFromAverages_value)

definition priced :: "f64 \<Rightarrow> bool" where
  \<comment> \<open>a close in a range in which no sum overflows\<close>
  "priced c \<longleftrightarrow> fin c \<and> \<bar>val c\<bar> \<le> 2 ^ 1000"

lemma move_moves: "priced a \<Longrightarrow> priced b \<Longrightarrow> moves (b - a)"
proof -
  assume "priced a" "priced b"
  then have f: "fin a" "fin b" and "\<bar>val b - val a\<bar> \<le> 2 ^ 1000 + 2 ^ 1000"
    by (auto simp: priced_def)
  moreover have "(2::rat) ^ 1000 + 2 ^ 1000 = move_bound" by (simp add: move_bound_def)
  ultimately have "- move_bound \<le> val b + - val a" "val b + - val a \<le> move_bound" by (simp_all only: abs_le_iff) linarith+
  moreover have "moves FNegZero" by (simp add: moves_def f64_ops_def move_bound_def)
  ultimately show ?thesis using move_bound_rep [of 1] f
    by (simp add: fsub_eq fadd_fin moves_def le_fl_rep fl_le_rep)
qed

lemma deltas_moves: "\<forall>c\<in>set cs. priced c \<Longrightarrow> \<forall>d\<in>set (deltas cs). moves d"
  by (induction cs rule: deltas.induct) (simp_all add: move_moves)

lemma wilderRSI_values:
  assumes "2 \<le> period" "period \<le> 500" "\<forall>c\<in>set closes. priced c"
  shows "\<forall>x\<in>set (wilderRSI closes period). rsi_value x"
proof (cases "period < int (length closes)")
  case True
  obtain g l where gl: "foldl gain_loss (0, 0) (take (nat period) (deltas closes)) = (g, l)" by fastforce
  have nn: "\<forall>d\<in>set (deltas closes). moves d" using assms(3) by (rule deltas_moves)
  have len: "int (length (take (nat period) (deltas closes))) = period" using True assms(1) by (simp add: length_deltas)
  have "up_to (0 + int (length (take (nat period) (deltas closes)))) g \<and> up_to (0 + int (length (take (nat period) (deltas closes)))) l"
    by (rule sums_up_to [OF _ _ _ _ _ gl]) (use nn assms len in \<open>auto intro!: up_to_zero dest: in_set_takeD\<close>)
  then have "averages (g / fint period, l / fint period)"
    using assms unfolding len by (simp add: averages_def fint_pos up_to_div)
  then have "\<forall>x\<in>set (rsi_run period (g / fint period, l / fint period) (drop (nat period) (deltas closes))). rsi_value x"
    using assms nn by (intro rsi_run_values) (auto dest: in_set_dropD)
  moreover have "rsi_value 0" by (simp add: rsi_value_def f64_ops_def)
  ultimately show ?thesis using True assms by (simp add: wilderRSI_def Let_def gl)
next
  case False
  have "rsi_value 0" by (simp add: rsi_value_def f64_ops_def)
  with False assms show ?thesis by (simp add: wilderRSI_def)
qed

text \<open>The degenerate windows: closes that never fall have an average loss of zero for ever, and
  closes that never rise an average gain of zero.\<close>

definition zero_avg :: "bool \<Rightarrow> f64 \<times> f64 \<Rightarrow> bool" where
  "zero_avg gains a \<longleftrightarrow> feq (if gains then fst a else snd a) 0"

definition one_way :: "bool \<Rightarrow> f64 \<Rightarrow> bool" where
  \<comment> \<open>no gain, or no loss\<close>
  "one_way gains d \<longleftrightarrow> (if gains then d \<le> 0 else 0 \<le> d)"

lemma zero_fl: "feq x 0 \<Longrightarrow> feq y 0 \<Longrightarrow> feq (x + y) 0" "feq x 0 \<Longrightarrow> feq (x * FNum n) 0" "feq x 0 \<Longrightarrow> n \<noteq> 0 \<Longrightarrow> feq (x / FNum n) 0"
  by (auto simp: feq_zero_iff fadd_fin fmul_fin fdiv_fin fl_def)

lemma one_way_cases: "one_way gains d \<Longrightarrow> if gains then \<not> 0 < d else 0 < d \<or> feq (- d) 0"
  by (cases d) (auto simp: one_way_def feq_def f64_ops_def split: if_splits)

lemma gain_loss_one_way: "one_way gains d \<Longrightarrow> zero_avg gains a \<Longrightarrow> zero_avg gains (gain_loss a d)"
  by (cases a; cases gains) (auto simp: zero_avg_def gain_loss_def intro!: zero_fl dest: one_way_cases)

lemma wilder_step_one_way:
  assumes "2 \<le> period" "period \<le> 500" "one_way gains d" "zero_avg gains a"
  shows "zero_avg gains (wilder_step period a d)"
proof -
  have p: "fint (period - 1) = FNum (of_int (period - 1))" "fint period = FNum (of_int period)"
    using assms by (simp_all add: fint_pos)
  have z: "feq 0 0" by (simp add: feq_def)
  show ?thesis using assms(1,3,4) one_way_cases [OF assms(3)] z unfolding wilder_step_def p
    by (cases a; cases gains; cases "0 < d") (auto simp: zero_avg_def intro!: zero_fl)
qed

lemma zero_avg_reading: "zero_avg gains a \<Longrightarrow>
    rsiFromAverages (fst a) (snd a) = FNum 50 \<or> rsiFromAverages (fst a) (snd a) = (if gains then 0 else FNum 100)"
  by (cases gains) (auto simp: zero_avg_def rsiFromAverages_def)

lemma rsi_run_one_way:
  "2 \<le> period \<Longrightarrow> period \<le> 500 \<Longrightarrow> zero_avg gains a \<Longrightarrow> \<forall>d\<in>set ds. one_way gains d
    \<Longrightarrow> \<forall>x\<in>set (rsi_run period a ds). x = FNum 50 \<or> x = (if gains then 0 else FNum 100)"
proof (induction ds arbitrary: a)
  case (Cons d ds)
  then have "zero_avg gains (wilder_step period a d)" by (simp add: wilder_step_one_way)
  with Cons show ?case using zero_avg_reading [of gains a] by simp
qed (use zero_avg_reading in simp)

lemma deltas_one_way:
  "\<forall>c\<in>set cs. fin c \<Longrightarrow> \<forall>j. Suc j < length cs \<longrightarrow> (if gains then cs ! Suc j \<le> cs ! j else cs ! j \<le> cs ! Suc j)
    \<Longrightarrow> \<forall>d\<in>set (deltas cs). one_way gains d"
proof (induction cs rule: deltas.induct)
  case (1 a b rest)
  have "if gains then b \<le> a else a \<le> b" using "1.prems"(2) by (auto dest: spec [of _ 0])
  then have "one_way gains (b - a)" using "1.prems"(1)
    by (auto simp: one_way_def fsub_eq fadd_fin f64_le_fin fl_nonneg fl_nonpos split: if_splits)
  moreover have "\<forall>j. Suc j < length (b # rest) \<longrightarrow> (if gains then (b # rest) ! Suc j \<le> (b # rest) ! j else (b # rest) ! j \<le> (b # rest) ! Suc j)"
    using "1.prems"(2) by (metis length_Cons nth_Cons_Suc Suc_less_eq)
  ultimately show ?case using 1 by simp
qed simp_all

lemma wilderRSI_one_way:
  assumes "2 \<le> period" "period \<le> 500" "\<forall>c\<in>set cs. fin c" "period < int (length cs)"
    and "\<forall>j. Suc j < length cs \<longrightarrow> (if gains then cs ! Suc j \<le> cs ! j else cs ! j \<le> cs ! Suc j)"
  shows "\<forall>x\<in>set (drop (nat period) (wilderRSI cs period)). x = FNum 50 \<or> x = (if gains then 0 else FNum 100)"
proof -
  have ds: "\<forall>d\<in>set (deltas cs). one_way gains d" using deltas_one_way [OF assms(3,5)] .
  obtain g l where gl: "foldl gain_loss (0, 0) (take (nat period) (deltas cs)) = (g, l)" by fastforce
  have "zero_avg gains (foldl gain_loss (0, 0) (take (nat period) (deltas cs)))"
    by (rule foldl_invariant) (use ds in \<open>auto simp: zero_avg_def [of _ "(0, 0)"] feq_def dest!: in_set_takeD intro: gain_loss_one_way\<close>)
  then have "zero_avg gains (g / fint period, l / fint period)"
    using assms unfolding gl by (cases gains) (simp_all add: zero_avg_def fint_pos zero_fl)
  moreover have "\<forall>d\<in>set (drop (nat period) (deltas cs)). one_way gains d" using ds by (auto dest: in_set_dropD)
  ultimately have "\<forall>x\<in>set (rsi_run period (g / fint period, l / fint period) (drop (nat period) (deltas cs))).
      x = FNum 50 \<or> x = (if gains then 0 else FNum 100)"
    by (rule rsi_run_one_way [OF assms(1,2)])
  then show ?thesis using assms(1,4) by (simp add: wilderRSI_def Let_def gl)
qed

end
