(* ===== verification/SimulatorLedger.thy ===== *)
theory SimulatorLedger
  imports SimulatorFacts
begin

text \<open>
  The money of a simulation: the pool and the holdings are never negative, every fill is
  justified by the signal of the previous bar, buys and sells of a symbol pair up, and a
  run of one symbol is the all-in simulation of the whole balance. The metrics read off the
  trade log stay in range.
\<close>

section \<open>No overdraft\<close>

definition not_negative :: "f64 \<Rightarrow> bool" where
  \<comment> \<open>a NaN can only come from an overflow: infinity minus infinity\<close>
  "not_negative x \<longleftrightarrow> x = NaN \<or> 0 \<le> x"

lemma not_negative_iff: "not_negative x \<longleftrightarrow> \<not> x < 0"
  using f64_not_less [of x 0] by (cases "x = NaN") (simp_all add: not_negative_def)

lemma not_negative_add: "not_negative a \<Longrightarrow> not_negative b \<Longrightarrow> not_negative (a + b)"
  by (auto simp: not_negative_def f64_add_nonneg)

lemma not_negative_mul: "not_negative a \<Longrightarrow> 0 < b \<Longrightarrow> fin b \<Longrightarrow> not_negative (a * b)"
  by (auto simp: not_negative_def f64_mul_nonneg_pos)

lemma not_negative_div: "not_negative a \<Longrightarrow> 0 < b \<Longrightarrow> fin b \<Longrightarrow> not_negative (a / b)"
  by (auto simp: not_negative_def f64_div_nonneg)

lemma fmin_le: "fmin a b = NaN \<or> fmin a b \<le> a"
  by (cases a; cases b) (auto simp: f64_ops_def)

lemma not_negative_spend:
  assumes "not_negative c"
  shows "not_negative (c - fmin c t)"
proof (cases "fmin c t = NaN")
  case True then show ?thesis by (cases c) (simp_all add: not_negative_def f64_ops_def)
next
  case False
  then have le: "fmin c t \<le> c" using fmin_le [of c t] by simp
  show ?thesis
  proof (cases "fin (fmin c t)")
    case True then show ?thesis using f64_sub_nonneg [OF le] by (simp add: not_negative_def)
  next
    case False
    then show ?thesis using le \<open>fmin c t \<noteq> NaN\<close> assms
      by (cases c; cases t) (auto simp: not_negative_def f64_ops_def split: if_splits)
  qed
qed

definition prices_ok :: "gostr list \<Rightarrow> bar list list \<Rightarrow> bool" where
  "prices_ok symbols bars \<longleftrightarrow> (\<forall>s<length symbols. \<forall>b\<in>set (bars ! s).
     0 < Open b \<and> fin (Open b) \<and> 0 < Close b \<and> fin (Close b))"

definition shaped :: "gostr list \<Rightarrow> bar list list \<Rightarrow> bool" where
  \<comment> \<open>one row of the common length per symbol\<close>
  "shaped symbols bars \<longleftrightarrow> length bars = length symbols \<and> (\<forall>s<length symbols. length (bars ! s) = bar_count symbols bars)"

definition funded :: "nat \<Rightarrow> sim_state \<Rightarrow> bool" where
  "funded n st \<longleftrightarrow> not_negative (cash st) \<and> length (quantity st) = n \<and> length (avgCost st) = n
     \<and> (\<forall>q\<in>set (quantity st). not_negative q)"

lemma funded_nth: "funded n st \<Longrightarrow> s < n \<Longrightarrow> not_negative (quantity st ! s)"
  by (auto simp: funded_def)

lemma all_update: "\<forall>q\<in>set xs. P q \<Longrightarrow> P v \<Longrightarrow> \<forall>q\<in>set (xs[i := v]). P q"
  using set_update_subset_insert [of xs i v] by blast

lemma funded_sell:
  assumes "funded (length symbols) st" "s < length symbols" "0 < Open (bars ! s ! i)" "fin (Open (bars ! s ! i))"
  shows "funded (length symbols) (sim_sell symbols bars signals i st s)"
proof -
  have "not_negative (cash st + quantity st ! s * Open (bars ! s ! i))"
    using assms by (intro not_negative_add not_negative_mul funded_nth) (simp_all add: funded_def)
  moreover have "\<forall>q\<in>set ((quantity st)[s := 0]). not_negative q"
    using assms by (intro all_update) (simp_all add: funded_def not_negative_def)
  ultimately show ?thesis using assms(1) by (simp add: sim_sell_def Let_def funded_def)
qed

lemma funded_buy:
  assumes "funded (length symbols) st" "s < length symbols" "0 < Open (bars ! s ! i)" "fin (Open (bars ! s ! i))"
  shows "funded (length symbols) (sim_buy symbols bars signals i target st s)"
proof -
  let ?spend = "fmin (cash st) target"
  have "not_negative (cash st - ?spend)" using assms(1) by (intro not_negative_spend) (simp add: funded_def)
  moreover have "\<forall>q\<in>set ((quantity st)[s := ?spend / Open (bars ! s ! i)]). not_negative q" if "\<not> ?spend \<le> 0"
  proof -
    have "not_negative ?spend" using that f64_not_le [of ?spend 0]
      by (cases "?spend = NaN") (auto simp: not_negative_def intro: f64_less_imp_le)
    then show ?thesis using assms by (intro all_update not_negative_div) (simp_all add: funded_def)
  qed
  ultimately show ?thesis using assms(1) by (simp add: sim_buy_def Let_def funded_def)
qed

lemma funded_run:
  assumes "not_negative capital" "prices_ok symbols bars" "shaped symbols bars" "k \<le> bar_count symbols bars"
  shows "funded (length symbols) (fst (sim_run symbols bars signals capital k))"
proof (rule sim_run_invariant)
  show "funded (length symbols) (sim_start (length symbols) capital)"
    using assms(1) by (simp add: funded_def sim_start_def not_negative_def)
  have pos: "0 < Open (bars ! s ! i) \<and> fin (Open (bars ! s ! i))" if "s < length symbols" "i < k" for s i
    using assms that by (simp add: prices_ok_def shaped_def)
  show "funded (length symbols) (sim_sell symbols bars signals i st s)"
    if "s < length symbols" "0 < i" "i < k" "funded (length symbols) st" for st s i
    using that pos by (intro funded_sell) simp_all
  show "funded (length symbols) (sim_buy symbols bars signals i target st s)"
    if "s < length symbols" "0 < i" "i < k" "funded (length symbols) st" for target st s i
    using that pos by (intro funded_buy) simp_all
qed

lemma worth_not_negative:
  assumes "funded n st" "\<And>s. s < n \<Longrightarrow> 0 < price (bars ! s ! i) \<and> fin (price (bars ! s ! i))"
  shows "not_negative (worth price n bars i st)"
  unfolding worth_def using assms
  by (intro foldl_invariant [where P = not_negative] not_negative_add not_negative_mul funded_nth)
    (auto simp: funded_def)

lemma equity_not_negative:
  assumes "not_negative capital" "prices_ok symbols bars" "shaped symbols bars" "k \<le> bar_count symbols bars"
  shows "\<forall>e\<in>set (snd (sim_run symbols bars signals capital k)). not_negative e"
  using assms(4)
proof (induction k)
  case (Suc k)
  obtain st eq where r: "sim_run symbols bars signals capital k = (st, eq)" by fastforce
  have f: "funded (length symbols) (sim_bar symbols bars signals k st)"
    using funded_run [OF assms(1-3) Suc.prems, of signals] by (simp add: sim_run_Suc r sim_step_def Let_def)
  have "not_negative (worth Close (length symbols) bars k (sim_bar symbols bars signals k st))"
    by (rule worth_not_negative [OF f]) (use assms Suc.prems in \<open>auto simp: prices_ok_def shaped_def\<close>)
  then show ?case using Suc by (auto simp: sim_run_Suc r sim_step_def Let_def)
qed (simp add: sim_run_0)

section \<open>Every fill answers the signal of the previous bar\<close>

definition justified :: "gostr list \<Rightarrow> bar list list \<Rightarrow> signal list list \<Rightarrow> trade_record \<Rightarrow> bool" where
  "justified symbols bars signals t \<longleftrightarrow> (\<exists>s<length symbols. \<exists>i<bar_count symbols bars. 0 < i
     \<and> tr_symbol t = symbols ! s \<and> tr_time t = Timestamp (bars ! s ! i) \<and> tr_price t = Open (bars ! s ! i)
     \<and> signals ! s ! (i - 1) = (case tr_side t of SideBuy \<Rightarrow> SignalBuy | SideSell \<Rightarrow> SignalSell))"

lemma justified_run:
  "\<forall>t\<in>set (trades (fst (sim_run symbols bars signals capital (bar_count symbols bars)))). justified symbols bars signals t"
proof (rule sim_run_invariant [where P = "\<lambda>st. \<forall>t\<in>set (trades st). justified symbols bars signals t"])
  show "\<forall>t\<in>set (trades (sim_sell symbols bars signals i st s)). justified symbols bars signals t"
    if "s < length symbols" "0 < i" "i < bar_count symbols bars" "\<forall>t\<in>set (trades st). justified symbols bars signals t" for st s i
    using that by (auto simp: sim_sell_def Let_def justified_def)
  show "\<forall>t\<in>set (trades (sim_buy symbols bars signals i target st s)). justified symbols bars signals t"
    if "s < length symbols" "0 < i" "i < bar_count symbols bars" "\<forall>t\<in>set (trades st). justified symbols bars signals t" for target st s i
    using that by (auto simp: sim_buy_def Let_def justified_def)
qed (simp add: sim_start_def)

section \<open>Round trips\<close>

definition last_trade :: "gostr \<Rightarrow> trade_record list \<Rightarrow> trade_record option" where
  "last_trade symb ts = find (\<lambda>t. tr_symbol t = symb) (rev ts)"

definition closes_position :: "trade_record option \<Rightarrow> trade_record \<Rightarrow> bool" where
  "closes_position before t \<longleftrightarrow> (\<exists>b. before = Some b \<and> tr_side b = SideBuy \<and> tr_quantity t = tr_quantity b
     \<and> tr_realized_pl t = Some ((tr_price t - tr_price b) * tr_quantity b))"

definition opens_position :: "trade_record option \<Rightarrow> trade_record \<Rightarrow> bool" where
  \<comment> \<open>flat before it: no trade yet, or a sell, or a buy too small to hold anything\<close>
  "opens_position before t \<longleftrightarrow> tr_realized_pl t = None
     \<and> (\<forall>b. before = Some b \<and> tr_side b = SideBuy \<longrightarrow> feq (tr_quantity b) 0)"

definition fits_log :: "trade_record list \<Rightarrow> trade_record \<Rightarrow> bool" where
  "fits_log earlier t \<longleftrightarrow> (let before = last_trade (tr_symbol t) earlier in
     case tr_side t of SideSell \<Rightarrow> closes_position before t | SideBuy \<Rightarrow> opens_position before t)"

definition paired :: "trade_record list \<Rightarrow> bool" where
  "paired ts \<longleftrightarrow> (\<forall>k<length ts. fits_log (take k ts) (ts ! k))"

definition holding_of :: "trade_record option \<Rightarrow> f64 \<times> f64" where
  "holding_of before = (case before of Some b \<Rightarrow> (if tr_side b = SideBuy then (tr_quantity b, tr_price b) else (0, 0)) | None \<Rightarrow> (0, 0))"

definition tracked :: "gostr list \<Rightarrow> sim_state \<Rightarrow> bool" where
  "tracked symbols st \<longleftrightarrow> length (quantity st) = length symbols \<and> length (avgCost st) = length symbols
     \<and> (\<forall>s<length symbols. (quantity st ! s, avgCost st ! s) = holding_of (last_trade (symbols ! s) (trades st)))
     \<and> paired (trades st)"

lemma last_trade_snoc: "last_trade symb (ts @ [t]) = (if tr_symbol t = symb then Some t else last_trade symb ts)"
  by (simp add: last_trade_def)

lemma paired_snoc: "paired (ts @ [t]) \<longleftrightarrow> paired ts \<and> fits_log ts t"
  unfolding paired_def length_append_singleton All_less_Suc by (auto simp: nth_append)

lemma feq_0_0 [simp]: "feq 0 0"
  by (simp add: feq_def)

lemma held_is_bought:
  assumes "(q, a) = holding_of before" "\<not> feq q 0"
  obtains b where "before = Some b" "tr_side b = SideBuy" "q = tr_quantity b" "a = tr_price b"
  using assms that by (auto simp: holding_of_def split: option.splits if_splits)

lemma tracked_sell:
  assumes t: "tracked symbols st" and s: "s < length symbols" and d: "distinct symbols"
  shows "tracked symbols (sim_sell symbols bars signals i st s)"
proof (cases "signals ! s ! (i - 1) \<noteq> SignalSell \<or> feq (quantity st ! s) 0")
  case False
  then obtain b where b: "last_trade (symbols ! s) (trades st) = Some b" "tr_side b = SideBuy"
      "quantity st ! s = tr_quantity b" "avgCost st ! s = tr_price b"
    using t s by (auto simp: tracked_def elim: held_is_bought)
  show ?thesis using False t s d b
    by (auto simp: sim_sell_def Let_def tracked_def last_trade_snoc paired_snoc fits_log_def closes_position_def holding_of_def nth_list_update
        nth_eq_iff_index_eq)
qed (use t in \<open>simp add: sim_sell_def\<close>)

lemma tracked_buy:
  assumes t: "tracked symbols st" and s: "s < length symbols" and d: "distinct symbols"
  shows "tracked symbols (sim_buy symbols bars signals i target st s)"
proof (cases "signals ! s ! (i - 1) \<noteq> SignalBuy \<or> \<not> feq (quantity st ! s) 0 \<or> fmin (cash st) target \<le> 0")
  case False
  have h: "(quantity st ! s, avgCost st ! s) = holding_of (last_trade (symbols ! s) (trades st))"
    using t s by (simp add: tracked_def)
  then have "feq (tr_quantity b) 0" if "last_trade (symbols ! s) (trades st) = Some b" "tr_side b = SideBuy" for b
    using False that by (simp add: holding_of_def)
  then show ?thesis using False t s d
    by (auto simp: sim_buy_def Let_def tracked_def last_trade_snoc paired_snoc fits_log_def opens_position_def holding_of_def nth_list_update
        nth_eq_iff_index_eq)
qed (use t in \<open>auto simp: sim_buy_def Let_def\<close>)

lemma tracked_run: "distinct symbols \<Longrightarrow> tracked symbols (fst (sim_run symbols bars signals capital k))"
  by (rule sim_run_invariant [where P = "tracked symbols"])
    (simp_all add: tracked_sell tracked_buy, simp add: tracked_def sim_start_def last_trade_def holding_of_def paired_def)

section \<open>One symbol: the all-in simulation\<close>

definition all_in_bar :: "gostr \<Rightarrow> bar list \<Rightarrow> signal list \<Rightarrow> sim_state \<Rightarrow> nat \<Rightarrow> sim_state" where
  "all_in_bar symb bars signals st i =
     (let bar = bars ! i; q = quantity st ! 0; c = cash st in
      if i = 0 then st
      else if signals ! (i - 1) = SignalSell \<and> \<not> feq q 0 then
        \<lparr>cash = c + q * Open bar, quantity = [0], avgCost = [0], trades = trades st @
          [\<lparr>tr_symbol = symb, tr_side = SideSell, tr_time = Timestamp bar, tr_price = Open bar, tr_quantity = q,
            tr_realized_pl = Some ((Open bar - avgCost st ! 0) * q)\<rparr>]\<rparr>
      else if signals ! (i - 1) = SignalBuy \<and> feq q 0 \<and> \<not> c \<le> 0 then
        \<lparr>cash = c - c, quantity = [c / Open bar], avgCost = [Open bar], trades = trades st @
          [\<lparr>tr_symbol = symb, tr_side = SideBuy, tr_time = Timestamp bar, tr_price = Open bar,
            tr_quantity = c / Open bar, tr_realized_pl = None\<rparr>]\<rparr>
      else st)"

definition all_in_step :: "gostr \<Rightarrow> bar list \<Rightarrow> signal list \<Rightarrow> sim_state \<times> f64 list \<Rightarrow> nat \<Rightarrow> sim_state \<times> f64 list" where
  "all_in_step symb bars signals = (\<lambda>(st, equity) i. let st' = all_in_bar symb bars signals st i
     in (st', equity @ [cash st' + quantity st' ! 0 * Close (bars ! i)]))"

definition simulate_all_in :: "gostr \<Rightarrow> bar list \<Rightarrow> signal list \<Rightarrow> f64 \<Rightarrow> simulation_result" where
  \<comment> \<open>a reference simulator: the whole balance goes in on a buy and comes out on a sell\<close>
  "simulate_all_in symb bars signals capital =
     (let (st, equity) = foldl (all_in_step symb bars signals) (sim_start 1 capital, []) [0..<length bars]
      in \<lparr>Trades = trades st, EquityCurve = equity, FinalEquity = (if equity \<noteq> [] then last equity else capital)\<rparr>)"

lemma fl_representable: "wf64 (FNum r) \<Longrightarrow> r \<noteq> 0 \<Longrightarrow> fl s r = FNum r"
  by (simp add: wf64_def fl_rep)

lemma whole_target:
  assumes "feq q 0" "fin p" "wf64 c"
  shows "c \<le> 0 \<Longrightarrow> fmin c ((c + q * p) / fint 1) \<le> 0"
    and "\<not> c \<le> 0 \<Longrightarrow> fmin c ((c + q * p) / fint 1) = c"
proof -
  have q: "fin q" "val q = 0" using assms(1) by (simp_all add: feq_zero_iff)
  then obtain s where z: "q * p = fl s 0" using assms(2) by (simp add: fmul_fin)
  have f1: "fint 1 = FNum 1" by (simp add: fcalc)
  have z': "q * p = FNegZero \<or> q * p = FNum 0" using z by (simp add: fl_def)
  show "c \<le> 0 \<Longrightarrow> fmin c ((c + q * p) / fint 1) \<le> 0"
    using z' assms(3) unfolding f1
    by (cases c) (auto simp: f64_ops_def fl_representable fl_def wf64_def rnd_representable Let_def split: if_splits)
  show "\<not> c \<le> 0 \<Longrightarrow> fmin c ((c + q * p) / fint 1) = c"
    using z' assms(3) unfolding f1
    by (cases c) (auto simp: f64_ops_def fl_representable)
qed

definition one_row :: "sim_state \<Rightarrow> bool" where
  "one_row st \<longleftrightarrow> wf64 (cash st) \<and> wf64 (quantity st ! 0) \<and> length (quantity st) = 1 \<and> length (avgCost st) = 1"

lemma single_list: "length xs = 1 \<Longrightarrow> xs = [xs ! 0]"
  by (cases xs) auto

lemma sim_bar_single:
  assumes st: "one_row st" and opn: "fin (Open (bars ! i))"
  shows "sim_bar [symb] [bars] [signals] i st = all_in_bar symb bars signals st i \<and> one_row (all_in_bar symb bars signals st i)"
proof -
  have upd: "(quantity st)[0 := x] = [x]" "(avgCost st)[0 := x] = [x]" for x
    using st by (cases "quantity st"; cases "avgCost st"; auto simp: one_row_def)+
  have nn: "[0..<1] = [0::nat]" by simp
  consider "i = 0" | "0 < i" "signals ! (i - 1) = SignalSell" "\<not> feq (quantity st ! 0) 0"
    | "0 < i" "signals ! (i - 1) = SignalBuy" "feq (quantity st ! 0) 0"
    | "0 < i" "signals ! (i - 1) = SignalSell \<longrightarrow> feq (quantity st ! 0) 0" "signals ! (i - 1) = SignalBuy \<longrightarrow> \<not> feq (quantity st ! 0) 0"
    by (cases "signals ! (i - 1)") auto
  then show ?thesis
  proof cases
    case 1 then show ?thesis using st by (simp add: sim_bar_def all_in_bar_def Let_def)
  next
    case 2 then show ?thesis using st
      by (simp add: sim_bar_def all_in_bar_def Let_def sim_sell_def sim_buy_def upd one_row_def)
  next
    case 3
    have w: "wf64 (cash st)" using st by (simp add: one_row_def)
    note t = whole_target [OF 3(3) opn w]
    show ?thesis
    proof (cases "cash st \<le> 0")
      case True
      then show ?thesis using 3 st t(1) by (simp add: sim_bar_def all_in_bar_def Let_def sim_sell_def sim_buy_def worth_def)
    next
      case False
      then show ?thesis using 3 st t(2)
        by (simp add: sim_bar_def all_in_bar_def Let_def sim_sell_def sim_buy_def worth_def upd one_row_def)
    qed
  next
    case 4 then show ?thesis using st
      by (cases "signals ! (i - 1)") (simp_all add: sim_bar_def all_in_bar_def Let_def sim_sell_def sim_buy_def)
  qed
qed

lemma sim_run_single:
  assumes "wf64 capital" "\<forall>b\<in>set bars. fin (Open b)" "k \<le> length bars"
  shows "sim_run [symb] [bars] [signals] capital k = foldl (all_in_step symb bars signals) (sim_start 1 capital, []) [0..<k]
    \<and> one_row (fst (sim_run [symb] [bars] [signals] capital k))"
  using assms(3)
proof (induction k)
  case (Suc k)
  obtain st eq where r: "sim_run [symb] [bars] [signals] capital k = (st, eq)" by fastforce
  then have "one_row st" "fin (Open (bars ! k))" using Suc assms(2) by auto
  note bar = sim_bar_single [OF this, of symb signals]
  have f: "foldl (all_in_step symb bars signals) (sim_start 1 capital, []) [0..<k] = (st, eq)"
    using Suc r by simp
  have step: "all_in_step symb bars signals (st, eq) k = sim_step [symb] [bars] [signals] (st, eq) k"
    using bar by (simp add: all_in_step_def sim_step_def Let_def worth_def)
  have "sim_run [symb] [bars] [signals] capital (Suc k) = sim_step [symb] [bars] [signals] (st, eq) k"
    by (simp add: sim_run_Suc r)
  moreover have "foldl (all_in_step symb bars signals) (sim_start 1 capital, []) [0..<Suc k]
      = all_in_step symb bars signals (st, eq) k"
    using f by simp
  moreover have "one_row (fst (sim_step [symb] [bars] [signals] (st, eq) k))"
    using bar by (simp add: sim_step_def Let_def)
  ultimately show ?case using step by simp
qed (simp add: sim_run_0 one_row_def sim_start_def assms(1))

lemma SimulatePortfolio_single:
  assumes "wf64 capital" "\<forall>b\<in>set bars. fin (Open b)"
  shows "SimulatePortfolio [symb] [bars] [signals] capital = simulate_all_in symb bars signals capital"
  using sim_run_single [OF assms order_refl, of symb signals]
  by (simp add: SimulatePortfolio_run simulate_all_in_def bar_count_def)

section \<open>Metrics\<close>

lemma fint_mono: "m \<le> n \<Longrightarrow> fint m \<le> fint n"
  by (simp add: fint_def fl_le_fl)

lemma tally_counts:
  "closed y \<ge> wins y \<and> wins y \<ge> 0 \<Longrightarrow> not_negative (grossGain y) \<and> not_negative (grossLoss y) \<Longrightarrow>
   (let y' = foldl tally_trade y ts in wins y' \<le> closed y' \<and> 0 \<le> wins y' \<and> closed y' \<le> closed y + int (length ts)
     \<and> not_negative (grossGain y') \<and> not_negative (grossLoss y'))"
proof (induction ts arbitrary: y)
  case (Cons t ts)
  have neg: "not_negative (- pl)" if "pl < 0" for pl :: f64
    using that delta_signs [of pl] f64_less_asym [of pl 0] f64_less_not_NaN [OF that]
    by (auto simp: not_negative_def dest: f64_less_imp_le)
  have pos: "not_negative pl" if "pl > 0" for pl :: f64
    using that by (simp add: not_negative_def f64_less_imp_le)
  have "wins (tally_trade y t) \<le> closed (tally_trade y t) \<and> 0 \<le> wins (tally_trade y t)
      \<and> closed (tally_trade y t) \<le> closed y + 1
      \<and> not_negative (grossGain (tally_trade y t)) \<and> not_negative (grossLoss (tally_trade y t))"
    using Cons.prems by (auto simp: tally_trade_def Let_def neg pos not_negative_add split: option.split)
  then show ?case using Cons.IH [of "tally_trade y t"] by (simp add: Let_def)
qed simp

lemma tradeStats_range:
  assumes "int (length ts) \<le> 2 ^ 53"
  shows "0 \<le> fst (tradeStats ts) \<and> fst (tradeStats ts) \<le> FNum 100"
    and "\<And>pf. snd (tradeStats ts) = Some pf \<Longrightarrow> not_negative pf"
proof -
  define y where "y = foldl tally_trade \<lparr>closed = 0, wins = 0, grossGain = 0, grossLoss = 0\<rparr> ts"
  have y: "wins y \<le> closed y" "0 \<le> wins y" "closed y \<le> 2 ^ 53" "not_negative (grossGain y)" "not_negative (grossLoss y)"
    using tally_counts [of "\<lparr>closed = 0, wins = 0, grossGain = 0, grossLoss = 0\<rparr>" ts] assms
    by (simp_all add: y_def [symmetric] Let_def not_negative_def)
  have h: "0 \<le> FNum 100" by (simp add: f64_ops_def)
  have r: "0 \<le> fint (wins y) / fint (closed y) * FNum 100 \<and> fint (wins y) / fint (closed y) * FNum 100 \<le> FNum 100"
    if "closed y \<noteq> 0"
  proof -
    have c: "fint (closed y) = FNum (of_int (closed y))" using y that by (intro fint_pos) simp_all
    then have c': "0 < fint (closed y)" "fin (fint (closed y))" using y that by (simp_all add: f64_ops_def)
    have w: "0 \<le> fint (wins y)" using fint_mono [OF y(2)] by (simp add: fcalc)
    have q: "0 \<le> fint (wins y) / fint (closed y)" "fint (wins y) / fint (closed y) \<le> 1"
      using w c' fint_mono [OF y(1)] by (auto intro: f64_div_nonneg f64_div_le_one)
    have "fin (fint (wins y) / fint (closed y))" by (rule fin_between [OF q]) simp_all
    then show ?thesis using q h by (auto intro: f64_mul_nonneg f64_mul_le_hundred)
  qed
  show "0 \<le> fst (tradeStats ts) \<and> fst (tradeStats ts) \<le> FNum 100"
    using r h by (simp add: tradeStats_def y_def [symmetric] Let_def)
  show "not_negative pf" if "snd (tradeStats ts) = Some pf" for pf
  proof -
    have pf: "pf = grossGain y / grossLoss y" "\<not> feq (grossLoss y) 0"
      using that by (auto simp: tradeStats_def y_def [symmetric] Let_def split: if_splits)
    show ?thesis
    proof (cases "grossGain y = NaN \<or> grossLoss y = NaN")
      case False
      then have g: "0 \<le> grossGain y" "0 \<le> grossLoss y" using y by (simp_all add: not_negative_def)
      then have l: "0 < grossLoss y" using pf(2) f64_not_le [of "grossLoss y" 0] False by (auto simp: feq_def)
      show ?thesis
      proof (cases "fin (grossGain y) \<or> fin (grossLoss y)")
        case True then show ?thesis using g l by (simp add: pf not_negative_def f64_div_nonneg)
      next
        case False
        with g show ?thesis by (cases "grossGain y"; cases "grossLoss y") (auto simp: pf not_negative_def f64_ops_def)
      qed
    qed (auto simp: pf not_negative_def)
  qed
qed

end
