(* ===== verification/AlignFacts.thy ===== *)
theory AlignFacts
  imports SimulatorFacts SimulatorLedger
begin

text \<open>
  The timeline \<open>alignBars\<close> builds: its rows are the columns of complete days, each column
  holds one bar of every symbol for the same day, and the days are exactly those every
  symbol has a bar for inside the range.
\<close>

lemma index_by_day_snoc: "index_by_day (bs @ [b]) = (index_by_day bs)(dayKey (Timestamp b) \<mapsto> b)"
  by (simp add: index_by_day_def)

lemma index_by_day_SomeD: "index_by_day bs key = Some b \<Longrightarrow> b \<in> set bs \<and> dayKey (Timestamp b) = key"
proof (induction bs rule: rev_induct)
  case (snoc x bs)
  then show ?case by (auto simp: index_by_day_snoc split: if_splits)
qed (simp add: index_by_day_def)

lemma index_by_day_dom: "dom (index_by_day bs) = (\<lambda>b. dayKey (Timestamp b)) ` set bs"
proof (induction bs rule: rev_induct)
  case (snoc b bs)
  then show ?case unfolding index_by_day_snoc dom_fun_upd by simp
qed (simp add: index_by_day_def)

lemma day_matches_Some:
  "day_matches days key = Some bs \<longleftrightarrow> length bs = length days \<and> (\<forall>k<length days. (days ! k) key = Some (bs ! k))"
proof (induction days arbitrary: bs)
  case (Cons day days)
  show ?case
  proof (cases bs)
    case Nil then show ?thesis by (auto split: option.split)
  next
    case (Cons b bs')
    then show ?thesis using Cons.IH [of bs']
      by (auto simp: less_Suc_eq_0_disj split: option.split)
  qed
qed auto

lemma day_matches_dom: "day_matches days key \<noteq> None \<longleftrightarrow> (\<forall>day\<in>set days. key \<in> dom day)"
  by (induction days) (auto split: option.split)

definition columns :: "(gostr \<rightharpoonup> bar) list \<Rightarrow> bar list \<Rightarrow> bar list list" where
  "columns byDay drivers = List.map_filter (\<lambda>d. map_option ((#) d) (day_matches byDay (dayKey (Timestamp d)))) drivers"

definition rows_of :: "nat \<Rightarrow> bar list list \<Rightarrow> bar list list" where
  "rows_of n cols = map (\<lambda>s. map (\<lambda>col. col ! s) cols) [0..<n]"

lemma append_column_rows: "length col = n \<Longrightarrow> append_column (rows_of n cols) col = rows_of n (cols @ [col])"
  by (rule nth_equalityI) (simp_all add: append_column_def rows_of_def)

lemma set_columns: "col \<in> set (columns byDay drivers) \<longleftrightarrow>
    (\<exists>d\<in>set drivers. \<exists>others. day_matches byDay (dayKey (Timestamp d)) = Some others \<and> col = d # others)"
  by (induction drivers) (auto simp: columns_def map_filter_def split: option.split)

lemma align_fold:
  "foldl (\<lambda>aligned driver. case day_matches byDay (dayKey (Timestamp driver)) of
       None \<Rightarrow> aligned | Some others \<Rightarrow> append_column aligned (driver # others))
     (map (\<lambda>_. []) [0..<Suc (length byDay)]) drivers
   = rows_of (Suc (length byDay)) (columns byDay drivers)"
proof (induction drivers rule: rev_induct)
  case (snoc d ds)
  show ?case
  proof (cases "day_matches byDay (dayKey (Timestamp d))")
    case None
    then show ?thesis using snoc by (simp add: columns_def map_filter_def)
  next
    case (Some others)
    then have "length (d # others) = Suc (length byDay)" by (simp add: day_matches_Some)
    then show ?thesis using snoc Some append_column_rows
      by (simp add: columns_def map_filter_def)
  qed
qed (simp add: columns_def map_filter_def rows_of_def)

definition ranged_rows :: "(gostr \<times> bar list) list \<Rightarrow> instant \<Rightarrow> instant \<Rightarrow> bar list list" where
  "ranged_rows bars start stop = map (\<lambda>s. sliceRange (the (map_of bars s)) start stop) (sort (map fst bars))"

lemma alignBars_columns:
  assumes "bars \<noteq> []"
  shows "alignBars bars start stop = (sort (map fst bars),
    rows_of (length bars) (columns (map index_by_day (tl (ranged_rows bars start stop))) (hd (ranged_rows bars start stop))))"
proof -
  have ne: "sort (map fst bars) \<noteq> []" using assms by (metis length_map length_sort list.size(3) length_0_conv)
  have len: "length bars = Suc (length (map index_by_day (tl (ranged_rows bars start stop))))"
    using assms by (cases bars) (simp_all add: ranged_rows_def)
  have init: "map (\<lambda>_. []) (sort (map fst bars)) = map (\<lambda>_. []) [0..<length bars]"
    by (rule nth_equalityI) simp_all
  show ?thesis
    using ne align_fold [of "map index_by_day (tl (ranged_rows bars start stop))" "hd (ranged_rows bars start stop)"]
    unfolding alignBars_def Let_def ranged_rows_def [symmetric] init len by simp
qed

definition day_column :: "bar list list \<Rightarrow> bar list \<Rightarrow> bool" where
  \<comment> \<open>one bar of every row, all of one day\<close>
  "day_column rows col \<longleftrightarrow> length col = length rows \<and> (\<forall>s<length rows. col ! s \<in> set (rows ! s)
     \<and> dayKey (Timestamp (col ! s)) = dayKey (Timestamp (hd col)))"

lemma columns_day:
  assumes "col \<in> set (columns (map index_by_day (tl rows)) (hd rows))" "rows \<noteq> []"
  shows "day_column rows col \<and> hd col \<in> set (hd rows)"
proof -
  obtain d others where c: "d \<in> set (hd rows)" "col = d # others"
      "day_matches (map index_by_day (tl rows)) (dayKey (Timestamp d)) = Some others"
    using assms(1) by (auto simp: set_columns)
  obtain r rs where rows: "rows = r # rs" using assms(2) by (cases rows) auto
  have "others ! k \<in> set (rs ! k) \<and> dayKey (Timestamp (others ! k)) = dayKey (Timestamp d)" if "k < length rs" for k
    using c(3) that by (auto simp: rows day_matches_Some intro!: index_by_day_SomeD)
  moreover have "length others = length rs" using c(3) by (simp add: rows day_matches_Some)
  ultimately show ?thesis using c(1,2)
    by (auto simp: rows day_column_def nth_Cons split: nat.split)
qed

lemma columns_complete:
  assumes "rows = r # rs" "d \<in> set r" "\<forall>row\<in>set rs. \<exists>b\<in>set row. dayKey (Timestamp b) = dayKey (Timestamp d)"
  shows "\<exists>col\<in>set (columns (map index_by_day (tl rows)) (hd rows)). hd col = d"
proof -
  have "day_matches (map index_by_day rs) (dayKey (Timestamp d)) \<noteq> None"
    unfolding day_matches_dom using assms(3) by (auto simp: index_by_day_dom image_iff Bex_def) metis
  then obtain others where "day_matches (map index_by_day rs) (dayKey (Timestamp d)) = Some others" by blast
  then have "d # others \<in> set (columns (map index_by_day (tl rows)) (hd rows))"
    using assms(1,2) by (auto simp: set_columns)
  then show ?thesis by force
qed

lemma alignBars_shape:
  assumes "alignBars bars start stop = (symbols, aligned)"
  shows "symbols = sort (map fst bars)" "shaped symbols aligned"
proof -
  show s: "symbols = sort (map fst bars)" using assms by (auto simp: alignBars_def Let_def split: if_splits)
  show "shaped symbols aligned"
  proof (cases "bars = []")
    case True
    then show ?thesis using assms by (auto simp: alignBars_def shaped_def)
  next
    case False
    have ne: "symbols \<noteq> []" using False s by (metis length_map length_sort list.size(3) length_0_conv)
    show ?thesis using assms alignBars_columns [OF False, of start stop] ne False
      by (auto simp: shaped_def bar_count_def rows_of_def)
  qed
qed

end
