(* ===== verification/BacktestFacts.thy ===== *)
theory BacktestFacts
  imports BacktestService AlignFacts
begin

text \<open>
  Facts about a backtest request: normalisation only depends on the multiset of symbols, the
  fan-out reports the first failing symbol in sorted order under every schedule, a stored
  run is read back by its owner and by nobody else, and its parameters name the strategy
  that ran.
\<close>

section \<open>Symbols\<close>

definition norm_symbol :: "(rune \<Rightarrow> rune) \<Rightarrow> gostr \<Rightarrow> gostr" where
  "norm_symbol uc s = to_upper uc (trim_space s)"

lemma normalize_loop_eq:
  "distinct out \<Longrightarrow> normalize_loop uc out raw =
    (if [] \<in> norm_symbol uc ` set raw \<or> \<not> distinct (out @ map (norm_symbol uc) raw) then Inl ErrInvalidRequest
     else Inr (out @ map (norm_symbol uc) raw))"
proof (induction raw arbitrary: out)
  case (Cons s raw)
  show ?case
  proof (cases "norm_symbol uc s = [] \<or> norm_symbol uc s \<in> set out")
    case True then show ?thesis by (auto simp: norm_symbol_def Let_def)
  next
    case False
    with Cons show ?thesis by (auto simp: norm_symbol_def Let_def)
  qed
qed simp

lemma normalizeSymbols_eq:
  "normalizeSymbols uc raw =
    (if raw = [] \<or> length raw > maxSymbols \<or> [] \<in> norm_symbol uc ` set raw \<or> \<not> distinct (map (norm_symbol uc) raw)
     then Inl ErrInvalidRequest else Inr (sort (map (norm_symbol uc) raw)))"
  by (auto simp: normalizeSymbols_def normalize_loop_eq)

lemma normalizeSymbols_mset:
  assumes "mset raw = mset raw'"
  shows "normalizeSymbols uc raw = normalizeSymbols uc raw'"
proof -
  have m: "mset (map (norm_symbol uc) raw) = mset (map (norm_symbol uc) raw')" using assms by simp
  have "sort (map (norm_symbol uc) raw) = sort (map (norm_symbol uc) raw')"
    using m by (metis properties_for_sort sorted_sort mset_sort)
  moreover have "distinct (map (norm_symbol uc) raw) = distinct (map (norm_symbol uc) raw')"
    using m by (metis mset_eq_imp_distinct_iff)
  moreover have "length raw = length raw'" "set raw = set raw'" "raw = [] \<longleftrightarrow> raw' = []"
    using assms mset_eq_length [OF assms] mset_eq_setD [OF assms] by auto
  ultimately show ?thesis by (simp add: normalizeSymbols_eq)
qed

lemma normalizeSymbols_Inr:
  assumes "normalizeSymbols uc raw = Inr out"
  shows "sorted out" "distinct out" "out \<noteq> []" "length out \<le> 10" "[] \<notin> set out" "mset out = mset (map (norm_symbol uc) raw)"
  using assms by (auto simp: normalizeSymbols_eq maxSymbols_def split: if_splits)
    (metis length_sort length_map list.size(3) length_0_conv mset_sort mset_eq_length)

section \<open>The fan-out\<close>

lemma first_error_map: "first_error (map (\<lambda>x. Some (call x)) xs) = map_option projl (find (\<lambda>r. \<not> is_ok r) (map call xs))"
proof (induction xs)
  case (Cons x xs) then show ?case by (cases "call x") simp_all
qed simp

lemma slot_values: "find (\<lambda>r. \<not> is_ok r) (map call xs) = None \<Longrightarrow> map (slot_value \<circ> Some \<circ> call) xs = map (projr \<circ> call) xs"
proof (induction xs)
  case (Cons x xs) then show ?case by (cases "call x") (simp_all split: if_splits)
qed simp

lemma fetchHistories_eq:
  assumes "set sched = {..<length symbols}"
  shows "fetchHistories history symbols sched =
    (case find (\<lambda>r. \<not> is_ok r) (map history symbols) of
       Some r \<Rightarrow> Inl (projl r)
     | None \<Rightarrow> Inr (zip symbols (map (projr \<circ> history) symbols)))"
  using slot_values [of history symbols]
  by (cases "find (\<lambda>r. \<not> is_ok r) (map history symbols)")
    (simp_all add: fetchHistories_def gather_complete [OF assms] first_error_map comp_def map_idI cong: map_cong)

lemma fetchHistories_Inr:
  assumes "set sched = {..<length symbols}" "fetchHistories history symbols sched = Inr fetched"
  shows "map fst fetched = symbols" "\<forall>(s, bars)\<in>set fetched. history s = Inr bars"
proof -
  have none: "find (\<lambda>r. \<not> is_ok r) (map history symbols) = None"
    and f: "fetched = zip symbols (map (projr \<circ> history) symbols)"
    using assms(2) by (auto simp: fetchHistories_eq [OF assms(1)] split: option.splits)
  show "map fst fetched = symbols" using f by simp
  have "is_ok (history s)" if "s \<in> set symbols" for s using none that by (auto simp: find_None_iff)
  then show "\<forall>(s, bars)\<in>set fetched. history s = Inr bars"
    using f by (auto simp: set_zip is_ok_iff) (metis nth_mem sum.sel(2))
qed

section \<open>The run\<close>

lemma run_result_Inr:
  assumes "run_result params fetched = Inr (result, metrics)"
  obtains symbols aligned where "alignBars fetched (sp_start params) (sp_end params) = (symbols, aligned)"
    "shaped symbols aligned" "symbols = sort (map fst fetched)" "0 < bar_count symbols aligned"
    "WarmupBars (sp_strategy params) \<le> int (bar_count symbols aligned)"
    "result = SimulatePortfolio symbols aligned (map (GenerateSignals (sp_strategy params)) aligned) (sp_capital params)"
    "metrics = ComputeMetrics result (sp_capital params)"
proof -
  obtain symbols aligned where a: "alignBars fetched (sp_start params) (sp_end params) = (symbols, aligned)" by fastforce
  note sh = alignBars_shape [OF a]
  have n: "length aligned \<noteq> 0" "length (aligned ! 0) \<noteq> 0" "\<not> WarmupBars (sp_strategy params) > int (length (aligned ! 0))"
    using assms unfolding run_result_def a Let_def prod.case by (auto split: if_split_asm)
  define sim where "sim = SimulatePortfolio symbols aligned (map (GenerateSignals (sp_strategy params)) aligned) (sp_capital params)"
  have "run_result params fetched = Inr (sim, ComputeMetrics sim (sp_capital params))"
    using n unfolding run_result_def a Let_def prod.case sim_def by simp
  then have r: "result = sim" "metrics = ComputeMetrics sim (sp_capital params)" using assms by simp_all
  have bc: "bar_count symbols aligned = length (aligned ! 0)"
    using n(1) conjunct1 [OF sh(2) [unfolded shaped_def]] by (auto simp: bar_count_def)
  show thesis by (rule that [OF a sh(2) sh(1)]) (use n bc r in \<open>simp_all add: sim_def\<close>)
qed

lemma validateRequest_Inr:
  assumes "validateRequest uc req = Inr params"
  shows "normalizeSymbols uc (rq_symbols req) = Inr (sp_symbols params)"
    "NewStrategy (rq_strategy req) (rq_params req) = Inr (sp_strategy params)"
    "\<not> sp_capital params \<le> 0" "sp_capital params = rq_starting_capital req"
    "parse_date (rq_start_date req) = Some (sp_start params)" "parse_date (rq_end_date req) = Some (sp_end params)"
    "sp_start params < sp_end params"
  using assms by (auto simp: validateRequest_def sum_bind_eq_Inr split: if_splits option.splits)

section \<open>The store\<close>

lemma those_map_length: "those xs = Some ys \<Longrightarrow> length ys = length xs"
  by (induction xs arbitrary: ys) (auto split: option.splits)

definition fresh_run :: "uuid \<Rightarrow> bt_db \<Rightarrow> bool" where
  \<comment> \<open>what \<open>gen_random_uuid\<close> gives: an identifier no row has\<close>
  "fresh_run i db \<longleftrightarrow> (\<forall>b\<in>set (runs db). b_id b \<noteq> i) \<and> (\<forall>f\<in>set (fills db). fst f \<noteq> i)"

lemma sort_key_enumerate:
  "sort_key (\<lambda>f. fst (snd f)) (map (Pair u) (List.enumerate n ts)) = map (Pair u) (List.enumerate n ts)"
  by (rule sort_key_id_if_sorted) (simp add: comp_def case_prod_beta enumerate_eq_zip map_fst_zip [unfolded comp_def])

lemma SaveBacktest_Inr:
  assumes "SaveBacktest env b ts db = (Inr saved, db')"
  obtains row frows where "saved = b\<lparr>b_id := bp_uuid env, b_created_at := bp_now env\<rparr>"
    "store_run env saved = Some row" "store_fills env ts = Some frows"
    "db' = db\<lparr>runs := runs db @ [row],
       fills := fills db @ map (Pair (bp_uuid env)) (List.enumerate 0 frows)\<rparr>"
  using assms that
  by (auto simp: SaveBacktest_def Let_def split: if_splits option.splits commit_outcome.splits)

lemma SaveBacktest_Inl:
  assumes "SaveBacktest env b ts db = (Inl e, db')"
  shows "e = ErrStore \<and> (db' = db \<or> bp_commit env = CommitLost)"
  using assms by (auto simp: SaveBacktest_def Let_def split: if_splits option.splits commit_outcome.splits)

lemma store_run_fields:
  assumes "store_run env b = Some row"
  shows "b_id row = b_id b" "b_user row = b_user b" "b_symbols row = b_symbols b" "b_strategy row = b_strategy b"
    "b_params row = bp_jsonb env (b_params b)" "b_created_at row = b_created_at b"
    "b_start row = b_start b div day_ns * day_ns" "b_end row = b_end b div day_ns * day_ns"
  using assms by (auto simp: store_run_def split: bind_splits)

lemma saved_run_is_found:
  assumes save: "SaveBacktest env b ts db = (Inr saved, db')" and fresh: "fresh_run (bp_uuid env) db"
    and ok: "\<not> bp_fails env' SelectRun" "\<not> bp_fails env' SelectFills"
  obtains row frows where "store_run env saved = Some row" "store_fills env ts = Some frows"
    "GetBacktest env' (b_user b) (b_id saved) db' = Inr \<lparr>d_backtest = row, d_trades = frows\<rparr>"
    "\<And>u. u \<noteq> b_user b \<Longrightarrow> GetBacktest env' u (b_id saved) db' = Inl ErrNotFound"
proof -
  obtain row frows where s: "saved = b\<lparr>b_id := bp_uuid env, b_created_at := bp_now env\<rparr>"
    and row: "store_run env saved = Some row" and fr: "store_fills env ts = Some frows"
    and db': "db' = db\<lparr>runs := runs db @ [row],
       fills := fills db @ map (Pair (bp_uuid env)) (List.enumerate 0 frows)\<rparr>"
    using save by (rule SaveBacktest_Inr)
  have id: "b_id row = bp_uuid env" "b_user row = b_user b" using store_run_fields [OF row] s by simp_all
  have none: "find (\<lambda>x. b_id x = bp_uuid env \<and> b_user x = u) (runs db) = None" for u
    using fresh by (auto simp: find_None_iff fresh_run_def)
  have old: "filter (\<lambda>f. fst f = bp_uuid env) (fills db) = []"
    using fresh by (auto simp: filter_empty_conv fresh_run_def)
  have new: "filter (\<lambda>f. fst f = bp_uuid env) (map (Pair (bp_uuid env)) (List.enumerate 0 frows))
      = map (Pair (bp_uuid env)) (List.enumerate 0 frows)"
    by (rule filter_True) auto
  have snd: "map (snd \<circ> snd) (map (Pair (bp_uuid env)) (List.enumerate 0 frows)) = frows"
    by (simp add: comp_def enumerate_eq_zip)
  have found: "find (\<lambda>x. b_id x = bp_uuid env \<and> b_user x = u) (runs db @ [row]) = (if u = b_user b then Some row else None)" for u
    using find_snoc [OF none [of u]] id by simp
  show thesis
  proof (rule that [OF row fr])
    show "GetBacktest env' (b_user b) (b_id saved) db' = Inr \<lparr>d_backtest = row, d_trades = frows\<rparr>"
      using ok found snd by (simp add: GetBacktest_def db' s old new sort_key_enumerate)
    show "GetBacktest env' u (b_id saved) db' = Inl ErrNotFound" if "u \<noteq> b_user b" for u
      using ok found [of u] that by (simp add: GetBacktest_def db' s)
  qed
qed

lemma RunBacktest_Inr:
  assumes "RunBacktest uc history sched env user req db = (Inr detail, db')"
  obtains params fetched result metrics b where "validateRequest uc req = Inr params"
    "fetchHistories history (sp_symbols params) (sched (sp_symbols params)) = Inr fetched"
    "run_result params fetched = Inr (result, metrics)" "d_trades detail = Trades result"
    "SaveBacktest env b (Trades result) db = (Inr (d_backtest detail), db')"
    "b_user b = user" "b_symbols b = sp_symbols params" "b_strategy b = Kind (sp_strategy params)"
    "b_params b = Params (sp_strategy params)" "b_metrics b = metrics" "b_final_equity b = FinalEquity result"
proof -
  let ?chain = "sum_bind (validateRequest uc req) (\<lambda>params.
           sum_bind (fetchHistories history (sp_symbols params) (sched (sp_symbols params))) (\<lambda>fetched.
           sum_bind (run_result params fetched) (\<lambda>(result, metrics). Inr (params, result, metrics))))"
  obtain params result metrics where c: "?chain = Inr (params, result, metrics)"
    using assms by (auto simp: RunBacktest_def split: sum.splits)
  then obtain fetched where f: "validateRequest uc req = Inr params"
      "fetchHistories history (sp_symbols params) (sched (sp_symbols params)) = Inr fetched"
      "run_result params fetched = Inr (result, metrics)"
    by (auto simp: sum_bind_eq_Inr)
  define b where "b = \<lparr>b_id = 0, b_user = user, b_symbols = sp_symbols params, b_strategy = Kind (sp_strategy params),
               b_params = Params (sp_strategy params), b_start = sp_start params, b_end = sp_end params,
               b_capital = sp_capital params, b_final_equity = FinalEquity result, b_metrics = metrics,
               b_created_at = 0\<rparr>"
  have sv: "SaveBacktest env b (Trades result) db = (Inr (d_backtest detail), db') \<and> d_trades detail = Trades result"
    using assms unfolding RunBacktest_def c sum.case prod.case b_def [symmetric] by (auto split: prod.splits sum.splits)
  show thesis by (rule that [OF f, of b]) (use sv in \<open>simp_all add: b_def\<close>)
qed

lemma RunBacktest_Inl:
  assumes "RunBacktest uc history sched env user req db = (Inl e, db')"
  shows "db' = db \<or> e = ErrStore \<and> bp_commit env = CommitLost"
  using assms by (auto simp: RunBacktest_def split: sum.splits prod.splits dest: SaveBacktest_Inl)

end
