(* ===== verification/BacktestProps.thy ===== *)
theory BacktestProps
  imports BacktestFacts GoJSONFacts
begin

text \<open>
  The properties of the backtesting service and of the statistics it shares with the
  insights service, each with a run on concrete bars: a symbol A on four days of January 2024,
  opening and closing at 1, 2, 4 and 2.
\<close>

definition demo_bar :: "int \<Rightarrow> rat \<Rightarrow> bar" where
  "demo_bar d p = \<lparr>Timestamp = go_date 2024 1 d, Open = FNum p, High = FNum p, Low = FNum p, Close = FNum p, Volume = 1\<rparr>"

definition demo_bars :: "bar list" where
  "demo_bars = [demo_bar 1 1, demo_bar 2 2, demo_bar 3 4, demo_bar 4 2]"

definition demo_params :: "json option" where
  "demo_params = Some (JObj [(lit ''short_window'', JNum False 2 0 True), (lit ''long_window'', JNum False 3 0 True)])"

definition demo_strategy :: strategy where
  "demo_strategy = MACrossover \<lparr>ShortWindow = 2, LongWindow = 3\<rparr>"

lemma demo_new: "NewStrategy StrategyMACrossover demo_params = Inr demo_strategy"
  by (simp add: NewStrategy_def newStrategyByKind_def demo_params_def dec_ma_def dec_field_def dec_member_def
      field_names dec_int_def int64_def newMACrossover_def minShortWindow_def maxWarmupBars_def ma_warmup_def
      demo_strategy_def)

lemma demo_shape: "shaped [[65]] [demo_bars]" "bar_count [[65]] [demo_bars] = 4"
  by (simp_all add: shaped_def bar_count_def demo_bars_def)

lemma demo_prices: "prices_ok [[65]] [demo_bars]"
  by (simp add: prices_ok_def demo_bars_def demo_bar_def f64_ops_def)

lemma wf_demo_capital: "wf64 (FNum 100)"
  using representable_of_int [of 100] by (simp add: wf64_def)

section \<open>The simulation\<close>

text \<open>C9. No lookahead: a strategy that was accepted, run over the first bars of a timeline,
  gives the first part of the equity curve and of the trade log of the whole run, with the
  signals computed from those bars alone. No later bar can change an earlier decision.\<close>

theorem backtest_no_lookahead:
  assumes "NewStrategy kind raw = Inr s" and "shaped symbols bars" and "n \<le> bar_count symbols bars"
  shows "(let whole = SimulatePortfolio symbols bars (map (GenerateSignals s) bars) capital;
              seen = map (take n) bars;
              part = SimulatePortfolio symbols seen (map (GenerateSignals s) seen) capital
          in EquityCurve part = take n (EquityCurve whole) \<and> (\<exists>more. Trades whole = Trades part @ more))"
proof -
  have "map (take n) (map (GenerateSignals s) bars) = map (GenerateSignals s) (map (take n) bars)"
    using NewStrategy_ok(1) [OF assms(1)] by (simp add: strat.gen_causal)
  note gen = this
  have len: "length symbols \<le> length bars" "length symbols \<le> length (map (GenerateSignals s) bars)"
    using assms(2) by (simp_all add: shaped_def)
  show ?thesis
    using SimulatePortfolio_causal [OF assms(3) len, of capital] unfolding gen Let_def by blast
qed

theorem backtest_no_lookahead_witness:
  "EquityCurve (SimulatePortfolio [[65]] [take 3 demo_bars] [GenerateSignals demo_strategy (take 3 demo_bars)] (FNum 100))
     = take 3 (EquityCurve (SimulatePortfolio [[65]] [demo_bars] [GenerateSignals demo_strategy demo_bars] (FNum 100)))"
  using backtest_no_lookahead [OF demo_new demo_shape(1), of 3 "FNum 100"] by (simp add: demo_shape Let_def)

text \<open>C3. The shared pool is never overdrawn and nothing is sold short: for positive finite
  prices and any signals whatsoever, after every bar the cash and every holding are not
  negative, and no value of the equity curve is.\<close>

theorem pool_never_overdrawn:
  assumes "shaped symbols bars" and "prices_ok symbols bars" and "\<not> capital < 0"
  shows "(\<forall>k\<le>bar_count symbols bars. let st = fst (sim_run symbols bars signals capital k)
            in \<not> cash st < 0 \<and> (\<forall>q\<in>set (quantity st). \<not> q < 0))
    \<and> (\<forall>e\<in>set (EquityCurve (SimulatePortfolio symbols bars signals capital)). \<not> e < 0)"
proof -
  have c: "not_negative capital" using assms(3) by (simp add: not_negative_iff)
  have "funded (length symbols) (fst (sim_run symbols bars signals capital k))" if "k \<le> bar_count symbols bars" for k
    by (rule funded_run [OF c assms(2,1) that])
  moreover have "EquityCurve (SimulatePortfolio symbols bars signals capital)
      = snd (sim_run symbols bars signals capital (bar_count symbols bars))"
    by (simp add: SimulatePortfolio_run Let_def split_beta)
  ultimately show ?thesis
    using equity_not_negative [OF c assms(2,1) order_refl, of signals]
    by (simp add: Let_def funded_def not_negative_iff)
qed

theorem pool_never_overdrawn_witness:
  "list_all (\<lambda>e. \<not> e < 0) (EquityCurve (SimulatePortfolio [[65]] [demo_bars] [[SignalBuy, SignalSell, SignalBuy, SignalNone]] (FNum 100)))"
  using pool_never_overdrawn [OF demo_shape(1) demo_prices, of "FNum 100"] by (simp add: f64_ops_def list_all_iff)

text \<open>C20. Every simulated fill answers the signal of the bar before it, at its own bar's open,
  and the fills of a symbol pair up: each sell closes exactly the position its last buy
  opened, with the profit of that pair, and a symbol is only bought while flat.\<close>

theorem fills_answer_signals:
  assumes "distinct symbols"
  shows "(\<forall>t\<in>set (Trades (SimulatePortfolio symbols bars signals capital)). justified symbols bars signals t)
    \<and> paired (Trades (SimulatePortfolio symbols bars signals capital))"
  using justified_run [of symbols bars signals capital] tracked_run [OF assms, of bars signals capital "bar_count symbols bars"]
  by (simp add: SimulatePortfolio_run Let_def split_beta tracked_def)

theorem fills_answer_signals_witness:
  "paired (Trades (SimulatePortfolio [[65], [66]] [demo_bars, demo_bars]
     [[SignalBuy, SignalSell, SignalBuy, SignalNone], [SignalBuy, SignalNone, SignalSell, SignalNone]] (FNum 100)))"
  using fills_answer_signals [of "[[65], [66]]"] by simp

text \<open>C32. A run of one symbol is bit for bit the all-in simulation: sharing the pool adds no
  rounding when there is nobody to share with.\<close>

theorem single_symbol_is_all_in:
  assumes "wf64 capital" and "\<forall>b\<in>set bars. fin (Open b)"
  shows "SimulatePortfolio [symb] [bars] [signals] capital = simulate_all_in symb bars signals capital"
  by (rule SimulatePortfolio_single [OF assms])

theorem single_symbol_is_all_in_witness:
  "SimulatePortfolio [[65]] [demo_bars] [[SignalBuy, SignalSell, SignalNone, SignalNone]] (FNum 100)
     = simulate_all_in [65] demo_bars [SignalBuy, SignalSell, SignalNone, SignalNone] (FNum 100)"
  by (rule single_symbol_is_all_in) (simp_all add: wf_demo_capital demo_bars_def demo_bar_def)

section \<open>Strategies\<close>

text \<open>C24. An accepted strategy needs between 3 and 500 bars of warm-up, a true sum that did not
  wrap around, gives one signal per bar and none before the warm-up is over.\<close>

theorem accepted_strategy_warms_up:
  assumes "NewStrategy kind raw = Inr s"
  shows "Kind s = kind \<and> 3 \<le> WarmupBars s \<and> WarmupBars s \<le> 500
    \<and> length (GenerateSignals s bars) = length bars
    \<and> (\<forall>i<length bars. int i < WarmupBars s \<longrightarrow> GenerateSignals s bars ! i = SignalNone)"
  using NewStrategy_ok [OF assms] by (simp add: strat.gen_length strat.gen_warm)

theorem accepted_strategy_warms_up_witness:
  "length (GenerateSignals demo_strategy demo_bars) = 4 \<and> GenerateSignals demo_strategy demo_bars ! 2 = SignalNone"
  using accepted_strategy_warms_up [OF demo_new, of demo_bars]
  by (simp add: demo_bars_def demo_strategy_def ma_warmup_def)

lemma constructed_params:
  assumes "NewStrategy kind raw = Inr s"
  shows "newStrategyByKind (Kind s) (Some (Params s)) = Inr s"
proof -
  have new: "newStrategyByKind kind raw = Inr s" using assms by (auto simp: NewStrategy_def sum_bind_eq_Inr split: if_splits)
  note ok = NewStrategy_ok [OF assms]
  have kinds: "StrategyMACrossover \<noteq> StrategyRSI" "StrategyMACrossover \<noteq> StrategyMACD" "StrategyRSI \<noteq> StrategyMACD"
    by (simp_all add: StrategyMACrossover_def StrategyRSI_def StrategyMACD_def lit_def)
  show ?thesis
  proof (cases s)
    case (MACrossover p)
    then have "int64 (ShortWindow p)" "int64 (LongWindow p)"
      using ok by (auto simp: ma_ok_def ma_warmup_def int64_def)
    then show ?thesis using MACrossover ok(1) kinds
      by (cases p) (auto simp: newStrategyByKind_def dec_ma_params newMACrossover_def ma_ok_def minShortWindow_def simp del: Params.simps)
  next
    case (MACD p)
    then have "int64 (FastPeriod p)" "int64 (SlowPeriod p)" "int64 (SignalPeriod p)"
      using ok(1) by (auto simp: macd_ok_def int64_def)
    then show ?thesis using MACD ok(1) kinds
      by (cases p) (auto simp: newStrategyByKind_def dec_macd_params newMACDStrategy_def macd_ok_def maxWarmupBars_def simp del: Params.simps)
  next
    case (RSI p)
    then have o: "rsi_ok p" using ok(1) by simp
    obtain j where d: "raw = Some j" "dec_rsi j = Some (Period p, Oversold p, Overbought p)"
      using new RSI kinds by (auto simp: newStrategyByKind_def newRSIStrategy_def newMACrossover_def newMACDStrategy_def
          bind_eq_Some_conv split: if_splits option.splits)
    have wf: "wf64 (Oversold p)" "wf64 (Overbought p)"
      using d(2) by (auto simp: dec_rsi_def split: option.splits dest!: dec_field_inv [where P = wf64] intro: dec_float_wf)
    have fin: "fin (Oversold p)" "fin (Overbought p)"
      using o f64_less_imp_le [of 0 "Oversold p"] f64_less_imp_le [of "Oversold p" "Overbought p"] f64_less_imp_le [of "Overbought p" "FNum 100"]
        fin_between [of 0 "Oversold p" "FNum 100"] fin_between [of 0 "Overbought p" "FNum 100"] f64_le_trans
      unfolding rsi_ok_def by (metis fin.simps(2) fin_01(1))+
    obtain a where a: "enc_float (Oversold p) = Some a" "dec_float a = Some (Oversold p)" using enc_float_reads_back [OF fin(1) wf(1)] .
    obtain b where b: "enc_float (Overbought p) = Some b" "dec_float b = Some (Overbought p)" using enc_float_reads_back [OF fin(2) wf(2)] .
    have "int64 (Period p)" using o by (simp add: rsi_ok_def int64_def)
    then show ?thesis using RSI o kinds dec_rsi_params [OF _ a b]
      by (cases p) (auto simp: newStrategyByKind_def newRSIStrategy_def rsi_ok_def maxWarmupBars_def simp del: Params.simps)
  qed
qed

text \<open>C37. The canonical parameters of an accepted strategy, which are what a run stores, read
  back as the same strategy, thresholds included to the last bit.\<close>

theorem strategy_params_roundtrip:
  assumes "NewStrategy kind raw = Inr s"
  shows "NewStrategy (Kind s) (Some (Params s)) = Inr s"
  using constructed_params [OF assms] NewStrategy_ok(4) [OF assms] by (simp add: NewStrategy_def maxWarmupBars_def)

theorem strategy_params_roundtrip_witness:
  "NewStrategy StrategyMACrossover (Some (JObj [(lit ''short_window'', enc_int 2), (lit ''long_window'', enc_int 3)])) = Inr demo_strategy"
  using strategy_params_roundtrip [OF demo_new] by (simp add: demo_strategy_def)

text \<open>C38. The relative strength index is always a number between 0 and 100 from its first reading on,
  for closes of at most 2^1000 in absolute value, where no sum overflows (a comparison with NaN is
  false). Closes that never fell up to a bar read 100, or 50 once no gain is left in the average;
  closes that never rose read 0 or 50; and so a flat series reads exactly 50.\<close>

theorem rsi_in_range:
  assumes "2 \<le> period" and "period \<le> maxWarmupBars" and "\<forall>c\<in>set closes. priced c"
    and "period \<le> int i" and "i < length closes"
  shows "0 \<le> wilderRSI closes period ! i \<and> wilderRSI closes period ! i \<le> FNum 100
    \<and> ((\<forall>j<i. closes ! j \<le> closes ! Suc j) \<longrightarrow> wilderRSI closes period ! i \<in> {FNum 50, FNum 100})
    \<and> ((\<forall>j<i. closes ! Suc j \<le> closes ! j) \<longrightarrow> wilderRSI closes period ! i \<in> {0, FNum 50})"
proof -
  have p: "period \<le> 500" using assms(2) by (simp add: maxWarmupBars_def)
  let ?cs = "take (Suc i) closes"
  have len: "length (wilderRSI closes period) = length closes" by (simp add: length_wilderRSI)
  have fin: "\<forall>c\<in>set ?cs. fin c" using assms(3) by (auto simp: priced_def dest: in_set_takeD)
  have "wilderRSI closes period ! i = wilderRSI ?cs period ! i"
    using take_wilderRSI [of period "Suc i" closes] assms by simp
  also have "\<dots> \<in> set (drop (nat period) (wilderRSI ?cs period))"
    using assms(1,4,5) nth_mem [of "i - nat period" "drop (nat period) (wilderRSI ?cs period)"] by (simp add: length_wilderRSI)
  finally have mem: "wilderRSI closes period ! i \<in> set (drop (nat period) (wilderRSI ?cs period))" .
  have one: "wilderRSI closes period ! i = FNum 50 \<or> wilderRSI closes period ! i = (if gains then 0 else FNum 100)"
    if "\<forall>j<i. if gains then closes ! Suc j \<le> closes ! j else closes ! j \<le> closes ! Suc j" for gains
    using wilderRSI_one_way [OF assms(1) p fin, of gains] that assms(4,5) mem by auto
  have "rsi_value (wilderRSI closes period ! i)"
    using wilderRSI_values [OF assms(1) p assms(3)] len assms(5) by simp
  then show ?thesis using one [of False] one [of True] by (auto simp: rsi_value_def)
qed

theorem rsi_in_range_witness:
  "wilderRSI [FNum 5, FNum 5, FNum 5, FNum 5] 2 ! 3 = FNum 50 \<and> wilderRSI [FNum 1, FNum 2, FNum 4, FNum 2] 2 ! 3 \<le> FNum 100"
proof -
  have j: "j = 0 \<or> j = 1 \<or> j = 2" if "j < 3" for j :: nat using that by auto
  have "priced (FNum q)" if "0 \<le> q" "q \<le> 5" for q
    using that order_trans [of q 5 "2 ^ 1000"] by (simp add: priced_def)
  then show ?thesis
    using rsi_in_range [of 2 "[FNum 5, FNum 5, FNum 5, FNum 5]" 3] rsi_in_range [of 2 "[FNum 1, FNum 2, FNum 4, FNum 2]" 3]
    by (auto simp: maxWarmupBars_def fnum_ops dest!: j)
qed

section \<open>The timeline\<close>

lemma rows_of_nth: "s < n \<Longrightarrow> i < length cols \<Longrightarrow> rows_of n cols ! s ! i = cols ! i ! s"
  by (simp add: rows_of_def)

text \<open>The aligned timeline: symbols in order, one row each, all of one length; the bars at
  one index are of one day and each comes from its own symbol inside the requested range; and
  no day every symbol has is missing.\<close>

theorem aligned_timeline:
  assumes "alignBars bars start stop = (symbols, aligned)" and "bars \<noteq> []"
  shows "symbols = sort (map fst bars) \<and> shaped symbols aligned
    \<and> (\<forall>i<bar_count symbols aligned. \<forall>s<length symbols.
         aligned ! s ! i \<in> set (sliceRange (the (map_of bars (symbols ! s))) start stop)
         \<and> dayKey (Timestamp (aligned ! s ! i)) = dayKey (Timestamp (aligned ! 0 ! i)))
    \<and> (\<forall>d\<in>set (sliceRange (the (map_of bars (hd symbols))) start stop).
         (\<forall>symb\<in>set symbols. \<exists>b\<in>set (sliceRange (the (map_of bars symb)) start stop).
            dayKey (Timestamp b) = dayKey (Timestamp d))
         \<longrightarrow> (\<exists>i<bar_count symbols aligned. aligned ! 0 ! i = d))"
proof -
  define rows where "rows = ranged_rows bars start stop"
  define cols where "cols = columns (map index_by_day (tl rows)) (hd rows)"
  have sym: "symbols = sort (map fst bars)" and sh: "shaped symbols aligned" using alignBars_shape [OF assms(1)] by simp_all
  have al: "aligned = rows_of (length bars) cols"
    using alignBars_columns [OF assms(2), of start stop] assms(1) by (simp add: rows_def cols_def)
  have n: "length symbols = length bars" "length rows = length bars" by (simp_all add: sym rows_def ranged_rows_def)
  have rn: "rows ! s = sliceRange (the (map_of bars (symbols ! s))) start stop" if "s < length symbols" for s
    using that by (simp add: rows_def ranged_rows_def sym)
  have ne: "rows \<noteq> []" "symbols \<noteq> []" "0 < length bars" using n assms(2) by auto
  obtain r rs where rows: "rows = r # rs" using ne(1) by (cases rows) auto
  have bc: "bar_count symbols aligned = length cols" using ne by (simp add: bar_count_def al rows_of_def)
  have col: "day_column rows (cols ! i)" if "i < length cols" for i
    using columns_day [OF _ ne(1), of "cols ! i"] that by (simp add: cols_def)
  have nth: "aligned ! s ! i = cols ! i ! s" if "s < length bars" "i < length cols" for s i
    using that by (simp add: al rows_of_nth)
  have day: "aligned ! s ! i \<in> set (rows ! s) \<and> dayKey (Timestamp (aligned ! s ! i)) = dayKey (Timestamp (aligned ! 0 ! i))"
    if "i < length cols" "s < length bars" for s i
  proof -
    have "cols ! i ! s \<in> set (rows ! s)" "dayKey (Timestamp (cols ! i ! s)) = dayKey (Timestamp (hd (cols ! i)))"
      "dayKey (Timestamp (cols ! i ! 0)) = dayKey (Timestamp (hd (cols ! i)))"
      using col [OF that(1)] that(2) n ne(3) by (simp_all add: day_column_def)
    then show ?thesis using nth [OF that(2,1)] nth [OF ne(3) that(1)] by simp
  qed
  have complete: "\<exists>i<length cols. aligned ! 0 ! i = d"
    if d: "d \<in> set r" "\<forall>row\<in>set rs. \<exists>b\<in>set row. dayKey (Timestamp b) = dayKey (Timestamp d)" for d
  proof -
    obtain c where c: "c \<in> set cols" "hd c = d" using columns_complete [OF rows d] by (auto simp: cols_def)
    then obtain i where i: "i < length cols" "cols ! i = c" by (auto simp: in_set_conv_nth)
    have "c \<noteq> []" using col [OF i(1)] i ne by (auto simp: day_column_def)
    then show ?thesis using c i nth [OF ne(3) i(1)] by (auto simp: hd_conv_nth)
  qed
  have r: "r = sliceRange (the (map_of bars (hd symbols))) start stop"
    using rn [of 0] ne rows by (simp add: hd_conv_nth)
  have rs: "\<exists>symb\<in>set symbols. row = sliceRange (the (map_of bars symb)) start stop" if "row \<in> set rs" for row
  proof -
    have "row \<in> set rows" using that rows by simp
    then show ?thesis by (auto simp: rows_def ranged_rows_def sym)
  qed
  show ?thesis
    using sym sh day complete n bc rn r rs by (auto simp: bc) blast+
qed

theorem aligned_timeline_witness:
  "\<exists>symbols aligned. alignBars [([66], demo_bars), ([65], tl demo_bars)] (go_date 2024 1 1) (go_date 2024 1 3) = (symbols, aligned)
     \<and> symbols = [[65], [66]] \<and> shaped symbols aligned"
proof -
  obtain symbols aligned where a: "alignBars [([66], demo_bars), ([65], tl demo_bars)] (go_date 2024 1 1) (go_date 2024 1 3) = (symbols, aligned)"
    by fastforce
  show ?thesis using aligned_timeline [OF a] a by auto
qed

section \<open>A request, end to end\<close>

text \<open>The order of the symbols in a request and the order in which the concurrent fetches
  finish do not matter: the answer and the stored run are identical.\<close>

theorem run_order_independent:
  assumes "mset (rq_symbols req) = mset perm"
    and "\<And>xs. set (sched xs) = {..<length xs}" and "\<And>xs. set (sched' xs) = {..<length xs}"
  shows "RunBacktest uc history sched env user req db
       = RunBacktest uc history sched' env user (req\<lparr>rq_symbols := perm\<rparr>) db"
proof -
  have v: "validateRequest uc (req\<lparr>rq_symbols := perm\<rparr>) = validateRequest uc req"
    using normalizeSymbols_mset [OF assms(1), of uc] by (simp add: validateRequest_def cong: if_cong option.case_cong)
  have f: "fetchHistories history xs (sched xs) = fetchHistories history xs (sched' xs)" for xs
    by (simp add: fetchHistories_eq assms)
  show ?thesis by (simp add: RunBacktest_def v f)
qed

definition demo_request :: run_backtest_request where
  "demo_request = \<lparr>rq_symbols = [lit ''msft'', lit ''aapl''], rq_strategy = StrategyMACrossover, rq_params = demo_params,
     rq_start_date = lit ''2024-01-01'', rq_end_date = lit ''2024-01-04'', rq_starting_capital = FNum 100\<rparr>"

definition demo_env :: bt_pg where
  "demo_env = \<lparr>bp_fails = (\<lambda>_. False), bp_commit = CommitOk, bp_numeric = Some, bp_jsonb = id, bp_time = id, bp_uuid = 5, bp_now = 9\<rparr>"

theorem run_order_independent_witness:
  "RunBacktest id (\<lambda>_. Inr demo_bars) (\<lambda>xs. [0..<length xs]) demo_env 7 demo_request \<lparr>runs = [], fills = []\<rparr>
     = RunBacktest id (\<lambda>_. Inr demo_bars) (\<lambda>xs. rev [0..<length xs]) demo_env 7 (demo_request\<lparr>rq_symbols := [lit ''aapl'', lit ''msft'']\<rparr>) \<lparr>runs = [], fills = []\<rparr>"
  by (rule run_order_independent) (auto simp: demo_request_def)

text \<open>When histories cannot be fetched the run reports the error of the first failing symbol
  in order, whatever the schedule, and no history is dropped when none fails.\<close>

theorem fetch_reports_first_failure:
  assumes "set sched = {..<length symbols}"
  shows "case fetchHistories history symbols sched of
      Inl e \<Rightarrow> \<exists>k<length symbols. history (symbols ! k) = Inl e \<and> (\<forall>j<k. is_ok (history (symbols ! j)))
    | Inr fetched \<Rightarrow> map fst fetched = symbols \<and> (\<forall>(s, bars)\<in>set fetched. history s = Inr bars)"
proof (cases "find (\<lambda>r. \<not> is_ok r) (map history symbols)")
  case None
  then have "fetchHistories history symbols sched = Inr (zip symbols (map (projr \<circ> history) symbols))"
    by (simp add: fetchHistories_eq [OF assms])
  with fetchHistories_Inr [OF assms this] show ?thesis by simp
next
  case (Some r)
  then obtain k where k: "k < length symbols" "\<not> is_ok (history (symbols ! k))" "r = history (symbols ! k)"
      "\<forall>j<k. is_ok (history (symbols ! j))"
    by (auto simp: find_Some_iff)
  then show ?thesis using Some
    by (cases "history (symbols ! k)") (auto simp: fetchHistories_eq [OF assms])
qed

definition demo_failures :: history_client where
  "demo_failures s = (if s = [66] then Inl ErrSymbolUnavailable else Inl ErrUpstreamUnavailable)"

theorem fetch_reports_first_failure_witness:
  "fetchHistories demo_failures [[65], [66]] [1, 0] = Inl ErrUpstreamUnavailable"
proof -
  have s: "set [1, 0] = {..<length [[65], [66::nat]]}" by auto
  have bad: "\<not> is_ok (demo_failures x)" for x by (simp add: demo_failures_def)
  show ?thesis
  proof (cases "fetchHistories demo_failures [[65], [66]] [1, 0]")
    case (Inl e)
    then obtain k where k: "k < 2" "demo_failures ([[65], [66]] ! k) = Inl e" "\<forall>j<k. is_ok (demo_failures ([[65], [66]] ! j))"
      using fetch_reports_first_failure [OF s, of demo_failures] by (auto simp: numeral_2_eq_2)
    then have "k = 0" using bad by (cases k) auto
    then show ?thesis using k Inl by (simp add: demo_failures_def)
  next
    case (Inr fetched)
    then show ?thesis using fetch_reports_first_failure [OF s, of demo_failures] bad
      by (cases fetched) (auto simp: is_ok_iff)
  qed
qed

text \<open>C33. A run that was answered is stored with all its fills in order under the caller's name,
  and reading its identifier as anybody else is the same not-found as an identifier that does
  not exist. A run that failed before the save stored nothing.\<close>

theorem saved_run_is_private:
  assumes "RunBacktest uc history sched env user req db = (r, db')" and "fresh_run (bp_uuid env) db"
    and "\<not> bp_fails env' SelectRun" "\<not> bp_fails env' SelectFills"
  shows "case r of
      Inl e \<Rightarrow> db' = db \<or> e = ErrStore \<and> bp_commit env = CommitLost
    | Inr detail \<Rightarrow>
        (\<exists>row frows. GetBacktest env' user (b_id (d_backtest detail)) db' = Inr \<lparr>d_backtest = row, d_trades = frows\<rparr>
           \<and> store_run env (d_backtest detail) = Some row \<and> store_fills env (d_trades detail) = Some frows)
        \<and> (\<forall>u. u \<noteq> user \<longrightarrow> GetBacktest env' u (b_id (d_backtest detail)) db' = Inl ErrNotFound)"
proof (cases r)
  case (Inl e) then show ?thesis using RunBacktest_Inl assms(1) by fastforce
next
  case (Inr detail)
  then have run: "RunBacktest uc history sched env user req db = (Inr detail, db')" using assms(1) by simp
  obtain b and result :: simulation_result where b: "d_trades detail = Trades result"
      "SaveBacktest env b (Trades result) db = (Inr (d_backtest detail), db')" "b_user b = user"
    by (rule RunBacktest_Inr [OF run]) (rule that, assumption+)
  obtain row frows where "store_run env (d_backtest detail) = Some row" "store_fills env (Trades result) = Some frows"
      "GetBacktest env' (b_user b) (b_id (d_backtest detail)) db' = Inr \<lparr>d_backtest = row, d_trades = frows\<rparr>"
      "\<And>u. u \<noteq> b_user b \<Longrightarrow> GetBacktest env' u (b_id (d_backtest detail)) db' = Inl ErrNotFound"
    using saved_run_is_found [OF b(2) assms(2,3,4)] by blast
  then show ?thesis using b Inr by auto
qed

theorem saved_run_is_private_witness:
  "\<exists>db'. case RunBacktest id (\<lambda>_. Inl ErrUpstreamUnavailable) (\<lambda>xs. [0..<length xs]) demo_env 7 demo_request \<lparr>runs = [], fills = []\<rparr> of
     (Inl e, db') \<Rightarrow> db' = \<lparr>runs = [], fills = []\<rparr> | (Inr detail, db') \<Rightarrow> GetBacktest demo_env 8 (b_id (d_backtest detail)) db' = Inl ErrNotFound"
proof -
  obtain r db' where r: "RunBacktest id (\<lambda>_. Inl ErrUpstreamUnavailable) (\<lambda>xs. [0..<length xs]) demo_env 7 demo_request \<lparr>runs = [], fills = []\<rparr> = (r, db')"
    by fastforce
  show ?thesis using saved_run_is_private [OF r, of demo_env] unfolding r
    by (auto simp: fresh_run_def demo_env_def split: sum.splits)
qed

text \<open>The metrics of a run are in range: the win rate is a percentage, a profit factor is
  never negative, and the drawdown of a curve of ordinary values is a percentage attained
  between a peak and a later value.\<close>

theorem metrics_in_range:
  assumes "int (length (Trades result)) \<le> 2 ^ 53"
  shows "(let m = ComputeMetrics result capital in
      0 \<le> WinRatePct m \<and> WinRatePct m \<le> FNum 100
      \<and> (\<forall>pf. ProfitFactor m = Some pf \<longrightarrow> \<not> pf < 0)
      \<and> ((\<forall>e\<in>set (EquityCurve result). good e) \<longrightarrow> 0 \<le> MaxDrawdown m \<and> MaxDrawdown m \<le> FNum 100))"
proof -
  have dd: "0 \<le> MaxDrawdownPct e \<and> MaxDrawdownPct e \<le> FNum 100" if g: "\<forall>x\<in>set e. good x" for e
  proof (cases "e = []")
    case True then show ?thesis by (simp add: MaxDrawdownPct_def f64_ops_def)
  next
    case False then show ?thesis using MaxDrawdownPct_inv [OF False g] by (auto simp: drawdown_inv_def)
  qed
  show ?thesis using tradeStats_range [OF assms] dd
    by (auto simp: ComputeMetrics_def Let_def not_negative_iff split_beta)
qed

definition demo_sells :: "trade_record list" where
  "demo_sells = [\<lparr>tr_symbol = [65], tr_side = SideSell, tr_time = 3, tr_price = FNum 4, tr_quantity = FNum 1, tr_realized_pl = Some (FNum 3)\<rparr>,
     \<lparr>tr_symbol = [65], tr_side = SideSell, tr_time = 4, tr_price = FNum 2, tr_quantity = FNum 1, tr_realized_pl = Some (FNum (- 1))\<rparr>]"

theorem metrics_in_range_witness:
  "WinRatePct (ComputeMetrics \<lparr>Trades = demo_sells, EquityCurve = [], FinalEquity = FNum 9\<rparr> (FNum 8)) \<le> FNum 100"
  using metrics_in_range [of "\<lparr>Trades = demo_sells, EquityCurve = [], FinalEquity = FNum 9\<rparr>" "FNum 8"]
  by (simp add: demo_sells_def Let_def)

text \<open>Dates: what \<open>Format\<close> prints for a year of four digits parses back to midnight of the
  same day, and a text that parses is exactly what \<open>Format\<close> prints.\<close>

theorem date_roundtrip:
  "(\<forall>y m d. date_of t = (y, m, d) \<and> 0 \<le> y \<and> y \<le> 9999 \<longrightarrow> parse_date (format_date t) = Some (t div day_ns * day_ns))
    \<and> (\<forall>s. parse_date s = Some t \<longrightarrow> format_date t = s \<and> t mod day_ns = 0)"
  using parse_date_format format_date_parse by blast

theorem date_roundtrip_witness:
  "parse_date (format_date (go_date 2024 2 29 + 5)) = Some (go_date 2024 2 29)"
proof -
  have v: "valid_date 2024 2 29" by (simp add: valid_date_def days_in_def leap_day_def leap_def)
  obtain n where n: "go_date 2024 2 29 = n * day_ns" using go_date_plain [of 2 2024 29] by auto
  have d: "(go_date 2024 2 29 + 5) div day_ns = n" by (simp add: n day_ns_def second_def)
  have "date_of (go_date 2024 2 29 + 5) = date_of (go_date 2024 2 29)"
    by (simp add: date_of_def d) (simp add: n day_ns_def second_def)
  then have "date_of (go_date 2024 2 29 + 5) = (2024, 2, 29)" using date_of_go_date [OF v] by simp
  then show ?thesis using date_roundtrip [of "go_date 2024 2 29 + 5"] unfolding d by (simp add: n)
qed

section \<open>The statistics\<close>

text \<open>C39. The drawdown of an equity curve of ordinary values is a percentage; it is attained by a
  decline from a value no earlier value exceeds, and no such decline is larger.\<close>

theorem drawdown_is_attained:
  assumes "e \<noteq> []" and "\<forall>x\<in>set e. good x"
  shows "0 \<le> MaxDrawdownPct e \<and> MaxDrawdownPct e \<le> FNum 100
    \<and> (MaxDrawdownPct e = 0 \<or> (\<exists>j<length e. \<exists>i. running_peak e i j \<and> MaxDrawdownPct e = decline (e ! i) (e ! j)))
    \<and> (\<forall>j<length e. \<forall>i. running_peak e i j \<longrightarrow> decline (e ! i) (e ! j) \<le> MaxDrawdownPct e)"
  using MaxDrawdownPct_inv [OF assms] by (auto simp: drawdown_inv_def)

theorem drawdown_is_attained_witness:
  "decline (FNum 4) (FNum 2) \<le> MaxDrawdownPct [FNum 1, FNum 4, FNum 2]"
proof -
  have r: "wf64 (FNum 1)" "wf64 (FNum 2)" "wf64 (FNum 4)"
    using representable_of_int [of 1] representable_of_int [of 2] representable_of_int [of 4] by (simp_all add: wf64_def)
  have "\<forall>x\<in>set [FNum 1, FNum 4, FNum 2]. good x" using r by (simp add: good_def f64_ops_def)
  moreover have "running_peak [FNum 1, FNum 4, FNum 2] 1 2"
    by (auto simp: running_peak_def f64_ops_def le_Suc_eq numeral_2_eq_2)
  ultimately have peak: "\<forall>x\<in>set [FNum 1, FNum 4, FNum 2]. good x" "running_peak [FNum 1, FNum 4, FNum 2] 1 2" .
  have "\<forall>j<3. \<forall>i. running_peak [FNum 1, FNum 4, FNum 2] i j \<longrightarrow>
      decline ([FNum 1, FNum 4, FNum 2] ! i) ([FNum 1, FNum 4, FNum 2] ! j) \<le> MaxDrawdownPct [FNum 1, FNum 4, FNum 2]"
    using drawdown_is_attained [OF _ peak(1)] by (simp add: numeral_3_eq_3)
  from this [rule_format, of 2 1] peak(2) show ?thesis by simp
qed

end
