(* ===== verification/Limiter.thy ===== *)
theory Limiter
  imports GoStrconv "HOL-Library.AList" "HOL-Library.Word"
begin

unbundle bit_operations_syntax

text \<open>
  internal/limiter of services/gateway: the fixed-window counters (memory.go) behind the
  \<open>Store\<close> interface (limiter.go) and the backoff on consecutive failed logins (backoff.go).
  Every operation takes the time its clock returned. A map is an association list with
  distinct keys, a lock is not modelled: each operation holds its lock from its first access
  of the map to its last.
\<close>

record result =
  Allowed :: bool
  RetryAfter :: int

abbreviation "admit \<equiv> \<lparr>Allowed = True, RetryAfter = 0\<rparr>"

definition time_sub :: "instant \<Rightarrow> instant \<Rightarrow> int" where
  \<comment> \<open>\<open>t.Sub(u)\<close> saturates\<close>
  "time_sub t u = clamp (t - u)"

lemma time_sub_ge: "w \<le> max_int \<Longrightarrow> min_int < w \<Longrightarrow> time_sub t u \<ge> w \<longleftrightarrow> t - u \<ge> w"
  by (auto simp: time_sub_def clamp_def)

section \<open>The sharded store\<close>

definition shardCount :: nat where "shardCount = 16"

record counter =
  ct_count :: int
  ct_start :: instant
  ct_window :: int

type_synonym shard = "(gostr \<times> counter) list"
type_synonym memory_store = "shard list"

definition NewMemoryStore :: memory_store where
  "NewMemoryStore = replicate shardCount []"

definition utf8_rune :: "rune \<Rightarrow> nat list" where
  "utf8_rune r =
     (if r < 128 then [r]
      else if r < 2048 then [192 + r div 64, 128 + r mod 64]
      else if r < 65536 then [224 + r div 4096, 128 + r div 64 mod 64, 128 + r mod 64]
      else [240 + r div 262144, 128 + r div 4096 mod 64, 128 + r div 64 mod 64, 128 + r mod 64])"

definition utf8 :: "gostr \<Rightarrow> nat list" where
  "utf8 s = concat (map utf8_rune s)"

lemma length_utf8: "length (utf8 s) = byte_len s"
  by (induction s) (simp_all add: utf8_def utf8_rune_def rune_len_def)

definition fnv_step :: "32 word \<Rightarrow> nat \<Rightarrow> 32 word" where
  "fnv_step h b = (h XOR of_nat b) * 16777619"

definition fnv32a :: "nat list \<Rightarrow> 32 word" where
  \<comment> \<open>\<open>hash/fnv.New32a\<close>\<close>
  "fnv32a bytes = foldl fnv_step 2166136261 bytes"

definition shardFor :: "gostr \<Rightarrow> nat" where
  "shardFor key = unat (fnv32a (utf8 key) mod of_nat shardCount)"

definition Allow :: "instant \<Rightarrow> gostr \<Rightarrow> int \<Rightarrow> int \<Rightarrow> memory_store \<Rightarrow> result \<times> memory_store" where
  "Allow now key limit window st =
     (let i = shardFor key; sh = st ! i;
          fresh = (admit, st[i := AList.update key \<lparr>ct_count = 1, ct_start = now, ct_window = window\<rparr> sh])
      in case map_of sh key of
        None \<Rightarrow> fresh
      | Some c \<Rightarrow>
          if time_sub now (ct_start c) \<ge> window then fresh
          else if ct_count c \<ge> limit then
            (\<lparr>Allowed = False, RetryAfter = wrap64 (window - time_sub now (ct_start c))\<rparr>, st)
          else (admit, st[i := AList.update key (c\<lparr>ct_count := wrap64 (ct_count c + 1)\<rparr>) sh]))"

definition EvictStale :: "instant \<Rightarrow> memory_store \<Rightarrow> memory_store" where
  "EvictStale now st = map (filter (\<lambda>(key, c). \<not> time_sub now (ct_start c) \<ge> ct_window c)) st"

definition Len :: "memory_store \<Rightarrow> nat" where
  "Len st = sum_list (map length st)"

section \<open>Backoff\<close>

record backoff_config =
  FreeFailures :: int
  BaseDelay :: int
  MaxDelay :: int

fun double_until :: "int \<Rightarrow> nat \<Rightarrow> int \<Rightarrow> int" where
  \<comment> \<open>the loop of \<open>Delay\<close>; the count is its remaining iterations\<close>
  "double_until cap 0 d = d"
| "double_until cap (Suc n) d = (if d \<ge> cap then d else double_until cap n (wrap64 (d * 2)))"

definition Delay :: "int \<Rightarrow> backoff_config \<Rightarrow> int" where
  "Delay failures cfg =
     (let excess = wrap64 (failures - FreeFailures cfg) in
      if excess \<le> 0 then 0
      else let d = double_until (MaxDelay cfg) (nat (excess - 1)) (BaseDelay cfg) in
        if d > MaxDelay cfg then MaxDelay cfg else d)"

record attempt =
  at_failures :: int
  at_last :: instant

type_synonym backoff = "(gostr \<times> attempt) list"

definition NewBackoff :: backoff where
  "NewBackoff = []"

definition stale :: "backoff_config \<Rightarrow> attempt \<Rightarrow> instant \<Rightarrow> bool" where
  "stale cfg a now \<longleftrightarrow> time_sub now (at_last a) \<ge> MaxDelay cfg"

definition Attempt :: "backoff_config \<Rightarrow> instant \<Rightarrow> gostr \<Rightarrow> backoff \<Rightarrow> result \<times> backoff" where
  "Attempt cfg now key st =
     (let fresh = (admit, AList.update key \<lparr>at_failures = 1, at_last = now\<rparr> st)
      in case map_of st key of
        None \<Rightarrow> fresh
      | Some a \<Rightarrow>
          if stale cfg a now then fresh
          else let delay = Delay (at_failures a) cfg; elapsed = time_sub now (at_last a) in
            if delay > 0 \<and> elapsed < delay then (\<lparr>Allowed = False, RetryAfter = wrap64 (delay - elapsed)\<rparr>, st)
            else (admit, AList.update key \<lparr>at_failures = wrap64 (at_failures a + 1), at_last = now\<rparr> st))"

definition Succeed :: "gostr \<Rightarrow> backoff \<Rightarrow> backoff" where
  "Succeed key st = AList.delete key st"

definition Undo :: "gostr \<Rightarrow> backoff \<Rightarrow> backoff" where
  "Undo key st =
     (case map_of st key of
        None \<Rightarrow> st
      | Some a \<Rightarrow>
          let n = wrap64 (at_failures a - 1) in
          if n \<le> 0 then AList.delete key st
          else AList.update key (a\<lparr>at_failures := n\<rparr>) st)"

definition Backoff_EvictStale :: "backoff_config \<Rightarrow> instant \<Rightarrow> backoff \<Rightarrow> backoff" where
  "Backoff_EvictStale cfg now st = filter (\<lambda>(key, a). \<not> stale cfg a now) st"

definition Backoff_Len :: "backoff \<Rightarrow> nat" where
  "Backoff_Len st = length st"

end
