(* ===== verification/Gateway.thy ===== *)
theory Gateway
  imports Limiter PkgAuth GoJSON
begin

text \<open>
  services/gateway: the middleware (internal/middleware), the reverse proxies
  (internal/proxy) and the routing table (internal/handler/router.go). A header map has
  lower-case names. A handler takes the request, the headers its response writer already
  has and the gateway's state, as \<open>http.Handler\<close>, \<open>w.Header()\<close> and the shared limiters do.

  Arguments: \<open>netip\<close> is package net/netip, \<open>lib\<close> the JWT library, \<open>parse\<close> the JSON value at
  the start of a body, \<open>backend\<close> what a service answers (\<open>None\<close> when it cannot be reached),
  \<open>known\<close> the methods chi registers for \<open>Handle\<close>.
\<close>

section \<open>Requests and responses\<close>

type_synonym headers = "gostr \<Rightarrow> gostr list option"

definition hget :: "headers \<Rightarrow> gostr \<Rightarrow> gostr" where
  "hget h name = (case h name of Some (v # _) \<Rightarrow> v | _ \<Rightarrow> [])"

definition hset :: "gostr \<Rightarrow> gostr \<Rightarrow> headers \<Rightarrow> headers" where
  "hset name v h = h(name := Some [v])"

definition hadd :: "gostr \<Rightarrow> gostr \<Rightarrow> headers \<Rightarrow> headers" where
  "hadd name v h = h(name := Some ((case h name of None \<Rightarrow> [] | Some vs \<Rightarrow> vs) @ [v]))"

definition hdel :: "gostr \<Rightarrow> headers \<Rightarrow> headers" where
  "hdel name h = h(name := None)"

datatype body = NoBody | Stream "nat list" bool | MaxBytes int body
datatype read_result = ReadOk "nat list" | ReadTooLarge | ReadFailed

fun sent :: "body \<Rightarrow> nat list" where
  "sent NoBody = []"
| "sent (Stream bs fails) = bs"
| "sent (MaxBytes limit b) = take (nat limit) (sent b)"

fun ReadAll :: "body \<Rightarrow> read_result" where
  \<comment> \<open>a stream sends its bytes and then ends or fails\<close>
  "ReadAll NoBody = ReadOk []"
| "ReadAll (Stream bs fails) = (if fails then ReadFailed else ReadOk bs)"
| "ReadAll (MaxBytes limit b) = (if int (length (sent b)) > limit then ReadTooLarge else ReadAll b)"

record greq =
  g_method :: gostr
  g_path :: gostr
  g_host :: gostr
  g_remote :: gostr
  g_headers :: headers
  g_length :: int
  g_body :: body
  g_user :: "gostr option"

datatype rbody = JsonError string gostr | Raw gostr

record gresp =
  r_status :: int
  r_headers :: headers
  r_body :: rbody

datatype service = AuthService | MarketData | TradingEngine | Backtesting | AIInsights

record gstate =
  gs_store :: memory_store
  gs_backoff :: backoff
  gs_forwarded :: "(service \<times> greq) list"

type_synonym handler = "greq \<Rightarrow> headers \<Rightarrow> gstate \<Rightarrow> gresp \<times> gstate"

definition write_error :: "int \<Rightarrow> string \<Rightarrow> gostr \<Rightarrow> headers \<Rightarrow> gresp" where
  \<comment> \<open>\<open>httperr.Write\<close>\<close>
  "write_error status code message h =
     \<lparr>r_status = status, r_headers = hset (lit ''content-type'') (lit ''application/json'') h, r_body = JsonError code message\<rparr>"

section \<open>Identity\<close>

definition UserIDHeader :: gostr where "UserIDHeader = lit ''x-user-id''"

definition StripUserID :: "handler \<Rightarrow> handler" where
  "StripUserID next r h s = next (r\<lparr>g_headers := hdel UserIDHeader (g_headers r)\<rparr>) h s"

definition InjectUserID :: "handler \<Rightarrow> handler" where
  "InjectUserID next r h s =
     (case g_user r of
        None \<Rightarrow> (write_error 500 ''internal_error'' (lit ''internal server error'') h, s)
      | Some user \<Rightarrow>
          if user = [] then (write_error 500 ''internal_error'' (lit ''internal server error'') h, s)
          else next (r\<lparr>g_headers := hset UserIDHeader user (g_headers r)\<rparr>) h s)"

definition Authenticated :: "jwt_lib \<Rightarrow> instant \<Rightarrow> secret \<Rightarrow> handler \<Rightarrow> handler" where
  \<comment> \<open>\<open>pkgauth.RequireAuth\<close> as a middleware of the chain\<close>
  "Authenticated lib now secret next r h s =
     RequireAuth lib now secret (hget (g_headers r) (lit ''authorization''))
       (write_error 401 ''invalid_token'' (lit ''invalid or expired token'') h, s)
       (\<lambda>subject. next (r\<lparr>g_user := Some subject\<rparr>) h s)"

section \<open>CORS\<close>

definition CORS :: "gostr \<Rightarrow> handler \<Rightarrow> handler" where
  "CORS allowedOrigin next r h0 s =
     (let h1 = hadd (lit ''vary'') (lit ''Origin'') h0;
          origin = hget (g_headers r) (lit ''origin'');
          allowed = (origin \<noteq> [] \<and> origin = allowedOrigin);
          h2 = (if allowed then hset (lit ''access-control-allow-origin'') origin h1 else h1)
      in if g_method r = lit ''OPTIONS'' \<and> hget (g_headers r) (lit ''access-control-request-method'') \<noteq> [] then
           (\<lparr>r_status = 204,
             r_headers = (if allowed then
                 hset (lit ''access-control-max-age'') (lit ''300'')
                (hset (lit ''access-control-allow-headers'') (lit ''Authorization, Content-Type'')
                (hset (lit ''access-control-allow-methods'') (lit ''GET, POST, OPTIONS'') h2)) else h2),
             r_body = Raw []\<rparr>, s)
         else next r h2 s)"

section \<open>Bodies\<close>

definition MaxBodyBytes :: int where "MaxBodyBytes = 65536"

text \<open>The server gives every request a body, \<open>http.NoBody\<close> when the client sends none.\<close>

definition LimitBody :: "int \<Rightarrow> handler \<Rightarrow> handler" where
  "LimitBody limit next r h s =
     (if g_length r > limit then
        (write_error 413 ''payload_too_large'' (lit ''request body is too large'') h, s)
      else next (r\<lparr>g_body := MaxBytes limit (g_body r)\<rparr>) h s)"

definition BufferBody :: "handler \<Rightarrow> handler" where
  "BufferBody next r h s =
     (if g_body r = NoBody then next r h s
      else case ReadAll (g_body r) of
        ReadTooLarge \<Rightarrow> (write_error 413 ''payload_too_large'' (lit ''request body is too large'') h, s)
      | ReadFailed \<Rightarrow> (write_error 400 ''invalid_request'' (lit ''request body could not be read'') h, s)
      | ReadOk buf \<Rightarrow> next (r\<lparr>g_body := Stream buf False, g_length := int (length buf)\<rparr>) h s)"

section \<open>The client's address\<close>

record ('a, 'p) netip =
  ni_addr :: "gostr \<Rightarrow> 'a option"
  ni_prefix :: "gostr \<Rightarrow> 'p option"
  ni_host :: "'a \<Rightarrow> 'p"
  ni_contains :: "'p \<Rightarrow> 'a \<Rightarrow> bool"
  ni_unmap :: "'a \<Rightarrow> 'a"
  ni_string :: "'a \<Rightarrow> gostr"

fun parse_proxies :: "('a, 'p) netip \<Rightarrow> gostr list \<Rightarrow> 'p list \<Rightarrow> 'p list option" where
  "parse_proxies ni [] acc = Some acc"
| "parse_proxies ni (f # fs) acc =
     (let field = trim_space f in
      if field = [] then parse_proxies ni fs acc
      else case ni_prefix ni field of
        Some p \<Rightarrow> parse_proxies ni fs (acc @ [p])
      | None \<Rightarrow> (case ni_addr ni field of
          None \<Rightarrow> None
        | Some a \<Rightarrow> parse_proxies ni fs (acc @ [ni_host ni a])))"

definition ParseTrustedProxies :: "('a, 'p) netip \<Rightarrow> gostr \<Rightarrow> 'p list option" where
  "ParseTrustedProxies ni raw = parse_proxies ni (split_rune 44 raw) []"

definition trusts :: "('a, 'p) netip \<Rightarrow> 'p list \<Rightarrow> gostr \<Rightarrow> bool" where
  "trusts ni trusted host =
     (if trusted = [] then False
      else case ni_addr ni host of None \<Rightarrow> False
        | Some a \<Rightarrow> list_ex (\<lambda>p. ni_contains ni p (ni_unmap ni a)) trusted)"

definition peerIP :: "gostr \<Rightarrow> gostr" where
  "peerIP remote = (case SplitHostPort remote of None \<Rightarrow> remote | Some (host, _) \<Rightarrow> host)"

fun rightmost_field :: "('a, 'p) netip \<Rightarrow> gostr list \<Rightarrow> gostr" where
  \<comment> \<open>the fields last first\<close>
  "rightmost_field ni [] = []"
| "rightmost_field ni (f # fs) =
     (let field = trim_space f in
      if field = [] then rightmost_field ni fs
      else case ni_addr ni field of
        Some a \<Rightarrow> ni_string ni (ni_unmap ni a)
      | None \<Rightarrow> (case SplitHostPort field of
          None \<Rightarrow> []
        | Some (host, _) \<Rightarrow> (case ni_addr ni host of
            None \<Rightarrow> []
          | Some a \<Rightarrow> ni_string ni (ni_unmap ni a))))"

definition rightmostForwarded :: "('a, 'p) netip \<Rightarrow> gostr \<Rightarrow> gostr" where
  "rightmostForwarded ni header = rightmost_field ni (rev (split_rune 44 header))"

definition clientIP :: "('a, 'p) netip \<Rightarrow> 'p list \<Rightarrow> greq \<Rightarrow> gostr" where
  "clientIP ni trusted r =
     (let peer = peerIP (g_remote r) in
      if \<not> trusts ni trusted peer then peer
      else let forwarded = rightmostForwarded ni (hget (g_headers r) (lit ''x-forwarded-for'')) in
        if forwarded \<noteq> [] then forwarded else peer)"

section \<open>Rate limits\<close>

definition second_ns :: int where "second_ns = 1000000000"

definition duration_seconds :: "int \<Rightarrow> f64" where
  \<comment> \<open>\<open>Duration.Seconds\<close>; the quotients of a negative duration are never asked for\<close>
  "duration_seconds d = fint (d div second_ns) + fint (d mod second_ns) / FNum 1000000000"

fun to_int :: "f64 \<Rightarrow> int" where
  \<comment> \<open>the conversion to \<open>int\<close> truncates; of a value that is not finite it is not specified\<close>
  "to_int (FNum q) = (if 0 \<le> q then \<lfloor>q\<rfloor> else - \<lfloor>- q\<rfloor>)"
| "to_int _ = 0"

definition retry_seconds :: "int \<Rightarrow> int" where
  "retry_seconds retryAfter =
     (let n = to_int (duration_seconds retryAfter);
          up = (if retryAfter > 0 \<and> retryAfter > wrap64 (n * second_ns) then n + 1 else n)
      in if up < 1 then 1 else up)"

fun decimal_digits :: "nat \<Rightarrow> gostr" where
  "decimal_digits n = (if n < 10 then [48 + n] else decimal_digits (n div 10) @ [48 + n mod 10])"

declare decimal_digits.simps [simp del]

definition decimal :: "int \<Rightarrow> gostr" where
  \<comment> \<open>\<open>strconv.Itoa\<close>\<close>
  "decimal n = (if n < 0 then 45 # decimal_digits (nat (- n)) else decimal_digits (nat n))"

definition writeRateLimited :: "int \<Rightarrow> headers \<Rightarrow> gresp" where
  "writeRateLimited retryAfter h =
     write_error 429 ''rate_limited'' (lit ''too many requests, please try again later'')
       (hset (lit ''retry-after'') (decimal (retry_seconds retryAfter)) h)"

definition RateLimitByIP :: "('a, 'p) netip \<Rightarrow> instant \<Rightarrow> int \<Rightarrow> int \<Rightarrow> 'p list \<Rightarrow> handler \<Rightarrow> handler" where
  "RateLimitByIP ni now limit window trusted next r h s =
     (case Allow now (clientIP ni trusted r) limit window (gs_store s) of
        (res, store') \<Rightarrow>
          let s' = s\<lparr>gs_store := store'\<rparr> in
          if \<not> Allowed res then (writeRateLimited (RetryAfter res) h, s')
          else next r h s')"

definition loginEmail :: "(nat list \<Rightarrow> json option) \<Rightarrow> (rune \<Rightarrow> rune) \<Rightarrow> int \<Rightarrow> body \<Rightarrow> gostr" where
  \<comment> \<open>the key; the body handed on is the body received\<close>
  "loginEmail parse uc maxBytes b =
     (if b = NoBody then []
      else case ReadAll b of
        ReadTooLarge \<Rightarrow> []
      | ReadFailed \<Rightarrow> []
      | ReadOk buf \<Rightarrow>
          if int (length buf) > maxBytes then []
          else (case Option.bind (parse buf) (dec_field (lit ''email'') dec_string []) of
              None \<Rightarrow> []
            | Some email \<Rightarrow> to_lower uc (trim_space email)))"

definition RateLimitLoginByAccount :: "(nat list \<Rightarrow> json option) \<Rightarrow> (rune \<Rightarrow> rune) \<Rightarrow> instant \<Rightarrow> backoff_config \<Rightarrow> int
    \<Rightarrow> handler \<Rightarrow> handler" where
  "RateLimitLoginByAccount parse uc now cfg maxBytes next r h s =
     (let key = loginEmail parse uc maxBytes (g_body r) in
      if key = [] then next r h s
      else case Attempt cfg now key (gs_backoff s) of
        (res, b1) \<Rightarrow>
          if \<not> Allowed res then (writeRateLimited (RetryAfter res) h, s\<lparr>gs_backoff := b1\<rparr>)
          else (case next r h (s\<lparr>gs_backoff := b1\<rparr>) of
            (resp, s') \<Rightarrow>
              (resp,
               if r_status resp = 401 then s'
               else if r_status resp = 200 then s'\<lparr>gs_backoff := Succeed key (gs_backoff s')\<rparr>
               else s'\<lparr>gs_backoff := Undo key (gs_backoff s')\<rparr>)))"

text \<open>A server handles its requests concurrently, so others come between the two halves of a login:
  what it does until it has been forwarded, and what the answer makes of the optimistic count.\<close>

definition LoginWaiting :: "(nat list \<Rightarrow> json option) \<Rightarrow> (rune \<Rightarrow> rune) \<Rightarrow> instant \<Rightarrow> backoff_config \<Rightarrow> int
    \<Rightarrow> handler \<Rightarrow> handler" where
  \<comment> \<open>\<open>RateLimitLoginByAccount\<close> up to the return of \<open>next.ServeHTTP\<close>\<close>
  "LoginWaiting parse uc now cfg maxBytes next r h s =
     (let key = loginEmail parse uc maxBytes (g_body r) in
      if key = [] then next r h s
      else case Attempt cfg now key (gs_backoff s) of
        (res, b1) \<Rightarrow>
          if \<not> Allowed res then (writeRateLimited (RetryAfter res) h, s\<lparr>gs_backoff := b1\<rparr>)
          else next r h (s\<lparr>gs_backoff := b1\<rparr>))"

definition LoginAnswered :: "gostr \<Rightarrow> int \<Rightarrow> gstate \<Rightarrow> gstate" where
  \<comment> \<open>the switch on the recorded status\<close>
  "LoginAnswered key status s =
     (if status = 401 then s
      else if status = 200 then s\<lparr>gs_backoff := Succeed key (gs_backoff s)\<rparr>
      else s\<lparr>gs_backoff := Undo key (gs_backoff s)\<rparr>)"

section \<open>The reverse proxy\<close>

definition hop_headers :: "gostr list" where
  \<comment> \<open>the hop-by-hop headers of \<open>httputil.ReverseProxy\<close>\<close>
  "hop_headers = map lit [''connection'', ''proxy-connection'', ''keep-alive'', ''proxy-authenticate'',
     ''proxy-authorization'', ''te'', ''trailer'', ''transfer-encoding'', ''upgrade'']"

definition connection_tokens :: "headers \<Rightarrow> gostr list" where
  "connection_tokens h = filter (\<lambda>t. t \<noteq> []) (map (ascii_lower \<circ> trim_ascii)
     (concat (map (split_rune 44) (case h (lit ''connection'') of None \<Rightarrow> [] | Some vs \<Rightarrow> vs))))"

definition remove_hop_headers :: "headers \<Rightarrow> headers" where
  "remove_hop_headers h = foldl (\<lambda>g name. hdel name g) h (connection_tokens h @ hop_headers)"

definition forwarding_headers :: "gostr list" where
  "forwarding_headers = map lit [''forwarded'', ''x-forwarded-for'', ''x-forwarded-host'', ''x-forwarded-proto'']"

definition set_forwarded :: "greq \<Rightarrow> headers \<Rightarrow> headers" where
  \<comment> \<open>\<open>SetXForwarded\<close> on headers without the family; the gateway's listener is plain HTTP\<close>
  "set_forwarded r h =
     (let h1 = (case SplitHostPort (g_remote r) of
          None \<Rightarrow> hdel (lit ''x-forwarded-for'') h
        | Some (ip, _) \<Rightarrow> hset (lit ''x-forwarded-for'') ip h)
      in hset (lit ''x-forwarded-proto'') (lit ''http'') (hset (lit ''x-forwarded-host'') (g_host r) h1))"

definition proxy_rewrite :: "greq \<Rightarrow> greq" where
  "proxy_rewrite r =
     (let h1 = foldl (\<lambda>g name. hdel name g) (remove_hop_headers (g_headers r)) forwarding_headers
      in r\<lparr>g_headers := set_forwarded r (hdel (lit ''x-real-ip'') h1)\<rparr>)"

definition copy_headers :: "headers \<Rightarrow> headers \<Rightarrow> headers" where
  "copy_headers dst src = (\<lambda>name. case src name of None \<Rightarrow> dst name
     | Some vs \<Rightarrow> Some ((case dst name of None \<Rightarrow> [] | Some ws \<Rightarrow> ws) @ vs))"

definition service_name :: "service \<Rightarrow> gostr" where
  "service_name svc = (case svc of AuthService \<Rightarrow> lit ''auth'' | MarketData \<Rightarrow> lit ''market-data''
     | TradingEngine \<Rightarrow> lit ''trading-engine'' | Backtesting \<Rightarrow> lit ''backtesting'' | AIInsights \<Rightarrow> lit ''ai-insights'')"

definition Proxy :: "(service \<Rightarrow> greq \<Rightarrow> gresp option) \<Rightarrow> service \<Rightarrow> handler" where
  "Proxy backend svc r h s =
     (let out = proxy_rewrite r; s' = s\<lparr>gs_forwarded := gs_forwarded s @ [(svc, out)]\<rparr> in
      case backend svc out of
        None \<Rightarrow> (write_error 502 ''upstream_unavailable'' (service_name svc @ lit '' service is unavailable'') h, s')
      | Some resp \<Rightarrow> (resp\<lparr>r_headers := copy_headers h (remove_hop_headers (r_headers resp))\<rparr>, s'))"

section \<open>The routing table\<close>

record 'p rate_limit_config =
  rl_enabled :: bool
  rl_ip_limit :: int
  rl_ip_window :: int
  rl_trusted :: "'p list"
  rl_backoff :: "backoff_config option"
  rl_max_login :: int

datatype route = Healthz | AuthLogin | AuthRoute | Protected service | NoRoute

definition route_of :: "gostr \<Rightarrow> route" where
  \<comment> \<open>chi prefers the static path, and a wildcard does not match the bare prefix\<close>
  "route_of path =
     (if path = lit ''/healthz'' then Healthz
      else if path = lit ''/auth/login'' then AuthLogin
      else if has_prefix (lit ''/auth/'') path then AuthRoute
      else if has_prefix (lit ''/market-data/'') path then Protected MarketData
      else if has_prefix (lit ''/trading/'') path then Protected TradingEngine
      else if path = lit ''/backtests'' \<or> has_prefix (lit ''/backtests/'') path then Protected Backtesting
      else if has_prefix (lit ''/insights/'') path then Protected AIInsights
      else NoRoute)"

record ('a, 'p) gateway_env =
  ge_netip :: "('a, 'p) netip"
  ge_jwt :: jwt_lib
  ge_secret :: secret
  ge_parse :: "nat list \<Rightarrow> json option"
  ge_lower :: "rune \<Rightarrow> rune"
  ge_known :: "gostr \<Rightarrow> bool"
  ge_backend :: "service \<Rightarrow> greq \<Rightarrow> gresp option"
  ge_origin :: gostr
  ge_rate :: "'p rate_limit_config"

definition login_throttle :: "('a, 'p) gateway_env \<Rightarrow> instant \<Rightarrow> handler \<Rightarrow> handler" where
  "login_throttle env now next =
     (case rl_backoff (ge_rate env) of
        Some cfg \<Rightarrow> if rl_enabled (ge_rate env)
          then RateLimitLoginByAccount (ge_parse env) (ge_lower env) now cfg (rl_max_login (ge_rate env)) next else next
      | None \<Rightarrow> next)"

definition login_waiting :: "('a, 'p) gateway_env \<Rightarrow> instant \<Rightarrow> handler \<Rightarrow> handler" where
  \<comment> \<open>the login throttle while the answer is outstanding\<close>
  "login_waiting env now next =
     (case rl_backoff (ge_rate env) of
        Some cfg \<Rightarrow> if rl_enabled (ge_rate env)
          then LoginWaiting (ge_parse env) (ge_lower env) now cfg (rl_max_login (ge_rate env)) next else next
      | None \<Rightarrow> next)"

definition login_answered :: "('a, 'p) gateway_env \<Rightarrow> service \<times> greq \<Rightarrow> int \<Rightarrow> gstate \<Rightarrow> gstate" where
  \<comment> \<open>the answer to a forwarded request; only a login that was given a key waits for one\<close>
  "login_answered env fwd status s = (case fwd of (svc, out) \<Rightarrow>
     let key = loginEmail (ge_parse env) (ge_lower env) (rl_max_login (ge_rate env)) (g_body out) in
     if svc = AuthService \<and> g_path out = lit ''/auth/login'' \<and> rl_enabled (ge_rate env) \<and> rl_backoff (ge_rate env) \<noteq> None \<and> key \<noteq> []
     then LoginAnswered key status s else s)"

definition ip_throttle :: "('a, 'p) gateway_env \<Rightarrow> instant \<Rightarrow> handler \<Rightarrow> handler" where
  "ip_throttle env now next =
     (if rl_enabled (ge_rate env)
      then RateLimitByIP (ge_netip env) now (rl_ip_limit (ge_rate env)) (rl_ip_window (ge_rate env)) (rl_trusted (ge_rate env)) next
      else next)"

definition routed_by :: "(handler \<Rightarrow> handler) \<Rightarrow> ('a, 'p) gateway_env \<Rightarrow> instant \<Rightarrow> handler" where
  \<comment> \<open>the table around a given throttle of \<open>POST /auth/login\<close>\<close>
  "routed_by throttle env now r h s =
     (case route_of (g_path r) of
        NoRoute \<Rightarrow> (write_error 404 ''not_found'' (lit ''no route matches this path'') h, s)
      | Healthz \<Rightarrow> if g_method r = lit ''GET'' then (\<lparr>r_status = 200, r_headers = h, r_body = Raw (lit ''ok'')\<rparr>, s)
          else (write_error 405 ''method_not_allowed'' (lit ''method not allowed for this path'') h, s)
      | rt \<Rightarrow>
          if \<not> ge_known env (g_method r) then (write_error 405 ''method_not_allowed'' (lit ''method not allowed for this path'') h, s)
          else (case rt of
              AuthLogin \<Rightarrow> ip_throttle env now (BufferBody (throttle (Proxy (ge_backend env) AuthService))) r h s
            | Protected svc \<Rightarrow> Authenticated (ge_jwt env) now (ge_secret env) (InjectUserID (BufferBody (Proxy (ge_backend env) svc))) r h s
            | _ \<Rightarrow> ip_throttle env now (BufferBody (Proxy (ge_backend env) AuthService)) r h s))"

definition routed :: "('a, 'p) gateway_env \<Rightarrow> instant \<Rightarrow> handler" where
  "routed env now = routed_by (login_throttle env now) env now"

definition NewRouter :: "('a, 'p) gateway_env \<Rightarrow> instant \<Rightarrow> greq \<Rightarrow> gstate \<Rightarrow> gresp \<times> gstate" where
  "NewRouter env now r s = StripUserID (CORS (ge_origin env) (LimitBody MaxBodyBytes (routed env now))) r (\<lambda>_. None) s"

definition router_waiting :: "('a, 'p) gateway_env \<Rightarrow> instant \<Rightarrow> greq \<Rightarrow> gstate \<Rightarrow> gresp \<times> gstate" where
  \<comment> \<open>the router up to the point where a login waits for its answer\<close>
  "router_waiting env now r s =
     StripUserID (CORS (ge_origin env) (LimitBody MaxBodyBytes (routed_by (login_waiting env now) env now))) r (\<lambda>_. None) s"

end
