(* ===== verification/LimiterFacts.thy ===== *)
theory LimiterFacts
  imports Limiter
begin

text \<open>
  The contract of the limiter's \<open>Store\<close> interface as a locale, the sharded store as its
  implementation, the bound on admitted requests, and the facts about backoff.
\<close>

section \<open>Association lists as maps\<close>

lemma map_of_filter_key:
  "distinct (map fst al) \<Longrightarrow>
     map_of (filter (\<lambda>(k, v). P v) al) k = (case map_of al k of None \<Rightarrow> None | Some v \<Rightarrow> if P v then Some v else None)"
proof (induction al)
  case (Cons kv al)
  have "k = fst kv \<Longrightarrow> map_of al k = None" using Cons.prems by (auto simp: map_of_eq_None_iff)
  then show ?case using Cons by (cases kv) (auto split: option.splits)
qed simp

lemma distinct_filter_keys: "distinct (map fst al) \<Longrightarrow> distinct (map fst (filter P al))"
  by (rule distinct_map_filter)

section \<open>The contract of a store\<close>

text \<open>One key of the contract: the counter it has and what a request makes of it.\<close>

fun window_step :: "instant \<Rightarrow> int \<Rightarrow> int \<Rightarrow> counter option \<Rightarrow> result \<times> counter option" where
  "window_step now limit window None = (admit, Some \<lparr>ct_count = 1, ct_start = now, ct_window = window\<rparr>)"
| "window_step now limit window (Some c) =
     (if time_sub now (ct_start c) \<ge> window then (admit, Some \<lparr>ct_count = 1, ct_start = now, ct_window = window\<rparr>)
      else if ct_count c \<ge> limit then (\<lparr>Allowed = False, RetryAfter = wrap64 (window - time_sub now (ct_start c))\<rparr>, Some c)
      else (admit, Some (c\<lparr>ct_count := wrap64 (ct_count c + 1)\<rparr>)))"

definition window_evict :: "instant \<Rightarrow> counter option \<Rightarrow> counter option" where
  "window_evict now e = (case e of None \<Rightarrow> None
     | Some c \<Rightarrow> if time_sub now (ct_start c) \<ge> ct_window c then None else Some c)"

datatype event = Call gostr int int | Sweep

fun admitted :: "(instant \<Rightarrow> gostr \<Rightarrow> int \<Rightarrow> int \<Rightarrow> 's \<Rightarrow> result \<times> 's) \<Rightarrow> (instant \<Rightarrow> 's \<Rightarrow> 's)
    \<Rightarrow> (instant \<times> event) list \<Rightarrow> 's \<Rightarrow> (instant \<times> gostr) list" where
  \<comment> \<open>the requests a store lets through, with their times\<close>
  "admitted allow evict [] s = []"
| "admitted allow evict ((now, Call k limit window) # es) s =
     (case allow now k limit window s of
        (r, s') \<Rightarrow> (if Allowed r then [(now, k)] else []) @ admitted allow evict es s')"
| "admitted allow evict ((now, Sweep) # es) s = admitted allow evict es (evict now s)"

fun final_state :: "(instant \<Rightarrow> gostr \<Rightarrow> int \<Rightarrow> int \<Rightarrow> 's \<Rightarrow> result \<times> 's) \<Rightarrow> (instant \<Rightarrow> 's \<Rightarrow> 's)
    \<Rightarrow> (instant \<times> event) list \<Rightarrow> 's \<Rightarrow> 's" where
  "final_state allow evict [] s = s"
| "final_state allow evict ((now, Call k limit window) # es) s = final_state allow evict es (snd (allow now k limit window s))"
| "final_state allow evict ((now, Sweep) # es) s = final_state allow evict es (evict now s)"

definition one_policy :: "gostr \<Rightarrow> int \<Rightarrow> int \<Rightarrow> (instant \<times> event) list \<Rightarrow> bool" where
  "one_policy k limit window es \<longleftrightarrow> (\<forall>t l w. (t, Call k l w) \<in> set es \<longrightarrow> l = limit \<and> w = window)"

definition passes :: "gostr \<Rightarrow> instant \<Rightarrow> instant \<Rightarrow> (instant \<times> gostr) list \<Rightarrow> nat" where
  "passes k t u entries = length (filter (\<lambda>(n, k'). k' = k \<and> t \<le> n \<and> n < u) entries)"

lemma passes_append [simp]: "passes k t u (xs @ ys) = passes k t u xs + passes k t u ys"
  by (simp add: passes_def)

lemma passes_Nil [simp]: "passes k t u [] = 0"
  by (simp add: passes_def)

lemma passes_one [simp]: "passes k t u [(n, k')] = (if k' = k \<and> t \<le> n \<and> n < u then 1 else 0)"
  by (simp add: passes_def)

definition budget :: "int \<Rightarrow> instant \<Rightarrow> instant \<Rightarrow> counter option \<Rightarrow> int" where
  \<comment> \<open>what one key can still get through from the time \<open>now\<close> to the end of a window that
    starts at \<open>t\<close>\<close>
  "budget limit t now e =
     (if now < t then 2 * limit
      else case e of None \<Rightarrow> limit
        | Some c \<Rightarrow> if ct_start c \<ge> t then limit - ct_count c else 2 * limit - ct_count c)"

definition entry_ok :: "int \<Rightarrow> int \<Rightarrow> instant \<Rightarrow> counter option \<Rightarrow> bool" where
  "entry_ok limit window now e \<longleftrightarrow> (case e of None \<Rightarrow> True
     | Some c \<Rightarrow> ct_window c = window \<and> 1 \<le> ct_count c \<and> ct_count c \<le> limit \<and> ct_start c \<le> now)"

lemma budget_nonneg: "entry_ok limit window now e \<Longrightarrow> 1 \<le> limit \<Longrightarrow> 0 \<le> budget limit t now' e"
  by (auto simp: budget_def entry_ok_def split: option.splits)

lemma entry_ok_later: "entry_ok limit window now e \<Longrightarrow> now \<le> now' \<Longrightarrow> entry_ok limit window now' e"
  by (auto simp: entry_ok_def split: option.splits)

lemma step_budget:
  assumes "1 \<le> limit" "limit \<le> max_int" "1 \<le> window" "window \<le> max_int" "entry_ok limit window T e" "T \<le> now" "now < t + window"
    and "window_step now limit window e = (r, e')"
  shows "entry_ok limit window now e'
    \<and> (if Allowed r \<and> t \<le> now then 1 else 0) + budget limit t now e' \<le> budget limit t T e"
proof -
  have g: "time_sub now u \<ge> window \<longleftrightarrow> now - u \<ge> window" for u
    using assms(3,4) by (intro time_sub_ge) (simp_all add: min_int_def)
  have w: "wrap64 (c + 1) = c + 1" if "1 \<le> c" "c < limit" for c
    using that assms(2) by (intro wrap64_id) (simp add: int64_def max_int_def)
  show ?thesis
  proof (cases e)
    case None
    then show ?thesis using assms by (auto simp: budget_def entry_ok_def)
  next
    case (Some c)
    then show ?thesis using assms w [of "ct_count c"] by (auto simp: budget_def entry_ok_def g split: if_splits)
  qed
qed

lemma evict_budget:
  assumes "1 \<le> limit" "1 \<le> window" "window \<le> max_int" "entry_ok limit window T e" "T \<le> now" "now < t + window"
  shows "entry_ok limit window now (window_evict now e) \<and> budget limit t now (window_evict now e) \<le> budget limit t T e"
proof -
  have g: "time_sub now u \<ge> window \<longleftrightarrow> now - u \<ge> window" for u
    using assms(2,3) by (intro time_sub_ge) (simp_all add: min_int_def)
  show ?thesis using assms g
    by (cases e) (auto simp: budget_def entry_ok_def window_evict_def)
qed

locale window_store =
  fixes allow :: "instant \<Rightarrow> gostr \<Rightarrow> int \<Rightarrow> int \<Rightarrow> 's \<Rightarrow> result \<times> 's"
    and evict :: "instant \<Rightarrow> 's \<Rightarrow> 's"
    and entry :: "'s \<Rightarrow> gostr \<Rightarrow> counter option"
    and good :: "'s \<Rightarrow> bool"
  assumes allow_good: "good s \<Longrightarrow> good (snd (allow now k limit window s))"
    and evict_good: "good s \<Longrightarrow> good (evict now s)"
    and allow_step: "good s \<Longrightarrow> (fst (allow now k limit window s), entry (snd (allow now k limit window s)) k)
        = window_step now limit window (entry s k)"
    and allow_other: "good s \<Longrightarrow> k' \<noteq> k \<Longrightarrow> entry (snd (allow now k limit window s)) k' = entry s k'"
    and evict_step: "good s \<Longrightarrow> entry (evict now s) k = window_evict now (entry s k)"
begin

lemma late_passes: "(\<And>t' e. (t', e) \<in> set es \<Longrightarrow> u \<le> t') \<Longrightarrow> passes k t u (admitted allow evict es s) = 0"
proof (induction allow evict es s rule: admitted.induct)
  case (2 allow evict now k' limit window es s)
  have "u \<le> now" by (rule 2(2) [of now "Call k' limit window"]) simp
  moreover have "passes k t u (admitted allow evict es s') = 0" if "allow now k' limit window s = (r, s')" for r s'
    using 2(1) [OF that [symmetric]] 2(2) by (meson list.set_intros(2))
  ultimately show ?case by (auto split: prod.splits)
next
  case (3 allow evict now es s)
  then show ?case by (metis admitted.simps(3) list.set_intros(2))
qed simp_all

lemma passes_le_budget:
  assumes "1 \<le> limit" "limit \<le> max_int" "1 \<le> window" "window \<le> max_int"
  shows "good s \<Longrightarrow> sorted (map fst es) \<Longrightarrow> (\<And>t' e. (t', e) \<in> set es \<Longrightarrow> T \<le> t') \<Longrightarrow> one_policy k limit window es
    \<Longrightarrow> entry_ok limit window T (entry s k)
    \<Longrightarrow> int (passes k t (t + window) (admitted allow evict es s)) \<le> budget limit t T (entry s k)"
proof (induction es arbitrary: s T)
  case Nil
  then show ?case using assms by (simp add: budget_nonneg)
next
  case (Cons te es)
  obtain now e where te: "te = (now, e)" by fastforce
  have later: "now \<le> t'" if "(t', e') \<in> set (te # es)" for t' e' using Cons.prems(2) that te by force
  have T: "T \<le> now" using Cons.prems(3) [of now e] te by simp
  show ?case
  proof (cases "now < t + window")
    case False
    then have "passes k t (t + window) (admitted allow evict (te # es) s) = 0"
      by (intro late_passes) (use later in fastforce)
    then show ?thesis using Cons.prems(5) assms by (simp add: budget_nonneg)
  next
    case True
    have rest: "sorted (map fst es)" "one_policy k limit window es"
      using Cons.prems(2,4) by (auto simp: one_policy_def)
    have rest3: "now \<le> t'" if "(t', e') \<in> set es" for t' e' using later [of t' e'] that by simp
    note ok = entry_ok_later [OF Cons.prems(5) T]
    show ?thesis
    proof (cases e)
      case Sweep
      note b = evict_budget [OF assms(1,3,4) Cons.prems(5) T True]
      have "int (passes k t (t + window) (admitted allow evict es (evict now s))) \<le> budget limit t now (window_evict now (entry s k))"
        using Cons.IH [OF evict_good [OF Cons.prems(1)] rest(1) rest3 rest(2)] b evict_step [OF Cons.prems(1)] by simp
      then show ?thesis using b by (simp add: te Sweep)
    next
      case (Call k' l w)
      obtain r s' where a: "allow now k' l w s = (r, s')" by fastforce
      then have g: "good s'" using allow_good [OF Cons.prems(1), of now k' l w] by simp
      show ?thesis
      proof (cases "k' = k")
        case False
        then have same: "entry s' k = entry s k" using allow_other [OF Cons.prems(1), of k k' now l w] a by simp
        have "budget limit t now (entry s k) \<le> budget limit t T (entry s k)"
          using T ok assms(1) by (auto simp: budget_def entry_ok_def split: option.splits)
        moreover have "int (passes k t (t + window) (admitted allow evict es s')) \<le> budget limit t now (entry s k)"
          using Cons.IH [OF g rest(1) rest3 rest(2)] ok same by simp
        ultimately show ?thesis using False by (simp add: te Call a)
      next
        case same: True
        then have p: "l = limit" "w = window" using Cons.prems(4) te Call by (auto simp: one_policy_def)
        have st: "window_step now limit window (entry s k) = (r, entry s' k)"
          using allow_step [OF Cons.prems(1), of now k limit window] a same p by simp
        note b = step_budget [OF assms Cons.prems(5) T True st]
        have "int (passes k t (t + window) (admitted allow evict es s')) \<le> budget limit t now (entry s' k)"
          using Cons.IH [OF g rest(1) rest3 rest(2)] b by simp
        then show ?thesis using b True a [unfolded same] by (auto simp: te Call same split: if_splits)
      qed
    qed
  qed
qed

lemma passes_bound:
  assumes "1 \<le> limit" "limit \<le> max_int" "1 \<le> window" "window \<le> max_int" "good s" "entry s k = None"
    "sorted (map fst es)" "one_policy k limit window es"
  shows "int (passes k t (t + window) (admitted allow evict es s)) \<le> 2 * limit"
proof (cases es)
  case Nil
  then show ?thesis using assms(1) by simp
next
  case (Cons te es')
  define T where "T = fst te"
  have "T \<le> t'" if "(t', e) \<in> set es" for t' e using that assms(7) Cons by (force simp: T_def)
  then have "int (passes k t (t + window) (admitted allow evict es s)) \<le> budget limit t T (entry s k)"
    using assms by (intro passes_le_budget) (auto simp: entry_ok_def)
  also have "\<dots> \<le> 2 * limit" using assms(1,6) by (simp add: budget_def)
  finally show ?thesis .
qed

lemma final_state_good: "good s \<Longrightarrow> good (final_state allow evict es s)"
  by (induction es arbitrary: s rule: list.induct)
    (metis allow_good evict_good event.exhaust final_state.simps prod.exhaust)+

lemma entry_between:
  assumes "good s" "\<And>t l w. (t, Call k l w) \<notin> set es" "entry s k = Some c"
  shows "entry (final_state allow evict es s) k = Some c \<or> entry (final_state allow evict es s) k = None"
  using assms
proof (induction es arbitrary: s)
  case (Cons te es)
  have none: "entry (final_state allow evict es s') k = None" if "good s'" "entry s' k = None" for s'
    using that Cons.prems(2)
  proof (induction es arbitrary: s')
    case (Cons te' es')
    obtain now e where te: "te' = (now, e)" by fastforce
    show ?case
    proof (cases e)
      case (Call k' l w)
      then have "k' \<noteq> k" using Cons.prems(3) te by (metis list.set_intros(1) list.set_intros(2))
      then show ?thesis using Cons.IH [of "snd (allow now k' l w s')"] Cons.prems allow_good allow_other
        by (simp add: te Call)
    next
      case Sweep
      then show ?thesis using Cons.IH [of "evict now s'"] Cons.prems evict_good evict_step
        by (simp add: te window_evict_def)
    qed
  qed simp
  obtain now e where te: "te = (now, e)" by fastforce
  show ?case
  proof (cases e)
    case (Call k' l w)
    then have "k' \<noteq> k" using Cons.prems(2) te by (metis list.set_intros(1))
    then show ?thesis using Cons.IH [of "snd (allow now k' l w s)"] Cons.prems allow_good allow_other
      by (simp add: te Call)
  next
    case Sweep
    then have "entry (evict now s) k = Some c \<or> entry (evict now s) k = None"
      using evict_step [OF Cons.prems(1)] Cons.prems(3) by (simp add: window_evict_def)
    then show ?thesis
      using Cons.IH [of "evict now s"] none [of "evict now s"] Cons.prems evict_good by (auto simp: te Sweep)
  qed
qed simp

lemma refused_then_admitted:
  assumes "good s" "1 \<le> window" "window \<le> max_int" "\<And>c. entry s k = Some c \<Longrightarrow> ct_start c \<le> now"
    and "allow now k limit window s = (r, s')" "\<not> Allowed r"
    and "\<And>t l w. (t, Call k l w) \<notin> set es" and "now + RetryAfter r \<le> later"
  shows "0 < RetryAfter r \<and> RetryAfter r \<le> window
    \<and> Allowed (fst (allow later k limit window (final_state allow evict es s')))"
proof -
  have g: "time_sub n u \<ge> window \<longleftrightarrow> n - u \<ge> window" for n u
    using assms(2,3) by (intro time_sub_ge) (simp_all add: min_int_def)
  have st: "window_step now limit window (entry s k) = (r, entry s' k)"
    using allow_step [OF assms(1), of now k limit window] assms(5) by simp
  then obtain c where c: "entry s k = Some c" "entry s' k = Some c" "now - ct_start c < window"
      "r = \<lparr>Allowed = False, RetryAfter = wrap64 (window - time_sub now (ct_start c))\<rparr>"
    using assms(6) by (cases "entry s k") (auto simp: g not_le split: if_splits)
  have b: "0 \<le> now - ct_start c" "now - ct_start c < max_int" using assms(3,4) c by fastforce+
  then have "time_sub now (ct_start c) = now - ct_start c" by (simp add: time_sub_def clamp_def min_int_def)
  then have r: "RetryAfter r = window - (now - ct_start c)"
    using c(3,4) b assms(2,3) by (simp add: wrap64_id int64_def max_int_def)
  have g': "good s'" using allow_good [OF assms(1), of now k limit window] assms(5) by simp
  have "later - ct_start c \<ge> window" using assms(8) r by simp
  then have "Allowed (fst (window_step later limit window (entry (final_state allow evict es s') k)))"
    using entry_between [OF g' assms(7) c(2)] g by auto
  then have "Allowed (fst (allow later k limit window (final_state allow evict es s')))"
    using allow_step [OF final_state_good [OF g'], of later k limit window es] by (metis fst_conv)
  then show ?thesis using r c(3) b by simp
qed

end

section \<open>The sharded store fulfils it\<close>

definition ms_entry :: "memory_store \<Rightarrow> gostr \<Rightarrow> counter option" where
  "ms_entry st k = map_of (st ! shardFor k) k"

definition ms_good :: "memory_store \<Rightarrow> bool" where
  "ms_good st \<longleftrightarrow> length st = shardCount \<and> (\<forall>sh\<in>set st. distinct (map fst sh))"

lemma shardFor_less: "shardFor k < shardCount"
proof -
  have "shardFor k = unat (fnv32a (utf8 k)) mod 16" by (simp add: shardFor_def shardCount_def unat_mod)
  then show ?thesis by (simp add: shardCount_def)
qed

lemma ms_good_shard: "ms_good st \<Longrightarrow> distinct (map fst (st ! shardFor k))"
  using shardFor_less [of k] by (simp add: ms_good_def)

lemma ms_good_update: "ms_good st \<Longrightarrow> ms_good (st[shardFor k := AList.update k c (st ! shardFor k)])"
  using ms_good_shard [of st k] by (auto simp: ms_good_def distinct_update dest!: set_update_subset_insert [THEN subsetD])

lemma ms_entry_update: "ms_good st \<Longrightarrow>
    ms_entry (st[shardFor k := AList.update k c (st ! shardFor k)]) k' = (if k' = k then Some c else ms_entry st k')"
  using shardFor_less [of k] by (auto simp: ms_entry_def ms_good_def nth_list_update update_conv')

lemma Allow_eq: "Allow now k limit window st =
   (let fresh = (admit, st[shardFor k := AList.update k \<lparr>ct_count = 1, ct_start = now, ct_window = window\<rparr> (st ! shardFor k)])
    in case ms_entry st k of None \<Rightarrow> fresh
    | Some c \<Rightarrow> if time_sub now (ct_start c) \<ge> window then fresh
        else if ct_count c \<ge> limit then (\<lparr>Allowed = False, RetryAfter = wrap64 (window - time_sub now (ct_start c))\<rparr>, st)
        else (admit, st[shardFor k := AList.update k (c\<lparr>ct_count := wrap64 (ct_count c + 1)\<rparr>) (st ! shardFor k)]))"
  by (simp add: Allow_def ms_entry_def Let_def)

interpretation ms: window_store Allow EvictStale ms_entry ms_good
proof
  show "ms_good s \<Longrightarrow> ms_good (snd (Allow now k limit window s))" for s now k limit window
    by (auto simp: Allow_eq Let_def ms_good_update split: option.splits)
  show "ms_good s \<Longrightarrow> ms_good (EvictStale now s)" for s now
    by (auto simp: ms_good_def EvictStale_def intro: distinct_filter_keys)
  show "ms_good s \<Longrightarrow> (fst (Allow now k limit window s), ms_entry (snd (Allow now k limit window s)) k)
      = window_step now limit window (ms_entry s k)" for s now k limit window
    by (cases "ms_entry s k") (simp_all add: Allow_eq ms_entry_update)
  show "ms_good s \<Longrightarrow> k' \<noteq> k \<Longrightarrow> ms_entry (snd (Allow now k limit window s)) k' = ms_entry s k'" for s k' k now limit window
    by (auto simp: Allow_eq Let_def ms_entry_update split: option.splits)
  show "ms_good s \<Longrightarrow> ms_entry (EvictStale now s) k = window_evict now (ms_entry s k)" for s now k
    using ms_good_shard [of s k] shardFor_less [of k]
    by (simp add: ms_entry_def EvictStale_def ms_good_def map_of_filter_key window_evict_def split: option.splits)
qed

lemma ms_good_new: "ms_good NewMemoryStore"
  by (simp add: ms_good_def NewMemoryStore_def)

lemma ms_entry_new: "ms_entry NewMemoryStore k = None"
  using shardFor_less [of k] by (simp add: ms_entry_def NewMemoryStore_def)

section \<open>The schedule of delays\<close>

lemma double_until_closed:
  assumes "0 < d" "cap \<le> 2 ^ 62" "d \<le> 2 ^ 62"
  shows "min cap (double_until cap n d) = min cap (d * 2 ^ n)"
  using assms
proof (induction n arbitrary: d)
  case (Suc n)
  show ?case
  proof (cases "d \<ge> cap")
    case True
    have "(1::int) \<le> 2 ^ Suc n" by (rule one_le_power) simp
    then have "d * 1 \<le> d * 2 ^ Suc n" using Suc.prems(1) by (intro mult_left_mono) simp_all
    then show ?thesis using True by simp
  next
    case False
    then have w: "wrap64 (d * 2) = d * 2" using Suc.prems by (intro wrap64_id) (simp add: int64_def)
    show ?thesis
    proof (cases "d * 2 \<le> 2 ^ 62")
      case True
      then show ?thesis using Suc.IH [of "d * 2"] Suc.prems False w by (simp add: mult.assoc)
    next
      case big: False
      then have c: "cap \<le> d * 2" using Suc.prems by simp
      have "d * 2 * 1 \<le> d * 2 * 2 ^ n" using Suc.prems(1) by (intro mult_left_mono) simp_all
      then have "cap \<le> d * 2 ^ Suc n" using c by (simp add: mult.assoc)
      moreover have "double_until cap n (d * 2) = d * 2" using c by (cases n) simp_all
      ultimately show ?thesis using c False w by simp
    qed
  qed
qed simp

lemma Delay_closed:
  assumes "0 < BaseDelay cfg" "BaseDelay cfg \<le> 2 ^ 62" "MaxDelay cfg \<le> 2 ^ 62" "int64 (failures - FreeFailures cfg)"
  shows "Delay failures cfg = (if failures \<le> FreeFailures cfg then 0
     else min (MaxDelay cfg) (BaseDelay cfg * 2 ^ nat (failures - FreeFailures cfg - 1)))"
  using double_until_closed [OF assms(1,3,2), of "nat (failures - FreeFailures cfg - 1)"] assms(4)
  by (auto simp: Delay_def wrap64_id Let_def min_def split: if_splits)

lemma Delay_range:
  assumes "0 < BaseDelay cfg" "BaseDelay cfg \<le> MaxDelay cfg" "MaxDelay cfg \<le> 2 ^ 62" "int64 (failures - FreeFailures cfg)"
    and "failures > FreeFailures cfg"
  shows "BaseDelay cfg \<le> Delay failures cfg \<and> Delay failures cfg \<le> MaxDelay cfg"
proof -
  have "BaseDelay cfg * 1 \<le> BaseDelay cfg * 2 ^ nat (failures - FreeFailures cfg - 1)"
    using assms(1) by (intro mult_left_mono) simp_all
  then show ?thesis using assms by (simp add: Delay_closed min_def)
qed

section \<open>A burst of guesses\<close>

datatype login_event = Guess gostr | Success gostr | Withdraw gostr | Evict

fun guesses :: "backoff_config \<Rightarrow> (instant \<times> login_event) list \<Rightarrow> backoff \<Rightarrow> (instant \<times> gostr) list" where
  \<comment> \<open>the guesses that reach the backend\<close>
  "guesses cfg [] st = []"
| "guesses cfg ((now, Guess k) # es) st =
     (case Attempt cfg now k st of (r, st') \<Rightarrow> (if Allowed r then [(now, k)] else []) @ guesses cfg es st')"
| "guesses cfg ((now, Success k) # es) st = guesses cfg es (Succeed k st)"
| "guesses cfg ((now, Withdraw k) # es) st = guesses cfg es (Undo k st)"
| "guesses cfg ((now, Evict) # es) st = guesses cfg es (Backoff_EvictStale cfg now st)"

definition all_wrong :: "gostr \<Rightarrow> (instant \<times> login_event) list \<Rightarrow> bool" where
  "all_wrong k es \<longleftrightarrow> (\<forall>t. (t, Success k) \<notin> set es \<and> (t, Withdraw k) \<notin> set es)"

definition attempt_ok :: "instant \<Rightarrow> attempt option \<Rightarrow> bool" where
  \<comment> \<open>a count that cannot wrap around during a burst that starts at \<open>t\<close>\<close>
  "attempt_ok t e \<longleftrightarrow> (case e of None \<Rightarrow> True
     | Some a \<Rightarrow> 1 \<le> at_failures a \<and> at_failures a \<le> 2 ^ 62 \<and> (at_last a < t \<longrightarrow> at_failures a < 2 ^ 62))"

definition guess_budget :: "backoff_config \<Rightarrow> instant \<Rightarrow> attempt option \<Rightarrow> int" where
  "guess_budget cfg t e = (case e of None \<Rightarrow> FreeFailures cfg + 1
     | Some a \<Rightarrow> if at_last a < t then FreeFailures cfg + 1 else max 0 (FreeFailures cfg + 1 - at_failures a))"

definition sane_config :: "backoff_config \<Rightarrow> bool" where
  "sane_config cfg \<longleftrightarrow> 0 \<le> FreeFailures cfg \<and> FreeFailures cfg < 2 ^ 61 \<and> 0 < BaseDelay cfg
     \<and> BaseDelay cfg \<le> MaxDelay cfg \<and> MaxDelay cfg \<le> 2 ^ 62"

lemma sane_sub: "sane_config cfg \<Longrightarrow> w = BaseDelay cfg \<or> w = MaxDelay cfg \<Longrightarrow> time_sub t u \<ge> w \<longleftrightarrow> t - u \<ge> w"
  by (rule time_sub_ge) (auto simp: sane_config_def max_int_def min_int_def)

lemma Attempt_entry:
  assumes sane: "sane_config cfg" and e: "attempt_ok t (map_of st k)" and now: "t \<le> now" "now < t + BaseDelay cfg"
    and run: "Attempt cfg now k st = (r, st')"
  shows "attempt_ok t (map_of st' k)
    \<and> (if Allowed r then 1 else 0) + guess_budget cfg t (map_of st' k) \<le> guess_budget cfg t (map_of st k)"
proof (cases "map_of st k")
  case None
  then show ?thesis using run now sane by (auto simp: Attempt_def guess_budget_def attempt_ok_def sane_config_def update_conv')
next
  case (Some a)
  have f: "1 \<le> at_failures a" "at_failures a \<le> 2 ^ 62" using e Some by (simp_all add: attempt_ok_def)
  have i: "int64 (at_failures a - FreeFailures cfg)" using f sane by (simp add: int64_def sane_config_def)
  have w: "wrap64 (at_failures a + 1) = at_failures a + 1" using f by (intro wrap64_id) (simp add: int64_def)
  have d: "Delay (at_failures a) cfg = 0" if "at_failures a \<le> FreeFailures cfg"
    using Delay_closed [of cfg "at_failures a"] sane that i by (simp add: sane_config_def)
  show ?thesis
  proof (cases "at_last a < t")
    case True
    then show ?thesis using run now sane e w f Some
      by (auto simp: Attempt_def guess_budget_def attempt_ok_def sane_config_def update_conv' Let_def split: if_splits)
  next
    case False
    have "\<not> stale cfg a now"
      using sane_sub [OF sane, of "MaxDelay cfg" now "at_last a"] False now(2) sane by (simp add: stale_def sane_config_def)
    moreover have "Delay (at_failures a) cfg > 0 \<and> time_sub now (at_last a) < Delay (at_failures a) cfg"
      if "at_failures a > FreeFailures cfg"
    proof -
      have "BaseDelay cfg \<le> Delay (at_failures a) cfg" "0 < BaseDelay cfg"
        using Delay_range [of cfg "at_failures a"] sane that i by (simp_all add: sane_config_def)
      moreover have "time_sub now (at_last a) < BaseDelay cfg"
        using sane_sub [OF sane, of "BaseDelay cfg" now "at_last a"] False now(2) by simp
      ultimately show ?thesis by simp
    qed
    ultimately show ?thesis using run e w f d False sane now(1)
      by (cases "at_failures a \<le> FreeFailures cfg")
        (auto simp: Attempt_def Some guess_budget_def attempt_ok_def update_conv' Let_def sane_config_def)
  qed
qed

lemma Attempt_other: "k' \<noteq> k \<Longrightarrow> map_of (snd (Attempt cfg now k st)) k' = map_of st k'"
  by (auto simp: Attempt_def Let_def update_conv' split: option.splits)

lemma Attempt_distinct: "distinct (map fst st) \<Longrightarrow> distinct (map fst (snd (Attempt cfg now k st)))"
  by (auto simp: Attempt_def Let_def distinct_update split: option.splits)

lemma Undo_other: "k' \<noteq> k \<Longrightarrow> map_of (Undo k st) k' = map_of st k'"
  by (auto simp: Undo_def Let_def update_conv' delete_conv' split: option.splits)

lemma Undo_distinct: "distinct (map fst st) \<Longrightarrow> distinct (map fst (Undo k st))"
  by (auto simp: Undo_def Let_def distinct_update distinct_delete split: option.splits)

lemma Evict_entry:
  assumes sane: "sane_config cfg" and "distinct (map fst st)" and e: "attempt_ok t (map_of st k)" and now: "now < t + BaseDelay cfg"
  shows "attempt_ok t (map_of (Backoff_EvictStale cfg now st) k)
    \<and> guess_budget cfg t (map_of (Backoff_EvictStale cfg now st) k) \<le> guess_budget cfg t (map_of st k)"
proof (cases "map_of st k")
  case None
  then show ?thesis using assms(2) e by (simp add: Backoff_EvictStale_def map_of_filter_key)
next
  case (Some a)
  have "at_last a < t" if "stale cfg a now"
    using sane_sub [OF sane, of "MaxDelay cfg" now "at_last a"] that now sane by (simp add: stale_def sane_config_def)
  then show ?thesis using assms(2) e Some
    by (auto simp: Backoff_EvictStale_def map_of_filter_key attempt_ok_def guess_budget_def)
qed

lemma burst_bound:
  assumes sane: "sane_config cfg"
  shows "distinct (map fst st) \<Longrightarrow> attempt_ok t (map_of st k) \<Longrightarrow> all_wrong k es
    \<Longrightarrow> (\<forall>x\<in>set es. t \<le> fst x \<and> fst x < t + BaseDelay cfg)
    \<Longrightarrow> int (length (filter (\<lambda>(n, k'). k' = k) (guesses cfg es st))) \<le> guess_budget cfg t (map_of st k)"
proof (induction es arbitrary: st)
  case Nil
  then show ?case using sane by (auto simp: guess_budget_def sane_config_def split: option.splits)
next
  case (Cons te es)
  obtain now e where te: "te = (now, e)" by fastforce
  have now: "t \<le> now" "now < t + BaseDelay cfg" using Cons.prems(4) te by simp_all
  have rest: "all_wrong k es" using Cons.prems(3) by (simp add: all_wrong_def)
  have times: "\<forall>x\<in>set es. t \<le> fst x \<and> fst x < t + BaseDelay cfg" using Cons.prems(4) by simp
  note IH = Cons.IH [OF _ _ rest times]
  show ?case
  proof (cases e)
    case (Guess k')
    obtain r st' where a: "Attempt cfg now k' st = (r, st')" by fastforce
    have dst: "distinct (map fst st')" using Attempt_distinct [OF Cons.prems(1), of cfg now k'] a by simp
    show ?thesis
    proof (cases "k' = k")
      case True
      note en = Attempt_entry [OF sane Cons.prems(2) now a [unfolded True]]
      then show ?thesis using IH [OF dst] a by (auto simp: te Guess True split: if_splits)
    next
      case False
      then have "map_of st' k = map_of st k" using Attempt_other [of k k' cfg now st] a by simp
      then show ?thesis using IH [OF dst] Cons.prems(2) a False by (auto simp: te Guess)
    qed
  next
    case (Success k')
    then have "k' \<noteq> k" using Cons.prems(3) te by (auto simp: all_wrong_def)
    then have "map_of (Succeed k' st) k = map_of st k" by (simp add: Succeed_def delete_conv')
    then show ?thesis using IH [of "Succeed k' st"] Cons.prems(1,2) by (simp add: te Success) (simp add: Succeed_def distinct_delete)
  next
    case (Withdraw k')
    then have "k' \<noteq> k" using Cons.prems(3) te by (auto simp: all_wrong_def)
    then show ?thesis using IH [OF Undo_distinct [OF Cons.prems(1)], of k'] Cons.prems(2) by (simp add: te Withdraw Undo_other)
  next
    case Evict
    note ev = Evict_entry [OF sane Cons.prems(1,2) now(2)]
    have "distinct (map fst (Backoff_EvictStale cfg now st))"
      using Cons.prems(1) by (simp add: Backoff_EvictStale_def distinct_filter_keys)
    from IH [OF this] ev show ?thesis by (simp add: te Evict)
  qed
qed

lemma guess_budget_le: "attempt_ok t e \<Longrightarrow> sane_config cfg \<Longrightarrow> guess_budget cfg t e \<le> FreeFailures cfg + 1"
  by (auto simp: guess_budget_def attempt_ok_def sane_config_def split: option.splits)

end
