(* ===== verification/GatewayFacts.thy ===== *)
theory GatewayFacts
  imports Gateway LimiterFacts
begin

text \<open>
  What passes the gateway: the headers and bodies that reach a backend, the wait a refusal
  announces, and what the handlers of the chain do to the state.
\<close>

section \<open>Headers\<close>

lemma hdel_fold: "foldl (\<lambda>g name. hdel name g) h names = (\<lambda>n. if n \<in> set names then None else h n)"
  by (induction names arbitrary: h) (auto simp: hdel_def fun_eq_iff)

lemma header_names:
  "lit ''x-real-ip'' \<noteq> lit ''x-forwarded-for''" "lit ''x-real-ip'' \<noteq> lit ''x-forwarded-host''" "lit ''x-real-ip'' \<noteq> lit ''x-forwarded-proto''"
  "lit ''x-forwarded-for'' \<noteq> lit ''x-forwarded-host''" "lit ''x-forwarded-for'' \<noteq> lit ''x-forwarded-proto''"
  "lit ''x-real-ip'' \<noteq> UserIDHeader" "UserIDHeader \<noteq> lit ''x-real-ip''"
  "UserIDHeader \<noteq> lit ''x-forwarded-for''" "UserIDHeader \<noteq> lit ''x-forwarded-host''" "UserIDHeader \<noteq> lit ''x-forwarded-proto''"
  "UserIDHeader \<noteq> lit ''connection''" "UserIDHeader \<noteq> lit ''authorization''"
  "UserIDHeader \<notin> set hop_headers" "UserIDHeader \<notin> set forwarding_headers"
  "lit ''x-forwarded-host'' \<noteq> lit ''x-forwarded-proto''" "UserIDHeader \<noteq> lit ''forwarded''"
  by (simp_all add: UserIDHeader_def hop_headers_def forwarding_headers_def lit_def)

lemma set_forwarded_other:
  "n \<noteq> lit ''x-forwarded-for'' \<Longrightarrow> n \<noteq> lit ''x-forwarded-host'' \<Longrightarrow> n \<noteq> lit ''x-forwarded-proto'' \<Longrightarrow> set_forwarded r h n = h n"
  by (simp add: set_forwarded_def hset_def hdel_def Let_def split: option.split prod.split)

definition handed_on :: "greq \<Rightarrow> gostr list option \<Rightarrow> headers" where
  \<comment> \<open>the headers a backend gets for a request: the forwarding family states the connection and
    nothing the client claimed, what concerns the connection is dropped, the identity is the given
    one, and everything else is as the client sent it\<close>
  "handed_on r identity = (\<lambda>n.
     if n = lit ''x-forwarded-for'' then map_option (\<lambda>(ip, _). [ip]) (SplitHostPort (g_remote r))
     else if n = lit ''x-forwarded-host'' then Some [g_host r]
     else if n = lit ''x-forwarded-proto'' then Some [lit ''http'']
     else if n = lit ''forwarded'' \<or> n = lit ''x-real-ip'' \<or> n \<in> set hop_headers \<union> set (connection_tokens (g_headers r)) then None
     else if n = UserIDHeader then identity
     else g_headers r n)"

lemma rewritten_headers: "g_headers (proxy_rewrite r) = handed_on r (g_headers r UserIDHeader)"
proof
  fix n
  show "g_headers (proxy_rewrite r) n = handed_on r (g_headers r UserIDHeader) n"
  proof (cases "n = lit ''x-forwarded-for'' \<or> n = lit ''x-forwarded-host'' \<or> n = lit ''x-forwarded-proto''")
    case True
    then show ?thesis using header_names
      by (auto simp: handed_on_def proxy_rewrite_def Let_def set_forwarded_def hset_def hdel_def split: option.split prod.split)
  next
    case False
    then have "g_headers (proxy_rewrite r) n =
        hdel (lit ''x-real-ip'') (foldl (\<lambda>g name. hdel name g) (remove_hop_headers (g_headers r)) forwarding_headers) n"
      by (simp add: proxy_rewrite_def Let_def set_forwarded_other)
    also have "\<dots> = handed_on r (g_headers r UserIDHeader) n"
      using False header_names
      by (auto simp: handed_on_def hdel_def [of "lit ''x-real-ip''"] remove_hop_headers_def hdel_fold forwarding_headers_def)
    finally show ?thesis .
  qed
qed

lemma handed_on_identity: "handed_on (r\<lparr>g_headers := (g_headers r)(UserIDHeader := v)\<rparr>) i = handed_on r i"
  using header_names by (auto simp: handed_on_def connection_tokens_def)

lemma handed_on_keeps [simp]: "handed_on (r\<lparr>g_body := b\<rparr>) i = handed_on r i" "handed_on (r\<lparr>g_user := u\<rparr>) i = handed_on r i"
    "handed_on (r\<lparr>g_length := l\<rparr>) i = handed_on r i"
  by (simp_all add: handed_on_def fun_eq_iff)

lemma rewrite_keeps [simp]:
  "g_path (proxy_rewrite r) = g_path r" "g_body (proxy_rewrite r) = g_body r" "g_length (proxy_rewrite r) = g_length r"
  "g_method (proxy_rewrite r) = g_method r"
  by (simp_all add: proxy_rewrite_def Let_def)

lemma connection_other: "n \<noteq> lit ''connection'' \<Longrightarrow> connection_tokens (h(n := v)) = connection_tokens h"
  by (simp add: connection_tokens_def)

lemma hget_other: "n \<noteq> m \<Longrightarrow> hget (h(n := v)) m = hget h m"
  by (simp add: hget_def)

section \<open>What one request forwards\<close>

definition forwards :: "(greq \<Rightarrow> service \<Rightarrow> greq \<Rightarrow> bool) \<Rightarrow> handler \<Rightarrow> bool" where
  \<comment> \<open>a request is forwarded at most once, and then as the predicate says\<close>
  "forwards P hnd \<longleftrightarrow> (\<forall>r h s resp s'. hnd r h s = (resp, s') \<longrightarrow>
     gs_forwarded s' = gs_forwarded s \<or> (\<exists>svc out. gs_forwarded s' = gs_forwarded s @ [(svc, out)] \<and> P r svc out))"

lemma forwardsI:
  "(\<And>r h s resp s'. hnd r h s = (resp, s') \<Longrightarrow>
     gs_forwarded s' = gs_forwarded s \<or> (\<exists>svc out. gs_forwarded s' = gs_forwarded s @ [(svc, out)] \<and> P r svc out)) \<Longrightarrow> forwards P hnd"
  unfolding forwards_def by blast

lemma forwardsD: "forwards P hnd \<Longrightarrow> hnd r h s = (resp, s') \<Longrightarrow>
   gs_forwarded s' = gs_forwarded s \<or> (\<exists>svc out. gs_forwarded s' = gs_forwarded s @ [(svc, out)] \<and> P r svc out)"
  unfolding forwards_def by blast

lemma forwards_Proxy: "forwards (\<lambda>r svc' out. svc' = svc \<and> out = proxy_rewrite r) (Proxy backend svc)"
  by (rule forwardsI) (auto simp: Proxy_def Let_def split: option.splits)

definition buffer :: "nat list \<Rightarrow> greq \<Rightarrow> greq" where
  "buffer buf r = (if g_body r = NoBody then r else r\<lparr>g_body := Stream buf False, g_length := int (length buf)\<rparr>)"

lemma buffer_keeps [simp]:
  "g_path (buffer buf r) = g_path r" "g_remote (buffer buf r) = g_remote r" "g_headers (buffer buf r) = g_headers r"
  "g_method (buffer buf r) = g_method r" "handed_on (buffer buf r) i = handed_on r i"
  by (simp_all add: buffer_def)

lemma forwards_BufferBody:
  assumes "forwards P next"
  shows "forwards (\<lambda>r svc out. \<exists>buf. (g_body r = NoBody \<or> ReadAll (g_body r) = ReadOk buf) \<and> P (buffer buf r) svc out) (BufferBody next)"
  using assms by (intro forwardsI) (auto simp: BufferBody_def buffer_def split: if_splits read_result.splits dest!: forwardsD)

lemma forwards_InjectUserID:
  assumes "forwards P next"
  shows "forwards (\<lambda>r svc out. \<exists>user. g_user r = Some user \<and> user \<noteq> [] \<and>
      P (r\<lparr>g_headers := hset UserIDHeader user (g_headers r)\<rparr>) svc out) (InjectUserID next)"
  using assms by (intro forwardsI) (auto simp: InjectUserID_def split: if_splits option.splits dest!: forwardsD)

lemma forwards_Authenticated:
  assumes "forwards P next"
  shows "forwards (\<lambda>r svc out. \<exists>subject. authenticate lib now secret (hget (g_headers r) (lit ''authorization'')) = Some subject \<and>
      P (r\<lparr>g_user := Some subject\<rparr>) svc out) (Authenticated lib now secret next)"
  using assms by (intro forwardsI) (auto simp: Authenticated_def RequireAuth_def split: option.splits dest!: forwardsD)

lemma forwards_ip_throttle:
  assumes "forwards P next" shows "forwards P (ip_throttle env now next)"
proof (rule forwardsI)
  fix r h s resp s'
  assume run: "ip_throttle env now next r h s = (resp, s')"
  obtain store' where "s' = s\<lparr>gs_store := store'\<rparr> \<or> next r h (s\<lparr>gs_store := store'\<rparr>) = (resp, s') \<or> next r h s = (resp, s')"
    using run by (auto simp: ip_throttle_def RateLimitByIP_def Let_def split: if_splits prod.splits)
  then show "gs_forwarded s' = gs_forwarded s \<or> (\<exists>svc out. gs_forwarded s' = gs_forwarded s @ [(svc, out)] \<and> P r svc out)"
    using forwardsD [OF assms, of r h "s\<lparr>gs_store := store'\<rparr>" resp s'] forwardsD [OF assms, of r h s resp s'] by auto
qed

lemma forwards_login_throttle:
  assumes "forwards P next" shows "forwards P (login_throttle env now next)" "forwards P (login_waiting env now next)"
proof -
  have "gs_forwarded s' = gs_forwarded s \<or> (\<exists>svc out. gs_forwarded s' = gs_forwarded s @ [(svc, out)] \<and> P r svc out)"
    if run: "login_throttle env now next r h s = (resp, s') \<or> login_waiting env now next r h s = (resp, s')" for r h s resp s'
  proof -
    obtain b s1 where "gs_forwarded s' = gs_forwarded s1"
        "s1 = s\<lparr>gs_backoff := b\<rparr> \<or> next r h (s\<lparr>gs_backoff := b\<rparr>) = (resp, s1) \<or> next r h s = (resp, s1)"
      using run by (fastforce simp: login_throttle_def login_waiting_def RateLimitLoginByAccount_def LoginWaiting_def Let_def
          split: if_splits prod.splits option.splits)
    then show ?thesis
      using forwardsD [OF assms, of r h "s\<lparr>gs_backoff := b\<rparr>" resp s1] forwardsD [OF assms, of r h s resp s1] by auto
  qed
  then show "forwards P (login_throttle env now next)" "forwards P (login_waiting env now next)"
    unfolding forwards_def by blast+
qed

lemma forwards_LimitBody:
  assumes "forwards P next"
  shows "forwards (\<lambda>r svc out. P (r\<lparr>g_body := MaxBytes limit (g_body r)\<rparr>) svc out) (LimitBody limit next)"
  using assms by (intro forwardsI) (auto simp: LimitBody_def split: if_splits dest!: forwardsD)

lemma forwards_CORS: "forwards P next \<Longrightarrow> forwards P (CORS allowed next)"
  by (intro forwardsI) (auto simp: CORS_def Let_def split: if_splits dest!: forwardsD)

lemma forwards_StripUserID:
  "forwards P next \<Longrightarrow> forwards (\<lambda>r. P (r\<lparr>g_headers := hdel UserIDHeader (g_headers r)\<rparr>)) (StripUserID next)"
  by (intro forwardsI) (auto simp: StripUserID_def dest!: forwardsD)

lemma forwards_weaken: "forwards P hnd \<Longrightarrow> (\<And>r svc out. P r svc out \<Longrightarrow> Q r svc out) \<Longrightarrow> forwards Q hnd"
  unfolding forwards_def by blast

definition buffered :: "greq \<Rightarrow> greq \<Rightarrow> bool" where
  "buffered r out \<longleftrightarrow> (\<exists>buf. (g_body r = NoBody \<or> ReadAll (g_body r) = ReadOk buf)
     \<and> g_body out = g_body (buffer buf r) \<and> g_length out = g_length (buffer buf r))"

lemma bufferedI: "g_body r = NoBody \<or> ReadAll (g_body r) = ReadOk buf \<Longrightarrow> buffered r (proxy_rewrite (buffer buf r))"
  by (auto simp: buffered_def)

lemma route_of_auth: "route_of path = AuthLogin \<or> route_of path = AuthRoute \<Longrightarrow> has_prefix (lit ''/auth/'') path"
  by (auto simp: route_of_def has_prefix_iff lit_def split: if_splits)

lemma route_of_protected: "route_of path = Protected svc \<Longrightarrow> svc \<noteq> AuthService"
  by (auto simp: route_of_def split: if_splits)

lemma route_of_login: "route_of path = AuthLogin \<longleftrightarrow> path = lit ''/auth/login''"
  by (auto simp: route_of_def lit_def split: if_splits)

lemma routed_by_cases:
  assumes "routed_by throttle env now r h s = (resp, s')"
  shows "s' = s
    \<or> has_prefix (lit ''/auth/'') (g_path r) \<and> g_path r \<noteq> lit ''/auth/login''
      \<and> ip_throttle env now (BufferBody (Proxy (ge_backend env) AuthService)) r h s = (resp, s')
    \<or> has_prefix (lit ''/auth/'') (g_path r) \<and> g_path r = lit ''/auth/login''
      \<and> ip_throttle env now (BufferBody (throttle (Proxy (ge_backend env) AuthService))) r h s = (resp, s')
    \<or> (\<exists>svc. svc \<noteq> AuthService \<and> Authenticated (ge_jwt env) now (ge_secret env) (InjectUserID (BufferBody (Proxy (ge_backend env) svc))) r h s = (resp, s'))"
proof (cases "route_of (g_path r)")
  case AuthLogin
  then have "has_prefix (lit ''/auth/'') (g_path r)" "g_path r = lit ''/auth/login''"
    using route_of_auth [of "g_path r"] route_of_login [of "g_path r"] by auto
  then show ?thesis using assms AuthLogin by (simp add: routed_by_def split: if_splits)
next
  case AuthRoute
  then have "has_prefix (lit ''/auth/'') (g_path r)" "g_path r \<noteq> lit ''/auth/login''"
    using route_of_auth [of "g_path r"] route_of_login [of "g_path r"] by auto
  then show ?thesis using assms AuthRoute by (simp add: routed_by_def split: if_splits)
next
  case (Protected svc)
  then show ?thesis using assms route_of_protected by (simp add: routed_by_def split: if_splits) blast
qed (use assms in \<open>simp_all add: routed_by_def split: if_splits\<close>)

lemma routed_cases:
  assumes "routed env now r h s = (resp, s')"
  shows "s' = s
    \<or> has_prefix (lit ''/auth/'') (g_path r) \<and> g_path r \<noteq> lit ''/auth/login''
      \<and> ip_throttle env now (BufferBody (Proxy (ge_backend env) AuthService)) r h s = (resp, s')
    \<or> has_prefix (lit ''/auth/'') (g_path r) \<and> g_path r = lit ''/auth/login''
      \<and> ip_throttle env now (BufferBody (login_throttle env now (Proxy (ge_backend env) AuthService))) r h s = (resp, s')
    \<or> (\<exists>svc. svc \<noteq> AuthService \<and> Authenticated (ge_jwt env) now (ge_secret env) (InjectUserID (BufferBody (Proxy (ge_backend env) svc))) r h s = (resp, s'))"
  using routed_by_cases [OF assms [unfolded routed_def]] .

definition as_sent :: "jwt_lib \<Rightarrow> instant \<Rightarrow> secret \<Rightarrow> greq \<Rightarrow> service \<Rightarrow> greq \<Rightarrow> bool" where
  \<comment> \<open>what is forwarded of a request\<close>
  "as_sent lib now secret r svc out \<longleftrightarrow> buffered r out \<and> g_path out = g_path r \<and> g_method out = g_method r
     \<and> (if svc = AuthService then has_prefix (lit ''/auth/'') (g_path r) \<and> g_headers out = handed_on r (g_headers r UserIDHeader)
        else \<exists>subject. authenticate lib now secret (hget (g_headers r) (lit ''authorization'')) = Some subject \<and> subject \<noteq> []
          \<and> g_headers out = handed_on r (Some [subject]))"

lemma forwards_routed_by:
  assumes throttle: "\<And>P next. forwards P next \<Longrightarrow> forwards P (throttle next)"
  shows "forwards (as_sent (ge_jwt env) now (ge_secret env)) (routed_by throttle env now)"
proof (rule forwardsI)
  fix r h s resp s'
  assume run: "routed_by throttle env now r h s = (resp, s')"
  let ?goal = "gs_forwarded s' = gs_forwarded s \<or> (\<exists>svc out. gs_forwarded s' = gs_forwarded s @ [(svc, out)]
    \<and> as_sent (ge_jwt env) now (ge_secret env) r svc out)"
  note buf = forwards_BufferBody [OF forwards_Proxy]
  have auth: ?goal if p: "has_prefix (lit ''/auth/'') (g_path r)" and f: "forwards (\<lambda>r svc out. svc = AuthService \<and> (\<exists>buf. (g_body r = NoBody \<or> ReadAll (g_body r) = ReadOk buf) \<and>
      out = proxy_rewrite (buffer buf r))) hnd"
      and h: "hnd r h s = (resp, s')" for hnd
    using forwardsD [OF f h] p by (auto simp: as_sent_def rewritten_headers intro!: bufferedI split: if_splits)
  from routed_by_cases [OF run] show ?goal
  proof (elim disjE exE conjE)
    assume "s' = s" then show ?thesis by simp
  next
    assume p: "has_prefix (lit ''/auth/'') (g_path r)"
      and step: "ip_throttle env now (BufferBody (Proxy (ge_backend env) AuthService)) r h s = (resp, s')"
    show ?thesis
      by (rule auth [where hnd = "ip_throttle env now (BufferBody (Proxy (ge_backend env) AuthService))", OF p _ step])
        (rule forwards_weaken [OF forwards_ip_throttle [OF buf]], auto)
  next
    assume p: "has_prefix (lit ''/auth/'') (g_path r)"
      and step: "ip_throttle env now (BufferBody (throttle (Proxy (ge_backend env) AuthService))) r h s = (resp, s')"
    show ?thesis
      by (rule auth [where hnd = "ip_throttle env now (BufferBody (throttle (Proxy (ge_backend env) AuthService)))", OF p _ step])
        (rule forwards_weaken [OF forwards_ip_throttle [OF forwards_BufferBody [OF throttle [OF forwards_Proxy]]]], auto)
  next
    fix svc assume svc: "svc \<noteq> AuthService"
      and step: "Authenticated (ge_jwt env) now (ge_secret env) (InjectUserID (BufferBody (Proxy (ge_backend env) svc))) r h s = (resp, s')"
    from forwardsD [OF forwards_Authenticated [OF forwards_InjectUserID [OF buf]] step]
    consider "gs_forwarded s' = gs_forwarded s" | subject bytes r1 where
        "gs_forwarded s' = gs_forwarded s @ [(svc, proxy_rewrite (buffer bytes r1))]"
        "authenticate (ge_jwt env) now (ge_secret env) (hget (g_headers r) (lit ''authorization'')) = Some subject" "subject \<noteq> []"
        "r1 = r\<lparr>g_user := Some subject, g_headers := hset UserIDHeader subject (g_headers r)\<rparr>"
        "g_body r1 = NoBody \<or> ReadAll (g_body r1) = ReadOk bytes"
      by auto
    then show ?thesis
    proof cases
      case 2
      have "buffered r (proxy_rewrite (buffer bytes r1))" using 2(4,5) by (auto simp: buffered_def buffer_def)
      moreover have "g_headers (proxy_rewrite (buffer bytes r1)) = handed_on r (Some [subject])"
        using handed_on_identity [of "r\<lparr>g_user := Some subject\<rparr>" "Some [subject]" "Some [subject]"] 2(4)
        by (simp add: rewritten_headers hset_def)
      ultimately show ?thesis using 2 svc by (simp add: as_sent_def)
    qed simp
  qed
qed

text \<open>What the whole chain forwards: it gives every request a body to read.\<close>

definition forwarded_whole :: "jwt_lib \<Rightarrow> instant \<Rightarrow> secret \<Rightarrow> greq \<Rightarrow> service \<Rightarrow> greq \<Rightarrow> bool" where
  "forwarded_whole lib now secret r svc out \<longleftrightarrow>
     (\<exists>bytes. ReadAll (g_body r) = ReadOk bytes \<and> g_body out = Stream bytes False \<and> g_length out = int (length bytes) \<and> length bytes \<le> 65536)
     \<and> g_path out = g_path r \<and> g_method out = g_method r
     \<and> (if svc = AuthService then has_prefix (lit ''/auth/'') (g_path r) \<and> g_headers out = handed_on r None
        else \<exists>subject. authenticate lib now secret (hget (g_headers r) (lit ''authorization'')) = Some subject \<and> subject \<noteq> []
          \<and> g_headers out = handed_on r (Some [subject]))"

lemma sent_ReadAll: "ReadAll b = ReadOk buf \<Longrightarrow> buf = sent b"
  by (induction b arbitrary: buf) (auto split: if_splits)

lemma whole_as_sent:
  assumes "as_sent lib now secret (r\<lparr>g_headers := hdel UserIDHeader (g_headers r), g_body := MaxBytes MaxBodyBytes (g_body r)\<rparr>) svc out"
  shows "forwarded_whole lib now secret r svc out"
proof -
  let ?r = "r\<lparr>g_headers := hdel UserIDHeader (g_headers r), g_body := MaxBytes MaxBodyBytes (g_body r)\<rparr>"
  have ho: "handed_on ?r i = handed_on r i" for i
    using handed_on_identity [of r None i] by (simp add: hdel_def)
  have auth: "hget (hdel UserIDHeader (g_headers r)) (lit ''authorization'') = hget (g_headers r) (lit ''authorization'')"
    using header_names by (simp add: hdel_def hget_other)
  obtain bytes where b: "ReadAll (MaxBytes MaxBodyBytes (g_body r)) = ReadOk bytes" "g_body out = Stream bytes False" "g_length out = int (length bytes)"
    using assms by (auto simp: as_sent_def buffered_def buffer_def)
  have "ReadAll (g_body r) = ReadOk bytes" "length bytes \<le> 65536"
    using b(1) sent_ReadAll [of "g_body r" bytes] by (auto simp: MaxBodyBytes_def split: if_splits)
  then show ?thesis using assms b ho auth by (auto simp: as_sent_def forwarded_whole_def hdel_def split: if_splits)
qed

lemma forwards_router:
  assumes "NewRouter env now r s = (resp, s') \<or> router_waiting env now r s = (resp, s')"
  shows "gs_forwarded s' = gs_forwarded s
    \<or> (\<exists>svc out. gs_forwarded s' = gs_forwarded s @ [(svc, out)] \<and> forwarded_whole (ge_jwt env) now (ge_secret env) r svc out)"
proof -
  note chain = forwards_StripUserID [OF forwards_CORS [OF forwards_LimitBody [OF forwards_routed_by]]]
  have "forwards (\<lambda>r. forwarded_whole (ge_jwt env) now (ge_secret env) r)
      (StripUserID (CORS (ge_origin env) (LimitBody MaxBodyBytes (routed_by throttle env now))))"
    if "\<And>P next. forwards P next \<Longrightarrow> forwards P (throttle next)" for throttle
    by (rule forwards_weaken [OF chain [OF that]]) (simp_all add: whole_as_sent)
  note f = this [of "login_throttle env now"] this [of "login_waiting env now"]
  show ?thesis using assms forwardsD [OF f(1) [OF forwards_login_throttle(1)]] forwardsD [OF f(2) [OF forwards_login_throttle(2)]]
    unfolding NewRouter_def router_waiting_def routed_def by blast
qed

section \<open>The wait a refusal announces\<close>

lemma retry_seconds_bounds:
  assumes "0 < d" "d \<le> 2 ^ 62"
  shows "d \<le> retry_seconds d * second_ns \<and> (retry_seconds d - 1) * second_ns < d"
proof -
  define n ns where "n = d div second_ns" and "ns = d mod second_ns"
  have dn: "d = n * second_ns + ns" "0 \<le> ns" "ns < second_ns" by (simp_all add: n_def ns_def second_ns_def)
  have n: "0 \<le> n" "n < 2 ^ 33" using assms by (simp_all add: n_def second_ns_def)
  have f: "fint m = FNum (of_int m)" if "0 \<le> m" "m \<le> 2 ^ 53" for m
    using rnd_of_int [of m] that le_less_trans [of "of_int m :: rat" "2 ^ 53" "2 ^ 1024"]
    by (simp add: fint_def fl_def Let_def)
  define q where "q = rnd (of_int ns / 1000000000)"
  have q: "0 \<le> q" "q \<le> 1" "ns = 0 \<Longrightarrow> q = 0"
    using rnd_mono [of 0 "of_int ns / 1000000000"] rnd_mono [of "of_int ns / 1000000000" 1] dn
    by (simp_all add: q_def second_ns_def)
  have div: "fint ns / FNum 1000000000 = FNum q"
  proof -
    have "fint ns = FNum (of_int ns)" using dn by (intro f) (simp_all add: second_ns_def)
    then have "fint ns / FNum 1000000000 = fl False (of_int ns / 1000000000)" using dn by (simp add: fnum_ops)
    then show ?thesis using q by (simp add: fl_def q_def [symmetric] Let_def)
  qed
  define t where "t = rnd (of_int n + q)"
  have t: "of_int n \<le> t" "t \<le> of_int (n + 1)" "q = 0 \<Longrightarrow> t = of_int n"
    using rnd_mono [of "of_int n" "of_int n + q"] rnd_mono [of "of_int n + q" "of_int (n + 1)"] rnd_of_int [of n] rnd_of_int [of "n + 1"] q n
    by (simp_all add: t_def)
  have t0: "0 \<le> t" "t < 2 ^ 1024" using t n by (auto intro: order_trans [of 0 "of_int n"] le_less_trans)
  have "duration_seconds d = FNum t"
    using f [of n] n div t0 t by (simp add: duration_seconds_def n_def [symmetric] ns_def [symmetric] fnum_ops fl_def t_def [symmetric] Let_def)
  then have i: "to_int (duration_seconds d) = \<lfloor>t\<rfloor>" using t0 by simp
  have "n \<le> \<lfloor>t\<rfloor>" "\<lfloor>t\<rfloor> \<le> n + 1" using t floor_mono [OF t(2)] by (simp_all add: le_floor_iff)
  then have c: "\<lfloor>t\<rfloor> = n \<or> \<lfloor>t\<rfloor> = n + 1 \<and> ns \<noteq> 0" using q(3) t(3) by (cases "ns = 0") auto
  have w: "wrap64 (m * second_ns) = m * second_ns" if "m = n \<or> m = n + 1" for m
    using n that by (intro wrap64_id) (auto simp: int64_def second_ns_def)
  define m where "m = \<lfloor>t\<rfloor>"
  have m: "m = n \<or> m = n + 1 \<and> ns \<noteq> 0" using c by (simp add: m_def)
  have R: "retry_seconds d = (let up = (if d > m * second_ns then m + 1 else m) in if up < 1 then 1 else up)"
    unfolding retry_seconds_def i m_def [symmetric] Let_def using w [of m] m assms(1) by auto
  from m show ?thesis
  proof
    assume "m = n"
    then show ?thesis using R dn assms(1) n by (cases "ns = 0") (simp_all add: second_ns_def algebra_simps)
  next
    assume "m = n + 1 \<and> ns \<noteq> 0"
    then show ?thesis using R dn n by (simp add: second_ns_def algebra_simps)
  qed
qed

section \<open>What the handlers of the chain do to the state\<close>

definition steps :: "(gstate \<Rightarrow> gstate \<Rightarrow> bool) \<Rightarrow> (gostr \<Rightarrow> bool) \<Rightarrow> handler \<Rightarrow> bool" where
  \<comment> \<open>the states before and after a request with such a path are related\<close>
  "steps R Q hnd \<longleftrightarrow> (\<forall>r h s resp s'. Q (g_path r) \<longrightarrow> hnd r h s = (resp, s') \<longrightarrow> R s s')"

lemma stepsI: "(\<And>r h s resp s'. Q (g_path r) \<Longrightarrow> hnd r h s = (resp, s') \<Longrightarrow> R s s') \<Longrightarrow> steps R Q hnd"
  unfolding steps_def by blast

lemma stepsD: "steps R Q hnd \<Longrightarrow> hnd r h s = (resp, s') \<Longrightarrow> Q (g_path r) \<Longrightarrow> R s s'"
  unfolding steps_def by blast

text \<open>A handler that answers by itself leaves the state alone, one that calls the next adds
  nothing.\<close>

locale step_relation =
  fixes R :: "gstate \<Rightarrow> gstate \<Rightarrow> bool"
  assumes step_refl: "R s s"
begin

lemma steps_BufferBody: "steps R Q next \<Longrightarrow> steps R Q (BufferBody next)"
  by (rule stepsI) (auto simp: BufferBody_def step_refl split: if_splits read_result.splits dest: stepsD)

lemma steps_InjectUserID: "steps R Q next \<Longrightarrow> steps R Q (InjectUserID next)"
  by (rule stepsI) (auto simp: InjectUserID_def step_refl split: if_splits option.splits dest: stepsD)

lemma steps_Authenticated: "steps R Q next \<Longrightarrow> steps R Q (Authenticated lib now secret next)"
  by (rule stepsI) (auto simp: Authenticated_def RequireAuth_def step_refl split: option.splits dest: stepsD)

lemma steps_LimitBody: "steps R Q next \<Longrightarrow> steps R Q (LimitBody limit next)"
  by (rule stepsI) (auto simp: LimitBody_def step_refl split: if_splits dest: stepsD)

lemma steps_CORS: "steps R Q next \<Longrightarrow> steps R Q (CORS allowed next)"
  by (rule stepsI) (auto simp: CORS_def Let_def step_refl split: if_splits dest: stepsD)

lemma steps_StripUserID: "steps R Q next \<Longrightarrow> steps R Q (StripUserID next)"
  by (rule stepsI) (auto simp: StripUserID_def dest: stepsD)

end

text \<open>A relation that does not read the counters of the addresses.\<close>

locale storeless_relation = step_relation +
  assumes step_store: "R (s\<lparr>gs_store := st\<rparr>) s' = R s s'"
begin

lemma steps_ip_throttle:
  assumes "steps R Q next" shows "steps R Q (ip_throttle env now next)"
proof (rule stepsI)
  fix r h s resp s' assume q: "Q (g_path r)" and run: "ip_throttle env now next r h s = (resp, s')"
  obtain st where "s' = s\<lparr>gs_store := st\<rparr> \<or> next r h (s\<lparr>gs_store := st\<rparr>) = (resp, s') \<or> next r h s = (resp, s')"
    using run by (auto simp: ip_throttle_def RateLimitByIP_def Let_def split: if_splits prod.splits)
  then show "R s s'" using stepsD [OF assms _ q] step_store step_refl by metis
qed

lemma steps_routed_by:
  assumes "steps R (\<lambda>p. p = lit ''/auth/login'') (throttle (Proxy (ge_backend env) AuthService))"
    and "steps R (\<lambda>p. p \<noteq> lit ''/auth/login'') (Proxy (ge_backend env) AuthService)"
    and "\<And>svc. svc \<noteq> AuthService \<Longrightarrow> steps R (\<lambda>_. True) (Proxy (ge_backend env) svc)"
  shows "steps R (\<lambda>_. True) (routed_by throttle env now)"
proof (rule stepsI)
  fix r h s resp s'
  assume run: "routed_by throttle env now r h s = (resp, s')"
  note login = steps_ip_throttle [OF steps_BufferBody [OF assms(1)]]
    and other = steps_ip_throttle [OF steps_BufferBody [OF assms(2)]]
  from routed_by_cases [OF run] show "R s s'"
  proof (elim disjE exE conjE)
    assume "s' = s" then show ?thesis by (simp add: step_refl)
  next
    fix svc assume svc: "svc \<noteq> AuthService"
      and run: "Authenticated (ge_jwt env) now (ge_secret env) (InjectUserID (BufferBody (Proxy (ge_backend env) svc))) r h s = (resp, s')"
    show ?thesis
      using stepsD [OF steps_Authenticated [OF steps_InjectUserID [OF steps_BufferBody [OF assms(3) [OF svc]]]] run] by simp
  qed (auto intro: stepsD [OF login] stepsD [OF other])
qed

lemma steps_router_waiting:
  assumes "steps R (\<lambda>p. p = lit ''/auth/login'') (login_waiting env now (Proxy (ge_backend env) AuthService))"
    and "steps R (\<lambda>p. p \<noteq> lit ''/auth/login'') (Proxy (ge_backend env) AuthService)"
    and "\<And>svc. svc \<noteq> AuthService \<Longrightarrow> steps R (\<lambda>_. True) (Proxy (ge_backend env) svc)"
  shows "R s (snd (router_waiting env now r s))"
  using stepsD [OF steps_StripUserID [OF steps_CORS [OF steps_LimitBody [OF steps_routed_by [where throttle = "login_waiting env now", OF assms]]]]]
  by (simp add: router_waiting_def prod_eq_iff)

end

end
