(* ===== verification/GatewayProps.thy ===== *)
theory GatewayProps
  imports GatewayFacts
begin

text \<open>
  The properties of the gateway: the request limiter, the schedule of the login throttle, what
  may reach a backend, and the address a request is counted against.
\<close>

section \<open>The limiter\<close>

text \<open>Starting from an empty store, whatever keys are called with whatever policies and
  whenever stale entries are swept, a key that is always called with one limit and one window
  gets at most twice the limit through in any stretch of time as long as the window.\<close>

theorem window_limit_holds:
  assumes "1 \<le> limit" "limit \<le> max_int" "1 \<le> window" "window \<le> max_int"
    and "sorted (map fst es)" and "one_policy k limit window es"
  shows "int (passes k t (t + window) (admitted Allow EvictStale es NewMemoryStore)) \<le> 2 * limit"
  using ms.passes_bound [OF assms(1-4) ms_good_new ms_entry_new assms(5,6)] .

theorem window_limit_holds_witness:
  "int (passes [49] 0 10 (admitted Allow EvictStale
      [(0, Call [49] 1 10), (3, Call [50] 5 10), (4, Sweep), (5, Call [49] 1 10)] NewMemoryStore)) \<le> 2"
  using window_limit_holds [of 1 10 "[(0, Call [49] 1 10), (3, Call [50] 5 10), (4, Sweep), (5, Call [49] 1 10)]" "[49]" 0]
  by (simp add: one_policy_def max_int_def)

text \<open>A refusal is honest: it announces a positive wait within the window, in whole seconds
  rounded up, and a caller that waits that long is let through whatever other keys and sweeps did
  in between.\<close>

theorem retry_after_is_honest:
  assumes "ms_good st" and "1 \<le> window" "window \<le> 2 ^ 62" and "\<And>c. ms_entry st k = Some c \<Longrightarrow> ct_start c \<le> now"
    and "Allow now k limit window st = (r, st')" and "\<not> Allowed r"
    and "\<And>t l w. (t, Call k l w) \<notin> set es" and "now + retry_seconds (RetryAfter r) * second_ns \<le> later"
  shows "0 < RetryAfter r \<and> RetryAfter r \<le> window
    \<and> (retry_seconds (RetryAfter r) - 1) * second_ns < RetryAfter r
    \<and> Allowed (fst (Allow later k limit window (final_state Allow EvictStale es st')))"
proof -
  have w: "window \<le> max_int" using assms(3) by (simp add: max_int_def)
  note refused = ms.refused_then_admitted [OF assms(1,2) w assms(4-7)]
  have r: "0 < RetryAfter r" "RetryAfter r \<le> window" using refused [of "now + RetryAfter r"] by auto
  then have b: "RetryAfter r \<le> retry_seconds (RetryAfter r) * second_ns" "(retry_seconds (RetryAfter r) - 1) * second_ns < RetryAfter r"
    using retry_seconds_bounds [of "RetryAfter r"] assms(3) by auto
  then show ?thesis using refused [of later] assms(8) r by auto
qed

lemma demo_full: "Allow 5 [49] 1 10 (snd (Allow 0 [49] 1 10 NewMemoryStore)) =
    (\<lparr>Allowed = False, RetryAfter = 5\<rparr>, snd (Allow 0 [49] 1 10 NewMemoryStore))"
  "ms_entry (snd (Allow 0 [49] 1 10 NewMemoryStore)) [49] = Some \<lparr>ct_count = 1, ct_start = 0, ct_window = 10\<rparr>"
proof -
  have e: "ms_entry (snd (Allow 0 [49] 1 10 NewMemoryStore)) [49] = Some \<lparr>ct_count = 1, ct_start = 0, ct_window = 10\<rparr>"
    using ms.allow_step [OF ms_good_new, of 0 "[49]" 1 10] by (simp add: ms_entry_new)
  then show "ms_entry (snd (Allow 0 [49] 1 10 NewMemoryStore)) [49] = Some \<lparr>ct_count = 1, ct_start = 0, ct_window = 10\<rparr>" .
  show "Allow 5 [49] 1 10 (snd (Allow 0 [49] 1 10 NewMemoryStore)) =
    (\<lparr>Allowed = False, RetryAfter = 5\<rparr>, snd (Allow 0 [49] 1 10 NewMemoryStore))"
    unfolding Allow_eq [of 5] Let_def e by (simp add: time_sub_def clamp_def max_int_def min_int_def wrap64_id int64_def)
qed

theorem retry_after_is_honest_witness:
  "Allowed (fst (Allow 1000000005 [49] 1 10 (final_state Allow EvictStale [(7, Sweep)] (snd (Allow 0 [49] 1 10 NewMemoryStore)))))"
proof -
  have s: "retry_seconds 5 = 1" using retry_seconds_bounds [of 5] by (auto simp: second_ns_def)
  show ?thesis
    using retry_after_is_honest [OF ms.allow_good [OF ms_good_new, of 0 "[49]" 1 10], of 10 "[49]" 5 1 "\<lparr>Allowed = False, RetryAfter = 5\<rparr>"
        "snd (Allow 0 [49] 1 10 NewMemoryStore)" "[(7, Sweep)]" 1000000005] demo_full
    by (simp add: s second_ns_def)
qed

text \<open>The delay after consecutive failed logins is the capped exponential schedule, for every
  configuration whose delays are below 2^62 nanoseconds: nothing up to the free allowance, then the
  base delay doubled per further failure and never more than the cap, without ever wrapping around.\<close>

theorem delay_is_capped_doubling:
  assumes "0 < BaseDelay cfg" "BaseDelay cfg \<le> 2 ^ 62" "MaxDelay cfg \<le> 2 ^ 62" "int64 (failures - FreeFailures cfg)"
  shows "Delay failures cfg = (if failures \<le> FreeFailures cfg then 0
     else min (MaxDelay cfg) (BaseDelay cfg * 2 ^ nat (failures - FreeFailures cfg - 1)))"
  using Delay_closed [OF assms] .

theorem delay_is_capped_doubling_witness:
  "Delay 7 \<lparr>FreeFailures = 4, BaseDelay = 60, MaxDelay = 900\<rparr> = 240 \<and> Delay 100 \<lparr>FreeFailures = 4, BaseDelay = 60, MaxDelay = 900\<rparr> = 900"
proof -
  have "(2::int) ^ 4 \<le> 2 ^ 95" by (rule power_increasing) simp_all
  then show ?thesis
    using delay_is_capped_doubling [of "\<lparr>FreeFailures = 4, BaseDelay = 60, MaxDelay = 900\<rparr>" 7]
      delay_is_capped_doubling [of "\<lparr>FreeFailures = 4, BaseDelay = 60, MaxDelay = 900\<rparr>" 100]
    by (simp add: int64_def min_def)
qed

section \<open>A gateway for the examples\<close>

definition demo_netip :: "(gostr, gostr) netip" where
  "demo_netip = \<lparr>ni_addr = (\<lambda>s. if s \<noteq> [] \<and> list_all (\<lambda>r. r \<noteq> 58 \<and> r \<noteq> 47) s then Some s else None), ni_prefix = (\<lambda>_. None),
     ni_host = id, ni_contains = (=), ni_unmap = id, ni_string = id\<rparr>"

definition demo_gateway :: "(gostr, gostr) gateway_env" where
  "demo_gateway = \<lparr>ge_netip = demo_netip,
     ge_jwt = one_token [2] \<lparr>c_type = TokenTypeAccess, c_id = [1], c_subject = [9], c_issued = None, c_expires = None\<rparr>,
     ge_secret = [2], ge_parse = (\<lambda>_. Some (JObj [(lit ''email'', JStr [97])])), ge_lower = id, ge_known = (\<lambda>_. True),
     ge_backend = (\<lambda>_ _. Some \<lparr>r_status = 401, r_headers = (\<lambda>_. None), r_body = Raw []\<rparr>), ge_origin = [111],
     ge_rate = \<lparr>rl_enabled = True, rl_ip_limit = 100, rl_ip_window = 900, rl_trusted = [],
       rl_backoff = Some \<lparr>FreeFailures = 1, BaseDelay = 60, MaxDelay = 900\<rparr>, rl_max_login = 65536\<rparr>\<rparr>"

definition demo_login :: greq where
  "demo_login = \<lparr>g_method = lit ''POST'', g_path = lit ''/auth/login'', g_host = [], g_remote = lit ''10.0.0.1:99'',
     g_headers = (\<lambda>_. None), g_length = 2, g_body = Stream [1, 2] False, g_user = None\<rparr>"

definition demo_gstate :: gstate where
  "demo_gstate = \<lparr>gs_store = NewMemoryStore, gs_backoff = [], gs_forwarded = []\<rparr>"

section \<open>What reaches a backend\<close>


text \<open>A client that names the identity header in its Connection header makes the proxy drop it,
  so that an authenticated request reaches the backend without it.\<close>

definition demo_dropping :: greq where
  "demo_dropping = \<lparr>g_method = lit ''GET'', g_path = lit ''/trading/orders'', g_host = [], g_remote = lit ''10.0.0.1:99'',
     g_headers = [lit ''authorization'' \<mapsto> [lit ''Bearer '' @ [7]], lit ''connection'' \<mapsto> [UserIDHeader]],
     g_length = 0, g_body = NoBody, g_user = None\<rparr>"

lemma connection_header_drops_identity:
  "g_headers (proxy_rewrite (demo_dropping\<lparr>g_headers := hset UserIDHeader [9] (g_headers demo_dropping)\<rparr>)) UserIDHeader = None"
proof -
  have "UserIDHeader \<in> set (connection_tokens (g_headers demo_dropping))"
    by (simp add: connection_tokens_def demo_dropping_def UserIDHeader_def lit_def trim_ascii_def trim_right_def ascii_lower_def Let_def)
  then show ?thesis by (simp add: rewritten_headers hset_def handed_on_identity) (simp add: handed_on_def header_names)
qed

section \<open>The client's address\<close>

text \<open>The address a request is counted against is never one the client chose: the address of the
  connection unless that is a trusted proxy, and behind a trusted proxy the entry the proxy
  appended to the forwarding header, whatever the client had put in front of it.\<close>

theorem client_address_not_forgeable:
  assumes "hget (g_headers r) (lit ''x-forwarded-for'') = claimed @ 44 # appended" and "44 \<notin> set appended"
    and "trim_space appended \<noteq> []" and "ni_addr ni (trim_space appended) = Some a" and "ni_string ni (ni_unmap ni a) \<noteq> []"
  shows "clientIP ni trusted r = (if trusts ni trusted (peerIP (g_remote r)) then ni_string ni (ni_unmap ni a) else peerIP (g_remote r))"
  using assms by (simp add: clientIP_def rightmostForwarded_def split_rune_append split_rune_single Let_def)

theorem client_address_not_forgeable_witness:
  "clientIP demo_netip [lit ''10.0.0.1''] (demo_login\<lparr>g_headers := [lit ''x-forwarded-for'' \<mapsto> [lit ''1.2.3.4, 9.9.9.9'']]\<rparr>) = lit ''9.9.9.9''"
proof -
  let ?r = "demo_login\<lparr>g_headers := [lit ''x-forwarded-for'' \<mapsto> [lit ''1.2.3.4, 9.9.9.9'']]\<rparr>"
  have "peerIP (g_remote ?r) = lit ''10.0.0.1''"
    by (simp add: peerIP_def demo_login_def SplitHostPort_def last_index_def lit_def)
  then have t: "trusts demo_netip [lit ''10.0.0.1''] (peerIP (g_remote ?r))"
    by (simp add: trusts_def demo_netip_def lit_def)
  have "clientIP demo_netip [lit ''10.0.0.1''] ?r = (if trusts demo_netip [lit ''10.0.0.1''] (peerIP (g_remote ?r))
      then ni_string demo_netip (ni_unmap demo_netip (lit ''9.9.9.9'')) else peerIP (g_remote ?r))"
    by (rule client_address_not_forgeable [where claimed = "lit ''1.2.3.4''" and appended = "lit '' 9.9.9.9''"])
      (simp_all add: lit_def hget_def trim_space_def trim_right_def is_space_def demo_netip_def)
  then show ?thesis using t by (simp add: demo_netip_def)
qed

end
