(* ===== verification/InsightsModel.thy ===== *)
theory InsightsModel
  imports GoStrings GoTime PortfolioMath "HOL-Library.AList"
begin

text \<open>
  services/ai-insights, internal/service: the data (types.go), the calendar (calendar.go),
  the concurrent fetch (histories.go), the reconstruction of a portfolio's history
  (reconstruct.go) and its reconciliation with the live account (reconcile.go).

  A Go map is an association list with distinct keys whose order stands for the order in
  which an iteration happens to visit it; what does not depend on that order is proved so.
  Texts of errors are not modelled.
\<close>

section \<open>Data\<close>

record ai_bar =
  ib_time :: instant
  ib_open :: f64
  ib_high :: f64
  ib_low :: f64
  ib_close :: f64
  ib_volume :: int

record ai_trade =
  it_id :: gostr
  it_symbol :: gostr
  it_side :: gostr
  it_quantity :: f64
  it_price :: f64
  it_realized_pl :: "f64 option"
  it_executed_at :: instant

definition SideSell :: gostr where "SideSell = lit ''sell''"

definition StartingBalance :: f64 where "StartingBalance = FNum 100000"

type_synonym bars_map = "(gostr \<times> ai_bar list) list"
type_synonym holdings = "(gostr \<times> f64) list"

record reconstruction =
  rc_dates :: "instant list"
  rc_equity :: "f64 list"
  rc_cash :: "f64 list"
  rc_holdings :: holdings

record live_position =
  lp_symbol :: gostr
  lp_quantity :: f64

record live_portfolio =
  lv_balance :: f64
  lv_positions :: "live_position list"

datatype insights_err = ErrMissingClose gostr instant | ErrSymbolUnavailable gostr | ErrUpstreamUnavailable
  | ErrUnauthorized | ErrReconciliation

section \<open>The calendar\<close>

definition Day :: "instant \<Rightarrow> instant" where
  "Day t = (case date_of t of (y, m, d) \<Rightarrow> go_date y m d)"

definition note_bar :: "gostr \<Rightarrow> (instant \<times> gostr list) list \<Rightarrow> ai_bar \<Rightarrow> (instant \<times> gostr list) list" where
  \<comment> \<open>\<open>seen[day][symbol]\<close>\<close>
  "note_bar symb seen b =
     (let day = Day (ib_time b); symbs = (case map_of seen day of None \<Rightarrow> [] | Some ss \<Rightarrow> ss)
      in AList.update day (List.insert symb symbs) seen)"

definition seen_days :: "bars_map \<Rightarrow> (instant \<times> gostr list) list" where
  "seen_days barsBySymbol = foldl (\<lambda>seen (symb, bars). foldl (note_bar symb) seen bars) [] barsBySymbol"

definition Calendar :: "bars_map \<Rightarrow> instant list" where
  "Calendar barsBySymbol =
     (if length barsBySymbol = 0 then []
      else sort (map fst (filter (\<lambda>(day, symbs). length symbs = length barsBySymbol) (seen_days barsBySymbol))))"

section \<open>The histories\<close>

type_synonym history_client = "gostr \<Rightarrow> insights_err + ai_bar list"

fun scan_errors :: "(insights_err + 'a) option list \<Rightarrow> insights_err option" where
  "scan_errors [] = None"
| "scan_errors (Some (Inl e) # slots) = Some e"
| "scan_errors (_ # slots) = scan_errors slots"

fun slot_bars :: "(insights_err + ai_bar list) option \<Rightarrow> ai_bar list" where
  "slot_bars (Some (Inr bars)) = bars"
| "slot_bars _ = []"

definition FetchHistories :: "history_client \<Rightarrow> gostr list \<Rightarrow> (gostr list \<Rightarrow> nat list) \<Rightarrow> insights_err + bars_map" where
  \<comment> \<open>\<open>sched\<close> gives the order in which the goroutines finish; later entries of a repeated
    symbol replace earlier ones\<close>
  "FetchHistories history symbols sched =
     (let ordered = sort symbols; slots = gather history ordered (sched ordered) in
      case scan_errors slots of
        Some e \<Rightarrow> Inl e
      | None \<Rightarrow> Inr (foldl (\<lambda>out (symb, slot). AList.update symb (slot_bars slot) out) [] (zip ordered slots)))"

section \<open>The reconstruction\<close>

definition dustQuantity :: f64 where "dustQuantity = flit (1 / 10 ^ 9)"

definition note_close :: "(instant \<times> instant \<times> f64) list \<Rightarrow> ai_bar \<Rightarrow> (instant \<times> instant \<times> f64) list" where
  \<comment> \<open>\<open>latest\<close> and \<open>closes\<close> of one symbol\<close>
  "note_close m b =
     (let day = Day (ib_time b) in
      case map_of m day of
        Some (seen, _) \<Rightarrow> if ib_time b < seen then m else AList.update day (ib_time b, ib_close b) m
      | None \<Rightarrow> AList.update day (ib_time b, ib_close b) m)"

type_synonym closes = "(gostr \<times> (instant \<times> instant \<times> f64) list) list"

definition closesBySymbolAndDay :: "bars_map \<Rightarrow> closes" where
  "closesBySymbolAndDay barsBySymbol = map (\<lambda>(symb, bars). (symb, foldl note_close [] bars)) barsBySymbol"

definition close_on :: "closes \<Rightarrow> gostr \<Rightarrow> instant \<Rightarrow> f64 option" where
  \<comment> \<open>\<open>closes[symbol][date]\<close>; a symbol without an entry reads as an empty map\<close>
  "close_on closes symb date =
     (case map_of closes symb of None \<Rightarrow> None | Some m \<Rightarrow> map_option snd (map_of m date))"

definition sortedSymbols :: "(gostr \<times> 'a) list \<Rightarrow> gostr list" where
  "sortedSymbols m = sort (map fst m)"

definition quantity_of :: "holdings \<Rightarrow> gostr \<Rightarrow> f64" where
  "quantity_of h symb = (case map_of h symb of None \<Rightarrow> 0 | Some q \<Rightarrow> q)"

definition applyTrade :: "ai_trade \<Rightarrow> f64 \<times> holdings \<Rightarrow> f64 \<times> holdings" where
  "applyTrade t = (\<lambda>(cash, h).
     let (cash', h') = (if it_side t = SideSell
         then (cash + it_quantity t * it_price t, AList.update (it_symbol t) (quantity_of h (it_symbol t) - it_quantity t) h)
         else (cash - it_quantity t * it_price t, AList.update (it_symbol t) (quantity_of h (it_symbol t) + it_quantity t) h));
         q = quantity_of h' (it_symbol t)
     in if q > - dustQuantity \<and> q < dustQuantity then (cash', AList.delete (it_symbol t) h') else (cash', h'))"

definition apply_all :: "ai_trade list \<Rightarrow> f64 \<times> holdings \<Rightarrow> f64 \<times> holdings" where
  "apply_all ts st = foldl (\<lambda>st t. applyTrade t st) st ts"

fun mark :: "closes \<Rightarrow> instant \<Rightarrow> holdings \<Rightarrow> gostr list \<Rightarrow> f64 \<Rightarrow> insights_err + f64" where
  \<comment> \<open>cash plus the holdings at the closes of one date\<close>
  "mark closes date h [] equity = Inr equity"
| "mark closes date h (symb # symbs) equity =
     (case close_on closes symb date of
        None \<Rightarrow> Inl (ErrMissingClose symb date)
      | Some px \<Rightarrow> mark closes date h symbs (equity + quantity_of h symb * px))"

fun recon_days :: "closes \<Rightarrow> instant \<Rightarrow> instant list \<Rightarrow> ai_trade list \<Rightarrow> f64 \<times> holdings
    \<Rightarrow> instant list \<Rightarrow> f64 list \<Rightarrow> f64 list \<Rightarrow> insights_err + reconstruction" where
  \<comment> \<open>the loop over the calendar; \<open>rest\<close> are the trades not yet applied\<close>
  "recon_days closes first [] rest st dates equity cash =
     Inr \<lparr>rc_dates = dates, rc_equity = equity, rc_cash = cash, rc_holdings = snd st\<rparr>"
| "recon_days closes first (date # calendar) rest st dates equity cash =
     (if date < first then recon_days closes first calendar rest st dates equity cash
      else let due = (\<lambda>t. \<not> Day (it_executed_at t) > date);
               st' = apply_all (takeWhile due rest) st in
        (case mark closes date (snd st') (sortedSymbols (snd st')) (fst st') of
           Inl e \<Rightarrow> Inl e
         | Inr v \<Rightarrow> recon_days closes first calendar (dropWhile due rest) st'
             (dates @ [date]) (equity @ [v]) (cash @ [fst st'])))"

definition Reconstruct :: "ai_trade list \<Rightarrow> bars_map \<Rightarrow> instant list \<Rightarrow> insights_err + reconstruction" where
  "Reconstruct trades barsBySymbol calendar =
     (if trades = [] \<or> calendar = [] then Inr \<lparr>rc_dates = [], rc_equity = [], rc_cash = [], rc_holdings = []\<rparr>
      else let ordered = sort_key (\<lambda>t. Day (it_executed_at t)) trades in
        recon_days (closesBySymbolAndDay barsBySymbol) (Day (it_executed_at (hd ordered))) calendar ordered
          (StartingBalance, []) [] [] [])"

section \<open>The reconciliation\<close>

definition cashTolerance :: f64 where "cashTolerance = flit (1 / 100)"
definition quantityTolerance :: f64 where "quantityTolerance = flit (1 / 10 ^ 4)"

definition projectPastCalendar :: "reconstruction \<Rightarrow> ai_trade list \<Rightarrow> f64 \<times> holdings" where
  "projectPastCalendar r trades =
     apply_all (filter (\<lambda>t. Day (it_executed_at t) > List.last (rc_dates r)) trades) (List.last (rc_cash r), rc_holdings r)"

definition live_positions :: "live_portfolio \<Rightarrow> holdings" where
  "live_positions live = foldl (\<lambda>m p. if \<bar>lp_quantity p\<bar> > quantityTolerance
     then AList.update (lp_symbol p) (lp_quantity p) m else m) [] (lv_positions live)"

definition sortedUnion :: "holdings \<Rightarrow> holdings \<Rightarrow> gostr list" where
  "sortedUnion a b = sort (remdups (map fst a @ map fst b))"

fun agree_on :: "holdings \<Rightarrow> holdings \<Rightarrow> gostr list \<Rightarrow> bool" where
  "agree_on derived live [] = True"
| "agree_on derived live (symb # symbs) =
     (case (map_of derived symb, map_of live symb) of
        (_, None) \<Rightarrow> False
      | (None, _) \<Rightarrow> False
      | (Some d, Some a) \<Rightarrow> if \<bar>d - a\<bar> > quantityTolerance then False else agree_on derived live symbs)"

definition Reconcile :: "reconstruction \<Rightarrow> ai_trade list \<Rightarrow> live_portfolio \<Rightarrow> bool" where
  \<comment> \<open>whether the error is nil\<close>
  "Reconcile r trades live =
     (if rc_dates r = [] then True
      else let (cash, h) = projectPastCalendar r trades in
        if \<bar>cash - lv_balance live\<bar> > cashTolerance then False
        else agree_on h (live_positions live) (sortedUnion h (live_positions live)))"

end
