(* ===== verification/InsightsReport.thy ===== *)
theory InsightsReport
  imports InsightsModel
begin

text \<open>
  services/ai-insights, internal/service: the three sections of the report (risk.go,
  benchmark.go, behavior.go, thresholds.go), its assembly and caching (insights.go) and its
  hash (hash.go). The prose of a finding is not modelled, the figures in it are fields of
  the finding. A map iteration order stands in an association list as before.
\<close>

datatype section_state = StateOK | StateInsufficientData

definition minTradingDays :: nat where "minTradingDays = 2"

section \<open>Risk\<close>

record position_weight =
  pw_symbol :: gostr
  pw_quantity :: f64
  pw_value :: f64
  pw_weight :: f64

record risk_section =
  rs_state :: section_state
  rs_reason :: string
  rs_positions :: "position_weight list"
  rs_cash_weight :: f64
  rs_hhi :: f64
  rs_largest :: f64
  rs_volatility :: f64
  rs_drawdown :: f64

definition insufficient_risk :: "string \<Rightarrow> risk_section" where
  "insufficient_risk reason = \<lparr>rs_state = StateInsufficientData, rs_reason = reason, rs_positions = [],
     rs_cash_weight = 0, rs_hhi = 0, rs_largest = 0, rs_volatility = 0, rs_drawdown = 0\<rparr>"

fun weigh :: "closes \<Rightarrow> instant \<Rightarrow> holdings \<Rightarrow> gostr list \<Rightarrow> f64 \<times> position_weight list \<Rightarrow> insights_err + f64 \<times> position_weight list" where
  \<comment> \<open>\<open>invested\<close> and the positions, in symbol order\<close>
  "weigh closes asOf h [] acc = Inr acc"
| "weigh closes asOf h (symb # symbs) (invested, ps) =
     (case close_on closes symb asOf of
        None \<Rightarrow> Inl (ErrMissingClose symb asOf)
      | Some px \<Rightarrow>
          let v = quantity_of h symb * px in
          weigh closes asOf h symbs (invested + v,
            ps @ [\<lparr>pw_symbol = symb, pw_quantity = quantity_of h symb, pw_value = v, pw_weight = 0\<rparr>]))"

definition with_weight :: "f64 \<Rightarrow> position_weight \<Rightarrow> position_weight" where
  "with_weight equity p = (if feq equity 0 then p else p\<lparr>pw_weight := pw_value p / equity * FNum 100\<rparr>)"

definition larger :: "position_weight \<Rightarrow> position_weight \<Rightarrow> bool" where
  "larger p q \<longleftrightarrow> (if \<not> feq (pw_value p) (pw_value q) then pw_value p > pw_value q else pw_symbol p < pw_symbol q)"

fun insert_by :: "('a \<Rightarrow> 'a \<Rightarrow> bool) \<Rightarrow> 'a \<Rightarrow> 'a list \<Rightarrow> 'a list" where
  "insert_by lt x [] = [x]"
| "insert_by lt x (y # ys) = (if lt y x then y # insert_by lt x ys else x # y # ys)"

definition sort_by :: "('a \<Rightarrow> 'a \<Rightarrow> bool) \<Rightarrow> 'a list \<Rightarrow> 'a list" where
  \<comment> \<open>\<open>sort.Slice\<close>; the order of the source leaves one sorted permutation when no value is NaN\<close>
  "sort_by lt xs = foldr (insert_by lt) xs []"

definition concentrationHHI :: "position_weight list \<Rightarrow> f64 \<Rightarrow> f64" where
  "concentrationHHI ps invested =
     (if feq invested 0 then 0
      else foldl (\<lambda>hhi p. let w = pw_value p / invested in hhi + w * w) 0 ps)"

definition sqrtTradingDays :: f64 where "sqrtTradingDays = fsqrt TradingDaysPerYear"

definition ComputeRisk :: "reconstruction \<Rightarrow> bars_map \<Rightarrow> insights_err + risk_section" where
  "ComputeRisk r barsBySymbol =
     (if length (rc_dates r) < minTradingDays then Inr (insufficient_risk ''fewer than two trading days of history'')
      else let asOf = List.last (rc_dates r); equity = List.last (rc_equity r); cash = List.last (rc_cash r) in
        sum_bind (weigh (closesBySymbolAndDay barsBySymbol) asOf (rc_holdings r) (sortedSymbols (rc_holdings r)) (0, []))
          (\<lambda>(invested, ps).
           let weighted = map (with_weight equity) ps;
               largest = foldl (\<lambda>m p. if pw_weight p > m then pw_weight p else m) 0 weighted;
               ordered = sort_by larger weighted;
               returns = DailyReturns (rc_equity r)
           in Inr \<lparr>rs_state = StateOK, rs_reason = '''', rs_positions = ordered,
             rs_cash_weight = (if feq equity 0 then 0 else cash / equity * FNum 100),
             rs_hhi = concentrationHHI ordered invested, rs_largest = largest,
             rs_volatility = (if returns = [] then 0 else StdevPopulation returns (Mean returns) * sqrtTradingDays * FNum 100),
             rs_drawdown = MaxDrawdownPct (rc_equity r)\<rparr>))"

section \<open>Benchmarks\<close>

record benchmark =
  bm_symbol :: gostr
  bm_label :: gostr
  bm_return :: f64
  bm_excess :: f64
  bm_sharpe :: f64

record benchmarking_section =
  bs_state :: section_state
  bs_reason :: string
  bs_return :: f64
  bs_sharpe :: f64
  bs_benchmarks :: "benchmark list"

definition BenchmarkSymbols :: "gostr list" where
  "BenchmarkSymbols = [lit ''SPY'', lit ''QQQ'']"

definition benchmarkLabels :: "gostr \<Rightarrow> gostr option" where
  "benchmarkLabels = [lit ''SPY'' \<mapsto> lit ''S&P 500'', lit ''QQQ'' \<mapsto> lit ''NASDAQ 100'']"

definition insufficient_benchmarking :: "string \<Rightarrow> benchmarking_section" where
  "insufficient_benchmarking reason =
     \<lparr>bs_state = StateInsufficientData, bs_reason = reason, bs_return = 0, bs_sharpe = 0, bs_benchmarks = []\<rparr>"

definition totalReturnPct :: "f64 list \<Rightarrow> f64" where
  "totalReturnPct curve = (if curve = [] \<or> feq (hd curve) 0 then 0 else (List.last curve / hd curve - 1) * FNum 100)"

fun closes_along :: "closes \<Rightarrow> gostr \<Rightarrow> instant list \<Rightarrow> insights_err + f64 list" where
  "closes_along closes symb [] = Inr []"
| "closes_along closes symb (date # dates) =
     (case close_on closes symb date of
        None \<Rightarrow> Inl (ErrMissingClose symb date)
      | Some px \<Rightarrow> sum_bind (closes_along closes symb dates) (\<lambda>curve. Inr (px # curve)))"

definition buyAndHold :: "gostr \<Rightarrow> instant list \<Rightarrow> closes \<Rightarrow> insights_err + f64 list" where
  \<comment> \<open>its caller has at least two dates\<close>
  "buyAndHold symb dates closes =
     (if (case close_on closes symb (hd dates) of None \<Rightarrow> True | Some first \<Rightarrow> feq first 0)
      then Inl (ErrMissingClose symb (hd dates))
      else closes_along closes symb dates)"

fun benchmark_all :: "f64 \<Rightarrow> instant list \<Rightarrow> closes \<Rightarrow> gostr list \<Rightarrow> insights_err + benchmark list" where
  "benchmark_all portfolioReturn dates closes [] = Inr []"
| "benchmark_all portfolioReturn dates closes (symb # symbs) =
     sum_bind (buyAndHold symb dates closes) (\<lambda>curve.
       let b = \<lparr>bm_symbol = symb, bm_label = (case benchmarkLabels symb of None \<Rightarrow> symb | Some l \<Rightarrow> l),
                bm_return = totalReturnPct curve, bm_excess = portfolioReturn - totalReturnPct curve, bm_sharpe = Sharpe curve\<rparr>
       in sum_bind (benchmark_all portfolioReturn dates closes symbs) (\<lambda>bs. Inr (b # bs)))"

definition ComputeBenchmarking :: "reconstruction \<Rightarrow> bars_map \<Rightarrow> insights_err + benchmarking_section" where
  "ComputeBenchmarking r barsBySymbol =
     (if length (rc_dates r) < minTradingDays
      then Inr (insufficient_benchmarking ''fewer than two trading days of history'')
      else sum_bind (benchmark_all (totalReturnPct (rc_equity r)) (rc_dates r) (closesBySymbolAndDay barsBySymbol) BenchmarkSymbols)
        (\<lambda>bs. Inr \<lparr>bs_state = StateOK, bs_reason = '''', bs_return = totalReturnPct (rc_equity r),
            bs_sharpe = Sharpe (rc_equity r), bs_benchmarks = bs\<rparr>))"

section \<open>Behaviour\<close>

definition OvertradingTurnoverRatio :: f64 where "OvertradingTurnoverRatio = FNum 2"
definition OvertradingWindowDays :: int where "OvertradingWindowDays = 30"
definition PanicSellDropPct :: rat where "PanicSellDropPct = 5"
definition PanicSellMinOccurrences :: int where "PanicSellMinOccurrences = 3"
definition PanicSellMinShareOfSells :: f64 where "PanicSellMinShareOfSells = flit (3 / 10)"
definition AggressiveVolatilityPct :: f64 where "AggressiveVolatilityPct = FNum 25"
definition AggressiveHHI :: f64 where "AggressiveHHI = flit (1 / 2)"
definition ConservativeVolatilityPct :: f64 where "ConservativeVolatilityPct = FNum 12"
definition ConservativeHHI :: f64 where "ConservativeHHI = flit (1 / 4)"

datatype finding_code = FindingOvertrading | FindingPanicSelling

record finding =
  fd_code :: finding_code
  fd_warn :: bool
  fd_turnover :: f64
  fd_occurrences :: int
  fd_sells :: int
  fd_evidence :: "gostr list"

datatype risk_profile = ProfileAggressive | ProfileModerate | ProfileConservative

record behavior_section =
  hs_state :: section_state
  hs_reason :: string
  hs_trades :: int
  hs_findings :: "finding list"
  hs_profile :: "risk_profile option"

definition insufficient_behavior :: "string \<Rightarrow> behavior_section" where
  "insufficient_behavior reason =
     \<lparr>hs_state = StateInsufficientData, hs_reason = reason, hs_trades = 0, hs_findings = [], hs_profile = None\<rparr>"

definition overtrading :: "ai_trade list \<Rightarrow> reconstruction \<Rightarrow> finding option" where
  "overtrading trades r =
     (if rc_dates r = [] then None
      else let asOf = List.last (rc_dates r);
               windowStart = AddDate asOf 0 0 (- OvertradingWindowDays);
               recent = filter (\<lambda>t. Day (it_executed_at t) > windowStart \<and> \<not> Day (it_executed_at t) > asOf) trades;
               traded = foldl (\<lambda>s t. s + it_quantity t * it_price t) 0 recent;
               values = map snd (filter (\<lambda>(date, _). date > windowStart) (zip (rc_dates r) (rc_equity r)));
               sum = foldl (+) 0 values
        in if recent = [] then None
           else if values = [] \<or> feq sum 0 then None
           else let turnover = traded / (sum / fint (int (length values))) in
             if turnover \<le> OvertradingTurnoverRatio then None
             else Some \<lparr>fd_code = FindingOvertrading, fd_warn = True, fd_turnover = turnover, fd_occurrences = 0,
               fd_sells = int (length recent), fd_evidence = map it_id recent\<rparr>)"

function search :: "nat \<Rightarrow> nat \<Rightarrow> (nat \<Rightarrow> bool) \<Rightarrow> nat" where
  \<comment> \<open>the loop of \<open>sort.Search\<close>\<close>
  "search i j f = (if i < j then let h = (i + j) div 2 in
     if \<not> f h then search (h + 1) j f else search i h f else i)"
  by pat_completeness auto
termination by (relation "measure (\<lambda>(i, j, f). j - i)") auto

declare search.simps [simp del]

definition priorSessions :: "instant \<Rightarrow> instant list \<Rightarrow> (instant \<times> instant) option" where
  "priorSessions tradeDay calendar =
     (let i = search 0 (length calendar) (\<lambda>i. \<not> calendar ! i < tradeDay) in
      if i < 2 then None else Some (calendar ! (i - 1), calendar ! (i - 2)))"

definition droppedAcross :: "gostr \<Rightarrow> instant \<Rightarrow> instant \<Rightarrow> closes \<Rightarrow> insights_err + bool" where
  "droppedAcross symb prev before closes =
     (case close_on closes symb prev of
        None \<Rightarrow> Inl (ErrMissingClose symb prev)
      | Some prevClose \<Rightarrow>
          (case close_on closes symb before of
             None \<Rightarrow> Inl (ErrMissingClose symb before)
           | Some beforeClose \<Rightarrow>
               if feq beforeClose 0 then Inl (ErrMissingClose symb before)
               else Inr (prevClose \<le> beforeClose * flit (1 - PanicSellDropPct / 100))))"

fun judge_sells :: "instant \<Rightarrow> instant list \<Rightarrow> closes \<Rightarrow> ai_trade list \<Rightarrow> int \<times> gostr list \<Rightarrow> insights_err + int \<times> gostr list" where
  \<comment> \<open>the sells judged so far and the ids of those that were panic\<close>
  "judge_sells asOf calendar closes [] acc = Inr acc"
| "judge_sells asOf calendar closes (t # ts) (sells, ids) =
     (if it_side t \<noteq> SideSell then judge_sells asOf calendar closes ts (sells, ids)
      else if Day (it_executed_at t) > asOf then judge_sells asOf calendar closes ts (sells, ids)
      else case priorSessions (Day (it_executed_at t)) calendar of
        None \<Rightarrow> judge_sells asOf calendar closes ts (sells, ids)
      | Some (prev, before) \<Rightarrow>
          if (case it_realized_pl t of None \<Rightarrow> True | Some pl \<Rightarrow> pl \<ge> 0)
          then judge_sells asOf calendar closes ts (sells + 1, ids)
          else case droppedAcross (it_symbol t) prev before closes of
              Inl e \<Rightarrow> Inl e
            | Inr dropped \<Rightarrow> judge_sells asOf calendar closes ts (sells + 1, if dropped then ids @ [it_id t] else ids))"

definition panicSelling :: "ai_trade list \<Rightarrow> reconstruction \<Rightarrow> bars_map \<Rightarrow> insights_err + finding option" where
  "panicSelling trades r barsBySymbol =
     (if rc_dates r = [] then Inr None
      else sum_bind (judge_sells (List.last (rc_dates r)) (rc_dates r) (closesBySymbolAndDay barsBySymbol) trades (0, []))
        (\<lambda>(sells, ids).
         let occurrences = int (length ids) in
         if occurrences = 0 then Inr None
         else if occurrences < PanicSellMinOccurrences \<and> fint occurrences / fint sells < PanicSellMinShareOfSells then Inr None
         else Inr (Some \<lparr>fd_code = FindingPanicSelling, fd_warn = False, fd_turnover = 0, fd_occurrences = occurrences,
               fd_sells = sells, fd_evidence = ids\<rparr>)))"

definition riskProfile :: "risk_section \<Rightarrow> risk_profile option" where
  "riskProfile risk =
     (if rs_state risk \<noteq> StateOK then None
      else if rs_volatility risk > AggressiveVolatilityPct \<or> rs_hhi risk > AggressiveHHI then Some ProfileAggressive
      else if rs_volatility risk < ConservativeVolatilityPct \<and> rs_hhi risk < ConservativeHHI then Some ProfileConservative
      else Some ProfileModerate)"

definition ComputeBehavior :: "ai_trade list \<Rightarrow> reconstruction \<Rightarrow> bars_map \<Rightarrow> risk_section \<Rightarrow> insights_err + behavior_section" where
  "ComputeBehavior trades r barsBySymbol risk =
     (if trades = [] then Inr (insufficient_behavior ''no trades yet'')
      else sum_bind (panicSelling trades r barsBySymbol) (\<lambda>panic.
        Inr \<lparr>hs_state = StateOK, hs_reason = '''', hs_trades = int (length trades),
          hs_findings = (case overtrading trades r of None \<Rightarrow> [] | Some f \<Rightarrow> [f]) @ (case panic of None \<Rightarrow> [] | Some f \<Rightarrow> [f]),
          hs_profile = riskProfile risk\<rparr>))"

section \<open>The report\<close>

record portfolio_insights =
  pi_computed_at :: instant
  pi_as_of :: gostr
  pi_start :: gostr
  pi_days :: int
  pi_risk :: risk_section
  pi_benchmarking :: benchmarking_section
  pi_behavior :: behavior_section

definition insufficientData :: "instant \<Rightarrow> string \<Rightarrow> portfolio_insights" where
  "insufficientData now reason =
     \<lparr>pi_computed_at = now, pi_as_of = [], pi_start = [], pi_days = 0, pi_risk = insufficient_risk reason,
      pi_benchmarking = insufficient_benchmarking reason, pi_behavior = insufficient_behavior reason\<rparr>"

definition reconstructionSymbols :: "ai_trade list \<Rightarrow> gostr list" where
  "reconstructionSymbols trades = sort (remdups (map it_symbol trades @ BenchmarkSymbols))"

record insights_upstream =
  up_trades :: "gostr \<Rightarrow> insights_err + ai_trade list"
  up_portfolio :: "gostr \<Rightarrow> insights_err + live_portfolio"
  up_history :: history_client
  up_sched :: "gostr list \<Rightarrow> nat list"

definition buildInsights :: "insights_upstream \<Rightarrow> instant \<Rightarrow> gostr \<Rightarrow> insights_err + portfolio_insights" where
  "buildInsights up now authorization =
     sum_bind (up_trades up authorization) (\<lambda>trades.
     if trades = [] then Inr (insufficientData now ''no trades yet'')
     else
     sum_bind (up_portfolio up authorization) (\<lambda>live.
     sum_bind (FetchHistories (up_history up) (reconstructionSymbols trades) (up_sched up)) (\<lambda>barsBySymbol.
     sum_bind (Reconstruct trades barsBySymbol (Calendar barsBySymbol)) (\<lambda>r.
     if \<not> Reconcile r trades live
     then Inr (insufficientData now ''portfolio history could not be verified against the account'')
     else
     sum_bind (ComputeRisk r barsBySymbol) (\<lambda>risk.
     sum_bind (ComputeBenchmarking r barsBySymbol) (\<lambda>benchmarking.
     sum_bind (ComputeBehavior trades r barsBySymbol risk) (\<lambda>behavior.
     Inr \<lparr>pi_computed_at = now,
          pi_as_of = (if rc_dates r = [] then [] else format_date (List.last (rc_dates r))),
          pi_start = (if rc_dates r = [] then [] else format_date (hd (rc_dates r))),
          pi_days = int (length (rc_dates r)), pi_risk = risk, pi_benchmarking = benchmarking,
          pi_behavior = behavior\<rparr>)))))))"

text \<open>The cache is an interface whose every call may fail: \<open>Get\<close> reports a failure, a miss or
  an entry, \<open>Set\<close> may lose the entry.\<close>

datatype 'v cache_answer = CacheFailed | CacheMiss | CacheHit 'v

record 'c insights_cache =
  ic_get :: "gostr \<Rightarrow> 'c \<Rightarrow> portfolio_insights cache_answer"
  ic_set :: "gostr \<Rightarrow> portfolio_insights \<Rightarrow> int \<Rightarrow> 'c \<Rightarrow> bool \<times> 'c"

definition CacheTTL :: int where "CacheTTL = 5 * 60 * 1000000000"

definition noopCache :: "'c insights_cache" where
  "noopCache = \<lparr>ic_get = (\<lambda>_ _. CacheMiss), ic_set = (\<lambda>_ _ _ c. (True, c))\<rparr>"

definition NewService :: "'c insights_cache option \<Rightarrow> 'c insights_cache" where
  "NewService cache = (case cache of None \<Rightarrow> noopCache | Some c \<Rightarrow> c)"

definition PortfolioInsights :: "'c insights_cache \<Rightarrow> insights_upstream \<Rightarrow> instant \<Rightarrow> gostr \<Rightarrow> gostr \<Rightarrow> 'c
    \<Rightarrow> (insights_err + portfolio_insights) \<times> 'c" where
  "PortfolioInsights cache up now user authorization c =
     (case ic_get cache user c of
        CacheHit report \<Rightarrow> (Inr report, c)
      | _ \<Rightarrow>
          (case buildInsights up now authorization of
             Inl e \<Rightarrow> (Inl e, c)
           | Inr out \<Rightarrow> (Inr out, snd (ic_set cache user out CacheTTL c))))"

section \<open>The hash of a report\<close>

definition hashLength :: nat where "hashLength = 16"

definition hex_digit :: "nat \<Rightarrow> rune" where
  "hex_digit d = (if d < 10 then 48 + d else 87 + d)"

definition hex :: "nat list \<Rightarrow> gostr" where
  \<comment> \<open>\<open>hex.EncodeToString\<close> of bytes\<close>
  "hex bytes = concat (map (\<lambda>b. [hex_digit (b div 16), hex_digit (b mod 16)]) bytes)"

definition ReportHash :: "(portfolio_insights \<Rightarrow> nat list) \<Rightarrow> (nat list \<Rightarrow> nat list) \<Rightarrow> portfolio_insights \<Rightarrow> gostr" where
  \<comment> \<open>\<open>marshal\<close> gives the bytes of the JSON encoding, or of the marker when it fails; \<open>sha256\<close>
    the digest\<close>
  "ReportHash marshal sha256 r = take hashLength (hex (sha256 (marshal (r\<lparr>pi_computed_at := 0\<rparr>))))"

end
