(* ===== verification/InsightsFacts.thy ===== *)
theory InsightsFacts
  imports InsightsReport
begin

text \<open>
  Facts of the portfolio reconstruction: what the calendar holds, what an association list
  standing for a Go map gives whatever its order, the ledger behind the curve, and what the
  reconciliation compares.
\<close>

section \<open>The calendar\<close>

definition symbols_on :: "bars_map \<Rightarrow> instant \<Rightarrow> gostr set" where
  "symbols_on bm d = {symb. \<exists>bars. (symb, bars) \<in> set bm \<and> d \<in> (\<lambda>b. Day (ib_time b)) ` set bars}"

definition seen_on :: "(instant \<times> gostr list) list \<Rightarrow> instant \<Rightarrow> gostr list" where
  "seen_on seen d = (case map_of seen d of None \<Rightarrow> [] | Some ss \<Rightarrow> ss)"

lemma seen_on_note_bar:
  "seen_on (note_bar symb seen b) d = (if d = Day (ib_time b) then List.insert symb (seen_on seen d) else seen_on seen d)"
  by (simp add: note_bar_def seen_on_def Let_def update_conv')

lemma distinct_note_bars: "distinct (map fst seen) \<Longrightarrow> distinct (map fst (foldl (note_bar symb) seen bars))"
  by (rule foldl_invariant [where P = "\<lambda>s. distinct (map fst s)"]) (simp_all add: note_bar_def Let_def distinct_update)

lemma distinct_seen_on: "(\<And>d. distinct (seen_on seen d)) \<Longrightarrow> distinct (seen_on (foldl (note_bar symb) seen bars) d)"
  by (induction bars arbitrary: seen) (simp_all add: seen_on_note_bar)

lemma set_seen_on: "set (seen_on (foldl (note_bar symb) seen bars) d)
    = set (seen_on seen d) \<union> (if d \<in> (\<lambda>b. Day (ib_time b)) ` set bars then {symb} else {})"
  by (induction bars arbitrary: seen) (auto simp: seen_on_note_bar split: if_splits)

lemma seen_days_facts:
  "distinct (map fst (seen_days bm)) \<and> (\<forall>d. distinct (seen_on (seen_days bm) d) \<and> set (seen_on (seen_days bm) d) = symbols_on bm d)"
  unfolding seen_days_def
proof (induction bm rule: rev_induct)
  case Nil
  show ?case by (simp add: seen_on_def symbols_on_def)
next
  case (snoc x bm)
  obtain symb bars where x: "x = (symb, bars)" by (cases x)
  have "symbols_on (bm @ [x]) d = symbols_on bm d \<union> (if d \<in> (\<lambda>b. Day (ib_time b)) ` set bars then {symb} else {})" for d
    by (auto simp: symbols_on_def x)
  with snoc show ?case
    by (simp add: x distinct_note_bars distinct_seen_on set_seen_on)
qed

lemma symbols_on_subset: "symbols_on bm d \<subseteq> fst ` set bm"
  by (force simp: symbols_on_def)

lemma card_symbols_on:
  assumes "distinct (map fst bm)"
  shows "card (symbols_on bm d) = length bm \<longleftrightarrow> (\<forall>(symb, bars) \<in> set bm. d \<in> (\<lambda>b. Day (ib_time b)) ` set bars)"
proof -
  have "card (fst ` set bm) = length bm" using assms by (metis distinct_card length_map list.set_map)
  then have "card (symbols_on bm d) = length bm \<longleftrightarrow> symbols_on bm d = fst ` set bm"
    by (metis List.finite_set card_subset_eq finite_imageI symbols_on_subset)
  also have "\<dots> \<longleftrightarrow> (\<forall>(symb, bars) \<in> set bm. d \<in> (\<lambda>b. Day (ib_time b)) ` set bars)"
  proof
    assume eq: "symbols_on bm d = fst ` set bm"
    have "d \<in> (\<lambda>b. Day (ib_time b)) ` set bars" if mem: "(symb, bars) \<in> set bm" for symb bars
    proof -
      have "symb \<in> symbols_on bm d" using mem eq by force
      then obtain bars' where "(symb, bars') \<in> set bm" "d \<in> (\<lambda>b. Day (ib_time b)) ` set bars'"
        unfolding symbols_on_def by blast
      with mem assms show ?thesis by (metis eq_key_imp_eq_value)
    qed
    then show "\<forall>(symb, bars) \<in> set bm. d \<in> (\<lambda>b. Day (ib_time b)) ` set bars" by blast
  next
    assume "\<forall>(symb, bars) \<in> set bm. d \<in> (\<lambda>b. Day (ib_time b)) ` set bars"
    then have "fst ` set bm \<subseteq> symbols_on bm d" unfolding symbols_on_def by fastforce
    with symbols_on_subset show "symbols_on bm d = fst ` set bm" by blast
  qed
  finally show ?thesis .
qed

lemma Calendar_days:
  assumes "distinct (map fst bm)"
  shows "set (Calendar bm) = {d. bm \<noteq> [] \<and> (\<forall>(symb, bars) \<in> set bm. d \<in> (\<lambda>b. Day (ib_time b)) ` set bars)}"
proof (cases "bm = []")
  case False
  have "d \<in> set (Calendar bm) \<longleftrightarrow> card (symbols_on bm d) = length bm" for d
  proof -
    note f = seen_days_facts [of bm]
    have "card (symbols_on bm d) = length (seen_on (seen_days bm) d)"
      using f by (metis distinct_card)
    moreover have "d \<in> set (Calendar bm) \<longleftrightarrow> (\<exists>ss. map_of (seen_days bm) d = Some ss \<and> length ss = length bm)"
      using f False by (force simp: Calendar_def)
    ultimately show ?thesis
      using False by (auto simp: seen_on_def split: option.splits)
  qed
  then show ?thesis using card_symbols_on [OF assms] False by auto
qed (simp add: Calendar_def)

lemma Calendar_ascending: "sorted_wrt (<) (Calendar bm)"
proof -
  have "distinct (map fst (seen_days bm))" using seen_days_facts by blast
  then have "distinct (map fst (filter (\<lambda>(day, symbs). length symbs = length bm) (seen_days bm)))"
    by (simp add: distinct_map_filter)
  then show ?thesis by (simp add: Calendar_def strict_sorted_iff)
qed

lemma ascending_unique: "sorted_wrt (<) xs \<Longrightarrow> sorted_wrt (<) ys \<Longrightarrow> set xs = set ys \<Longrightarrow> xs = (ys :: 'a :: linorder list)"
  by (simp add: strict_sorted_equal)

section \<open>Closing prices\<close>

lemma close_on_closes:
  "close_on (closesBySymbolAndDay bm) symb d
     = (case map_of bm symb of None \<Rightarrow> None | Some bars \<Rightarrow> map_option snd (map_of (foldl note_close [] bars) d))"
  by (simp add: closesBySymbolAndDay_def close_on_def map_of_map split: option.splits)

definition closing_bar :: "ai_bar list \<Rightarrow> instant \<Rightarrow> instant \<times> f64 \<Rightarrow> bool" where
  \<comment> \<open>the last bar of a day among those with the greatest time\<close>
  "closing_bar bars d = (\<lambda>(t, px). \<exists>b \<in> set bars. Day (ib_time b) = d \<and> ib_time b = t \<and> ib_close b = px
     \<and> (\<forall>b' \<in> set bars. Day (ib_time b') = d \<longrightarrow> ib_time b' \<le> t))"

lemma closing_bar_snoc_other: "Day (ib_time b) \<noteq> d \<Longrightarrow> closing_bar (bars @ [b]) d v \<longleftrightarrow> closing_bar bars d v"
  by (cases v) (auto simp: closing_bar_def)

lemma closing_bar_last:
  "Day (ib_time b) = d \<Longrightarrow> (\<And>b'. b' \<in> set bars \<Longrightarrow> Day (ib_time b') = d \<Longrightarrow> ib_time b' \<le> ib_time b)
    \<Longrightarrow> closing_bar (bars @ [b]) d (ib_time b, ib_close b)"
  by (simp add: closing_bar_def)

lemma note_close_facts:
  "case map_of (foldl note_close [] bars) d of
     None \<Rightarrow> d \<notin> (\<lambda>b. Day (ib_time b)) ` set bars
   | Some v \<Rightarrow> closing_bar bars d v"
proof (induction bars rule: rev_induct)
  case Nil
  show ?case by simp
next
  case (snoc b bars)
  let ?m = "foldl note_close [] bars"
  show ?case
  proof (cases "Day (ib_time b) = d")
    case False
    then have "map_of (note_close ?m b) d = map_of ?m d"
      by (auto simp: note_close_def [of ?m] Let_def update_conv' split: option.splits)
    with snoc False show ?thesis by (auto simp: closing_bar_snoc_other split: option.splits)
  next
    case True
    show ?thesis
    proof (cases "map_of ?m d")
      case None
      with snoc have "d \<notin> (\<lambda>b. Day (ib_time b)) ` set bars" by simp
      then have "closing_bar (bars @ [b]) d (ib_time b, ib_close b)"
        using True by (intro closing_bar_last) (auto simp: image_iff)
      with None True show ?thesis by (simp add: note_close_def [of ?m] Let_def update_conv')
    next
      case (Some v)
      obtain t px where v: "v = (t, px)" by (cases v)
      with snoc Some have old: "closing_bar bars d (t, px)" by simp
      show ?thesis
      proof (cases "ib_time b < t")
        case True
        with old have "closing_bar (bars @ [b]) d (t, px)" by (auto simp: closing_bar_def)
        with True Some v \<open>Day (ib_time b) = d\<close> show ?thesis by (simp add: note_close_def [of ?m] Let_def)
      next
        case False
        with old True have "closing_bar (bars @ [b]) d (ib_time b, ib_close b)"
          by (fastforce simp: closing_bar_def)
        with False Some v True show ?thesis by (simp add: note_close_def [of ?m] Let_def update_conv')
      qed
    qed
  qed
qed

lemma close_on_None:
  "close_on (closesBySymbolAndDay bm) symb d = None
     \<longleftrightarrow> (\<forall>bars. map_of bm symb = Some bars \<longrightarrow> d \<notin> (\<lambda>b. Day (ib_time b)) ` set bars)"
proof (cases "map_of bm symb")
  case (Some bars)
  then show ?thesis using note_close_facts [where bars = bars and d = d]
    by (auto simp: close_on_closes closing_bar_def split: option.splits)
qed (simp add: close_on_closes)

lemma close_on_SomeD:
  assumes "close_on (closesBySymbolAndDay bm) symb d = Some px"
  obtains bars t where "map_of bm symb = Some bars" "closing_bar bars d (t, px)"
proof (cases "map_of bm symb")
  case (Some bars)
  with assms obtain t where "map_of (foldl note_close [] bars) d = Some (t, px)"
    by (auto simp: close_on_closes)
  with note_close_facts [where bars = bars and d = d] have "closing_bar bars d (t, px)" by simp
  with Some that show ?thesis by blast
qed (use assms in \<open>simp add: close_on_closes\<close>)

lemma calendar_has_closes:
  assumes "distinct (map fst bm)" and "symb \<in> fst ` set bm" and "d \<in> set (Calendar bm)"
  shows "\<exists>px. close_on (closesBySymbolAndDay bm) symb d = Some px"
proof -
  from assms(2) obtain bars where "(symb, bars) \<in> set bm" by force
  moreover from this have "map_of bm symb = Some bars" using assms(1) by simp
  moreover have "d \<in> (\<lambda>b. Day (ib_time b)) ` set bars"
    using assms(3) calculation(1) unfolding Calendar_days [OF assms(1)] by blast
  ultimately have "close_on (closesBySymbolAndDay bm) symb d \<noteq> None" by (simp add: close_on_None)
  then show ?thesis by blast
qed

section \<open>Iteration order\<close>

definition same_map :: "('k \<times> 'v) list \<Rightarrow> ('k \<times> 'v) list \<Rightarrow> bool" where
  \<comment> \<open>two visits of one Go map\<close>
  "same_map m m' \<longleftrightarrow> distinct (map fst m) \<and> distinct (map fst m') \<and> map_of m = map_of m'"

lemma same_map_refl: "distinct (map fst m) \<Longrightarrow> same_map m m"
  by (simp add: same_map_def)

lemma same_map_set: "same_map m m' \<Longrightarrow> set m = set m'"
  unfolding same_map_def by (metis map_of_eqI map_of_inject_set)

lemma same_map_keys: "same_map m m' \<Longrightarrow> fst ` set m = fst ` set m'"
  by (simp add: same_map_set)

lemma same_map_sym: "same_map m m' \<Longrightarrow> same_map m' m"
  by (simp add: same_map_def)

lemma same_map_Calendar:
  assumes "same_map bm bm'"
  shows "Calendar bm = Calendar bm'"
proof (rule ascending_unique [OF Calendar_ascending Calendar_ascending])
  from assms have d: "distinct (map fst bm)" "distinct (map fst bm')" by (simp_all add: same_map_def)
  from same_map_set [OF assms] have "set bm = set bm'" "bm = [] \<longleftrightarrow> bm' = []" by auto
  then show "set (Calendar bm) = set (Calendar bm')" by (simp add: Calendar_days d)
qed

lemma same_map_close_on: "same_map bm bm' \<Longrightarrow> close_on (closesBySymbolAndDay bm) = close_on (closesBySymbolAndDay bm')"
  by (intro ext) (simp add: close_on_closes same_map_def)

lemma same_map_sortedSymbols: "same_map m m' \<Longrightarrow> sortedSymbols m = sortedSymbols m'"
  unfolding sortedSymbols_def using same_map_keys [of m m']
  by (auto simp: same_map_def intro: sorted_distinct_set_unique)

lemma same_map_quantity: "same_map h h' \<Longrightarrow> quantity_of h = quantity_of h'"
  by (rule ext) (simp add: quantity_of_def same_map_def)

lemma same_map_update: "same_map m m' \<Longrightarrow> same_map (AList.update k v m) (AList.update k v m')"
  by (simp add: same_map_def distinct_update update_conv' fun_eq_iff)

lemma same_map_delete: "same_map m m' \<Longrightarrow> same_map (AList.delete k m) (AList.delete k m')"
  by (simp add: same_map_def distinct_delete delete_conv' fun_eq_iff)

lemma mark_cong: "close_on cl = close_on cl' \<Longrightarrow> mark cl d h symbs v = mark cl' d h symbs v"
  by (induction symbs arbitrary: v) (auto split: option.splits)

lemma recon_days_cong: "close_on cl = close_on cl' \<Longrightarrow>
    recon_days cl first cal rest st dates eq cash = recon_days cl' first cal rest st dates eq cash"
  by (induction cal arbitrary: rest st dates eq cash) (simp_all add: Let_def mark_cong [of cl cl'] cong: sum.case_cong if_cong)

lemma weigh_cong: "close_on cl = close_on cl' \<Longrightarrow> quantity_of h = quantity_of h' \<Longrightarrow> weigh cl d h symbs acc = weigh cl' d h' symbs acc"
  by (induction symbs arbitrary: acc) (auto split: option.splits simp: Let_def)

lemma closes_along_cong: "close_on cl = close_on cl' \<Longrightarrow> closes_along cl symb dates = closes_along cl' symb dates"
  by (induction dates) (auto split: option.splits)

lemma benchmark_all_cong: "close_on cl = close_on cl' \<Longrightarrow> benchmark_all v dates cl symbs = benchmark_all v dates cl' symbs"
  by (induction symbs) (simp_all add: buyAndHold_def closes_along_cong [of cl cl'])

lemma droppedAcross_cong: "close_on cl = close_on cl' \<Longrightarrow> droppedAcross symb a b cl = droppedAcross symb a b cl'"
  unfolding droppedAcross_def by (erule ssubst) (rule refl)

lemma judge_sells_cong: "close_on cl = close_on cl' \<Longrightarrow> judge_sells d cal cl ts acc = judge_sells d cal cl' ts acc"
proof (induction ts arbitrary: acc)
  case (Cons t ts)
  obtain n ids where "acc = (n, ids)" by force
  with Cons show ?case by (simp add: droppedAcross_cong [OF Cons.prems] split: option.splits sum.splits)
qed (cases acc, simp)

end
