(* ===== verification/InsightsLedger.thy ===== *)
theory InsightsLedger
  imports InsightsFacts
begin

text \<open>
  Facts of the fold over the trades: the state on a date, the curve as a function of the
  dates, and the final comparison with the live account.
\<close>

section \<open>The state on a date\<close>

abbreviation "trade_day t \<equiv> Day (it_executed_at t)"

definition balance_sheet :: "ai_trade list \<Rightarrow> instant \<Rightarrow> f64 \<times> holdings" where
  \<comment> \<open>cash and holdings after every trade of a date or before\<close>
  "balance_sheet trades d = apply_all (filter (\<lambda>t. trade_day t \<le> d) (sort_key trade_day trades)) (StartingBalance, [])"

definition equity_on :: "bars_map \<Rightarrow> ai_trade list \<Rightarrow> instant \<Rightarrow> insights_err + f64" where
  "equity_on bm trades d = (case balance_sheet trades d of
     (cash, h) \<Rightarrow> mark (closesBySymbolAndDay bm) d h (sortedSymbols h) cash)"

fun traverse :: "('a \<Rightarrow> 'e + 'b) \<Rightarrow> 'a list \<Rightarrow> 'e + 'b list" where
  "traverse f [] = Inr []"
| "traverse f (x # xs) = sum_bind (f x) (\<lambda>y. sum_bind (traverse f xs) (\<lambda>ys. Inr (y # ys)))"

lemma traverse_ok: "(\<And>x. x \<in> set xs \<Longrightarrow> \<exists>y. f x = Inr y) \<Longrightarrow> \<exists>ys. traverse f xs = Inr ys"
proof (induction xs)
  case (Cons x xs)
  then obtain ys where "traverse f xs = Inr ys" by auto
  moreover obtain y where "f x = Inr y" using Cons.prems by auto
  ultimately show ?case by simp
qed simp

lemma traverse_Inr_map: "traverse f xs = Inr ys \<Longrightarrow> map f xs = map Inr ys"
  by (induction xs arbitrary: ys) (auto simp: sum_bind_eq_Inr)

lemma takeWhile_sorted: "sorted (map f xs) \<Longrightarrow> takeWhile (\<lambda>x. f x \<le> d) xs = filter (\<lambda>x. f x \<le> d) xs"
proof (induction xs)
  case (Cons x xs)
  show ?case
  proof (cases "f x \<le> d")
    case False
    then have "\<forall>y \<in> set xs. \<not> f y \<le> d" using Cons.prems by auto
    with False show ?thesis by (simp add: filter_empty_conv)
  qed (use Cons in simp)
qed simp

lemma dropWhile_sorted: "sorted (map f xs) \<Longrightarrow> x \<in> set (dropWhile (\<lambda>x. f x \<le> d) xs) \<Longrightarrow> \<not> f x \<le> d"
proof (induction xs)
  case (Cons y ys)
  then show ?case by (cases "f y \<le> d") auto
qed simp

lemma apply_all_append: "apply_all (xs @ ys) st = apply_all ys (apply_all xs st)"
  by (simp add: apply_all_def)

section \<open>The curve\<close>

definition ledger_of :: "ai_trade list \<Rightarrow> instant \<Rightarrow> f64 \<times> holdings" where
  "ledger_of ordered d = apply_all (filter (\<lambda>t. trade_day t \<le> d) ordered) (StartingBalance, [])"

definition valued :: "closes \<Rightarrow> ai_trade list \<Rightarrow> instant \<Rightarrow> insights_err + f64" where
  "valued cl ordered d = (case ledger_of ordered d of (cash, h) \<Rightarrow> mark cl d h (sortedSymbols h) cash)"

lemma recon_days_ledger:
  assumes "sorted (map trade_day (past @ rest))" and "sorted_wrt (<) cal"
    and "\<forall>t \<in> set past. \<forall>d \<in> set cal. \<not> d < first \<longrightarrow> trade_day t \<le> d"
    and "st = apply_all past (StartingBalance, [])"
  shows "recon_days cl first cal rest st dates eq cash =
    (let ds = filter (\<lambda>d. \<not> d < first) cal in
     sum_bind (traverse (valued cl (past @ rest)) ds) (\<lambda>es.
       Inr \<lparr>rc_dates = dates @ ds, rc_equity = eq @ es, rc_cash = cash @ map (\<lambda>a. fst (ledger_of (past @ rest) a)) ds,
            rc_holdings = snd (if ds = [] then st else ledger_of (past @ rest) (List.last ds))\<rparr>))"
  using assms
proof (induction cal arbitrary: past rest st dates eq cash)
  case (Cons d cal)
  show ?case
  proof (cases "d < first")
    case True
    have "recon_days cl first cal rest st dates eq cash =
      (let ds = filter (\<lambda>d. \<not> d < first) cal in
       sum_bind (traverse (valued cl (past @ rest)) ds) (\<lambda>es.
         Inr \<lparr>rc_dates = dates @ ds, rc_equity = eq @ es, rc_cash = cash @ map (\<lambda>a. fst (ledger_of (past @ rest) a)) ds,
              rc_holdings = snd (if ds = [] then st else ledger_of (past @ rest) (List.last ds))\<rparr>))"
      using Cons.prems by (intro Cons.IH) auto
    with True show ?thesis by simp
  next
    case False
    define tk where "tk = takeWhile (\<lambda>t. trade_day t \<le> d) rest"
    define dr where "dr = dropWhile (\<lambda>t. trade_day t \<le> d) rest"
    define st' where "st' = apply_all tk st"
    have split: "tk @ dr = rest" by (simp add: tk_def dr_def)
    have rest: "sorted (map trade_day rest)" using Cons.prems(1) by (simp add: sorted_append)
    have past: "\<forall>t \<in> set past. trade_day t \<le> d" using Cons.prems(3) False by simp
    then have now: "ledger_of (past @ rest) d = st'"
      by (simp add: ledger_of_def st'_def tk_def takeWhile_sorted [OF rest] Cons.prems(4) apply_all_append)
    have tk: "t \<in> set tk \<Longrightarrow> trade_day t \<le> d" for t unfolding tk_def by (auto dest: set_takeWhileD)
    have later: "\<forall>t \<in> set (past @ tk). \<forall>d' \<in> set cal. \<not> d' < first \<longrightarrow> trade_day t \<le> d'"
      using past tk Cons.prems(2) by fastforce
    have all: "past @ rest = (past @ tk) @ dr" using split by simp
    have IH: "recon_days cl first cal dr st' (dates @ [d]) (eq @ [v]) (cash @ [fst st']) =
      (let ds = filter (\<lambda>d. \<not> d < first) cal in
       sum_bind (traverse (valued cl (past @ rest)) ds) (\<lambda>es.
         Inr \<lparr>rc_dates = (dates @ [d]) @ ds, rc_equity = (eq @ [v]) @ es,
              rc_cash = (cash @ [fst st']) @ map (\<lambda>a. fst (ledger_of (past @ rest) a)) ds,
              rc_holdings = snd (if ds = [] then st' else ledger_of (past @ rest) (List.last ds))\<rparr>))" for v
      unfolding all
      by (rule Cons.IH) (use Cons.prems(1,2,4) later in \<open>simp_all add: split st'_def apply_all_append\<close>)
    have val: "mark cl d (snd st') (sortedSymbols (snd st')) (fst st') = valued cl (past @ rest) d"
      by (simp add: valued_def now case_prod_unfold)
    have step: "recon_days cl first (d # cal) rest st dates eq cash =
      (case valued cl (past @ rest) d of Inl e \<Rightarrow> Inl e
       | Inr v \<Rightarrow> recon_days cl first cal dr st' (dates @ [d]) (eq @ [v]) (cash @ [fst st']))"
      using False by (simp add: Let_def tk_def dr_def st'_def val [unfolded st'_def tk_def] linorder_not_less cong: sum.case_cong)
    show ?thesis
    proof (cases "valued cl (past @ rest) d")
      case (Inl e)
      with step False show ?thesis by simp
    next
      case (Inr v)
      have "filter (\<lambda>d. \<not> d < first) (d # cal) = d # filter (\<lambda>d. \<not> d < first) cal" using False by simp
      with step Inr IH [of v] show ?thesis
        by (cases "traverse (valued cl (past @ rest)) (filter (\<lambda>d. \<not> d < first) cal)") (simp_all add: Let_def now)
    qed
  qed
qed simp

definition covered_dates :: "ai_trade list \<Rightarrow> instant list \<Rightarrow> instant list" where
  \<comment> \<open>the dates of the calendar from the first trade on\<close>
  "covered_dates trades cal = filter (\<lambda>d. \<exists>t \<in> set trades. trade_day t \<le> d) cal"

lemma first_trade:
  assumes "trades \<noteq> []"
  shows "\<not> d < trade_day (hd (sort_key trade_day trades)) \<longleftrightarrow> (\<exists>t \<in> set trades. trade_day t \<le> d)"
proof -
  define o' where "o' = sort_key trade_day trades"
  have set: "set o' = set trades" and ne: "o' \<noteq> []"
    using assms by (simp_all add: o'_def) (metis set_empty set_sort)
  have sorted: "sorted (map trade_day o')" by (simp add: o'_def)
  have "trade_day (hd o') \<le> trade_day t" if "t \<in> set o'" for t
    using sorted ne that by (cases o') auto
  moreover have "hd o' \<in> set trades" using ne set by (metis hd_in_set)
  ultimately show ?thesis unfolding o'_def [symmetric] using set by (metis linorder_not_less order_trans)
qed

lemma Reconstruct_ledger:
  assumes "sorted_wrt (<) cal"
  shows "Reconstruct trades bm cal =
    (let ds = covered_dates trades cal in
     sum_bind (traverse (equity_on bm trades) ds) (\<lambda>es.
       Inr \<lparr>rc_dates = ds, rc_equity = es, rc_cash = map (\<lambda>d. fst (balance_sheet trades d)) ds,
            rc_holdings = (if ds = [] then [] else snd (balance_sheet trades (List.last ds)))\<rparr>))"
proof (cases "trades = [] \<or> cal = []")
  case True
  then show ?thesis by (auto simp: Reconstruct_def covered_dates_def)
next
  case False
  define o' where "o' = sort_key trade_day trades"
  have eqs: "equity_on bm trades = valued (closesBySymbolAndDay bm) o'" "balance_sheet trades = ledger_of o'"
    by (simp_all add: fun_eq_iff equity_on_def valued_def balance_sheet_def ledger_of_def o'_def)
  have ds: "covered_dates trades cal = filter (\<lambda>d. \<not> d < trade_day (hd o')) cal"
    using False first_trade [of trades] by (simp add: covered_dates_def o'_def)
  have "recon_days (closesBySymbolAndDay bm) (trade_day (hd o')) cal o' (StartingBalance, []) [] [] [] =
    (let ds = filter (\<lambda>d. \<not> d < trade_day (hd o')) cal in
     sum_bind (traverse (valued (closesBySymbolAndDay bm) ([] @ o')) ds) (\<lambda>es.
       Inr \<lparr>rc_dates = [] @ ds, rc_equity = [] @ es, rc_cash = [] @ map (\<lambda>a. fst (ledger_of ([] @ o') a)) ds,
            rc_holdings = snd (if ds = [] then (StartingBalance, []) else ledger_of ([] @ o') (List.last ds))\<rparr>))"
    by (rule recon_days_ledger) (use assms in \<open>simp_all add: o'_def apply_all_def\<close>)
  with False show ?thesis
    by (simp add: Reconstruct_def Let_def o'_def [symmetric] eqs ds cong: if_cong)
qed

section \<open>Complete histories\<close>

lemma quantity_update [simp]: "quantity_of (AList.update k v h) k = v"
  by (simp add: quantity_of_def update_conv')

lemma applyTrade_facts:
  assumes "same_map h h'"
  shows "fst (applyTrade t (c, h)) = fst (applyTrade t (c, h')) \<and> same_map (snd (applyTrade t (c, h))) (snd (applyTrade t (c, h')))"
  using assms same_map_update [OF assms] same_map_quantity [OF assms]
  by (simp add: applyTrade_def Let_def same_map_delete)

lemma apply_all_facts:
  "same_map h h' \<Longrightarrow> fst (apply_all ts (c, h)) = fst (apply_all ts (c, h')) \<and> same_map (snd (apply_all ts (c, h))) (snd (apply_all ts (c, h')))"
  unfolding apply_all_def
proof (induction ts arbitrary: c h h')
  case (Cons t ts)
  obtain c1 h1 where 1: "applyTrade t (c, h) = (c1, h1)" by force
  obtain c2 h2 where 2: "applyTrade t (c, h') = (c2, h2)" by force
  have "c1 = c2" "same_map h1 h2" using applyTrade_facts [OF Cons.prems, of t c] by (simp_all add: 1 2)
  then show ?case using Cons.IH by (simp add: 1 2)
qed simp

lemma keys_applyTrade: "fst ` set (snd (applyTrade t st)) \<subseteq> insert (it_symbol t) (fst ` set (snd st))"
proof -
  obtain c h where st: "st = (c, h)" by (cases st)
  have "fst ` set (AList.delete (it_symbol t) h) \<subseteq> insert (it_symbol t) (fst ` set h)"
    using AList.dom_delete_subset [of "it_symbol t" h] by blast
  then show ?thesis by (simp add: st applyTrade_def Let_def AList.dom_update AList.delete_update_same)
qed

lemma keys_apply_all: "fst ` set (snd (apply_all ts st)) \<subseteq> it_symbol ` set ts \<union> fst ` set (snd st)"
  unfolding apply_all_def
proof (induction ts arbitrary: st)
  case (Cons t ts)
  show ?case using Cons.IH [of "applyTrade t st"] keys_applyTrade [of t st] by auto
qed simp

lemma keys_balance_sheet: "fst ` set (snd (balance_sheet trades d)) \<subseteq> it_symbol ` set trades"
  using keys_apply_all [of "filter (\<lambda>t. trade_day t \<le> d) (sort_key trade_day trades)" "(StartingBalance, [])"]
  unfolding balance_sheet_def by auto

lemma distinct_balance_sheet: "distinct (map fst (snd (balance_sheet trades d)))"
  using apply_all_facts [of "[]" "[]" _ StartingBalance] by (simp add: balance_sheet_def same_map_def)

lemma mark_ok: "(\<And>s. s \<in> set symbs \<Longrightarrow> \<exists>px. close_on cl s d = Some px) \<Longrightarrow> \<exists>v. mark cl d h symbs c = Inr v"
  by (induction symbs arbitrary: c) force+

lemma weigh_ok: "(\<And>s. s \<in> set symbs \<Longrightarrow> \<exists>px. close_on cl s d = Some px) \<Longrightarrow> \<exists>v. weigh cl d h symbs acc = Inr v"
proof (induction symbs arbitrary: acc)
  case (Cons s symbs)
  obtain px where "close_on cl s d = Some px" using Cons.prems by auto
  then show ?case using Cons by (cases acc) (simp add: Let_def)
qed simp

definition complete_history :: "bars_map \<Rightarrow> ai_trade list \<Rightarrow> bool" where
  \<comment> \<open>one entry per symbol, and one for every symbol ever traded\<close>
  "complete_history bm trades \<longleftrightarrow> distinct (map fst bm) \<and> it_symbol ` set trades \<subseteq> fst ` set bm"

lemma held_close:
  assumes "complete_history bm trades" and "d \<in> set (Calendar bm)"
    and "s \<in> set (sortedSymbols (snd (balance_sheet trades d')))"
  shows "\<exists>px. close_on (closesBySymbolAndDay bm) s d = Some px"
proof (rule calendar_has_closes [OF _ _ assms(2)])
  show "distinct (map fst bm)" using assms(1) by (simp add: complete_history_def)
  show "s \<in> fst ` set bm"
    using assms keys_balance_sheet [of trades d'] by (auto simp: complete_history_def sortedSymbols_def)
qed

lemma equity_known: "complete_history bm trades \<Longrightarrow> d \<in> set (Calendar bm) \<Longrightarrow> \<exists>v. equity_on bm trades d = Inr v"
  using held_close [of bm trades d _ d] by (auto simp: equity_on_def case_prod_unfold intro: mark_ok)

lemma Reconstruct_ok:
  assumes "complete_history bm trades"
  shows "\<exists>r. Reconstruct trades bm (Calendar bm) = Inr r"
proof -
  obtain es where "traverse (equity_on bm trades) (covered_dates trades (Calendar bm)) = Inr es"
    using traverse_ok [of "covered_dates trades (Calendar bm)" "equity_on bm trades"] equity_known [OF assms]
    by (auto simp: covered_dates_def)
  then show ?thesis by (simp add: Reconstruct_ledger [OF Calendar_ascending] Let_def)
qed

lemma Reconstruct_InrD:
  assumes "Reconstruct trades bm (Calendar bm) = Inr r"
  shows "rc_dates r = covered_dates trades (Calendar bm)"
    and "rc_cash r = map (\<lambda>d. fst (balance_sheet trades d)) (rc_dates r)"
    and "rc_holdings r = (if rc_dates r = [] then [] else snd (balance_sheet trades (List.last (rc_dates r))))"
    and "map (equity_on bm trades) (rc_dates r) = map Inr (rc_equity r)"
  using assms unfolding Reconstruct_ledger [OF Calendar_ascending]
  by (auto simp: sum_bind_eq_Inr Let_def traverse_Inr_map)

lemma covered_in_calendar: "set (covered_dates trades cal) \<subseteq> set cal"
  by (auto simp: covered_dates_def)

lemma ComputeRisk_ok:
  assumes "complete_history bm trades" and "Reconstruct trades bm (Calendar bm) = Inr r"
  shows "\<exists>risk. ComputeRisk r bm = Inr risk"
proof (cases "length (rc_dates r) < minTradingDays")
  case False
  note r = Reconstruct_InrD [OF assms(2)]
  from False have ne: "rc_dates r \<noteq> []" by (auto simp: minTradingDays_def)
  then have "List.last (rc_dates r) \<in> set (Calendar bm)"
    using last_in_set [OF ne] covered_in_calendar [of trades "Calendar bm"] unfolding r(1) by blast
  then obtain v where "weigh (closesBySymbolAndDay bm) (List.last (rc_dates r)) (rc_holdings r) (sortedSymbols (rc_holdings r)) (0, []) = Inr v"
    using ne by (metis r(3) held_close [OF assms(1)] weigh_ok)
  with False show ?thesis by (cases v) (simp add: ComputeRisk_def Let_def)
qed (simp add: ComputeRisk_def)

section \<open>The fetch\<close>

lemma scan_errors_None: "scan_errors (map (\<lambda>x. Some (f x)) xs) = None \<longleftrightarrow> (\<forall>x \<in> set xs. \<exists>b. f x = Inr b)"
proof (induction xs)
  case (Cons x xs)
  then show ?case by (cases "f x") auto
qed simp

lemma scan_errors_first: "scan_errors (map (\<lambda>x. Some (f x)) xs) = Some e \<Longrightarrow>
    \<exists>as a bs. xs = as @ a # bs \<and> f a = Inl e \<and> list_all (\<lambda>x. is_ok (f x)) as"
proof (induction xs)
  case (Cons x xs)
  show ?case
  proof (cases "f x")
    case (Inl e')
    with Cons.prems show ?thesis by (intro exI [of _ "[]"]) simp
  next
    case (Inr b)
    with Cons obtain as a bs where "xs = as @ a # bs" "f a = Inl e" "list_all (\<lambda>x. is_ok (f x)) as" by auto
    with Inr show ?thesis by (intro exI [of _ "x # as"]) simp
  qed
qed simp

lemma fetched_map:
  "map_of (foldl (\<lambda>out x. AList.update x (g x) out) out xs) = (\<lambda>s. if s \<in> set xs then Some (g s) else map_of out s)"
  by (induction xs arbitrary: out) (auto simp: update_conv')

lemma fetched_distinct: "distinct (map fst out) \<Longrightarrow> distinct (map fst (foldl (\<lambda>out x. AList.update x (g x) out) out xs))"
  by (rule foldl_invariant [where P = "\<lambda>s. distinct (map fst s)"]) (simp_all add: distinct_update)

lemma FetchHistories_complete:
  assumes "set (sched (sort symbols)) = {..<length symbols}"
  shows "FetchHistories history symbols sched =
    (case scan_errors (map (\<lambda>s. Some (history s)) (sort symbols)) of
       Some e \<Rightarrow> Inl e
     | None \<Rightarrow> Inr (foldl (\<lambda>out s. AList.update s (slot_bars (Some (history s))) out) [] (sort symbols)))"
proof -
  have "gather history (sort symbols) (sched (sort symbols)) = map (\<lambda>s. Some (history s)) (sort symbols)"
    by (rule gather_complete) (simp add: assms)
  moreover have "foldl (\<lambda>out (s, slot). AList.update s (slot_bars slot) out) a (zip xs (map (\<lambda>s. Some (history s)) xs))
      = foldl (\<lambda>out s. AList.update s (slot_bars (Some (history s))) out) a xs" for a xs
    by (induction xs arbitrary: a) simp_all
  ultimately show ?thesis by (simp only: FetchHistories_def Let_def)
qed

lemma FetchHistories_InrD:
  assumes "set (sched (sort symbols)) = {..<length symbols}" and "FetchHistories history symbols sched = Inr bm"
  shows "distinct (map fst bm) \<and> fst ` set bm = set symbols \<and> (\<forall>s \<in> set symbols. \<exists>bars. history s = Inr bars \<and> map_of bm s = Some bars)"
proof -
  let ?m = "foldl (\<lambda>out s. AList.update s (slot_bars (Some (history s))) out) [] (sort symbols)"
  have ok: "\<forall>s \<in> set symbols. \<exists>bars. history s = Inr bars" and bm: "bm = ?m"
    using assms(2) unfolding FetchHistories_complete [where history = history and symbols = symbols and sched = sched, OF assms(1)] by (auto simp: scan_errors_None split: option.splits)
  have m: "map_of ?m = (\<lambda>s. if s \<in> set symbols then Some (slot_bars (Some (history s))) else None)"
    by (simp add: fetched_map fun_eq_iff)
  have "fst ` set ?m = dom (map_of ?m)" by (simp add: dom_map_of_conv_image_fst)
  also have "\<dots> = set symbols" unfolding m by (auto split: if_splits)
  finally show ?thesis using ok fetched_distinct [of "[]"] unfolding bm m by force
qed

section \<open>The comparison with the account\<close>

definition agrees :: "f64 \<times> holdings \<Rightarrow> live_portfolio \<Rightarrow> bool" where
  \<comment> \<open>cash within a cent, and the same positions with quantities within the tolerance\<close>
  "agrees st live \<longleftrightarrow> \<not> \<bar>fst st - lv_balance live\<bar> > cashTolerance
     \<and> (\<forall>symb. case (map_of (snd st) symb, map_of (live_positions live) symb) of
           (None, None) \<Rightarrow> True
         | (Some derived, Some actual) \<Rightarrow> \<not> \<bar>derived - actual\<bar> > quantityTolerance
         | _ \<Rightarrow> False)"

lemma agree_on_iff:
  "agree_on d l symbs \<longleftrightarrow> (\<forall>s \<in> set symbs. case (map_of d s, map_of l s) of
      (Some x, Some y) \<Rightarrow> \<not> \<bar>x - y\<bar> > quantityTolerance | _ \<Rightarrow> False)"
  by (induction symbs) (auto split: option.splits)

lemma on_both_domains:
  "(\<forall>s \<in> dom m \<union> dom n. case (m s, n s) of (Some x, Some y) \<Rightarrow> P x y | _ \<Rightarrow> False)
     \<longleftrightarrow> (\<forall>s. case (m s, n s) of (None, None) \<Rightarrow> True | (Some x, Some y) \<Rightarrow> P x y | _ \<Rightarrow> False)"
    (is "?L \<longleftrightarrow> ?R")
proof
  assume L: ?L
  show ?R
  proof
    fix s
    show "case (m s, n s) of (None, None) \<Rightarrow> True | (Some x, Some y) \<Rightarrow> P x y | _ \<Rightarrow> False"
      using L [rule_format, of s] by (cases "m s"; cases "n s") auto
  qed
next
  assume R: ?R
  show ?L
  proof
    fix s assume "s \<in> dom m \<union> dom n"
    then show "case (m s, n s) of (Some x, Some y) \<Rightarrow> P x y | _ \<Rightarrow> False"
      using R [rule_format, of s] by (cases "m s"; cases "n s") auto
  qed
qed

lemma Reconcile_agrees:
  "Reconcile r trades live \<longleftrightarrow> rc_dates r = [] \<or> agrees (projectPastCalendar r trades) live"
proof (cases "rc_dates r = []")
  case False
  obtain c h where p: "projectPastCalendar r trades = (c, h)" by force
  have "set (sortedUnion h l) = dom (map_of h) \<union> dom (map_of l)" for l
    by (simp add: sortedUnion_def dom_map_of_conv_image_fst)
  with False p on_both_domains [of "map_of h" "map_of (live_positions live)" "\<lambda>x y. \<not> \<bar>x - y\<bar> > quantityTolerance"]
  show ?thesis by (simp add: Reconcile_def agrees_def agree_on_iff)
qed (simp add: Reconcile_def)

lemma same_map_agrees:
  "same_map h h' \<Longrightarrow> agrees (c, h) live \<longleftrightarrow> agrees (c, h') live"
  by (simp add: agrees_def same_map_def)

lemma same_map_Reconcile:
  assumes "same_map (rc_holdings r) h'"
  shows "Reconcile r trades live \<longleftrightarrow> Reconcile (r\<lparr>rc_holdings := h'\<rparr>) trades live"
proof -
  let ?ts = "filter (\<lambda>t. trade_day t > List.last (rc_dates r)) trades"
  obtain c h where 1: "apply_all ?ts (List.last (rc_cash r), rc_holdings r) = (c, h)" by force
  obtain c' k where 2: "apply_all ?ts (List.last (rc_cash r), h') = (c', k)" by force
  have "c = c'" "same_map h k" using apply_all_facts [OF assms, of ?ts "List.last (rc_cash r)"] by (simp_all add: 1 2)
  then show ?thesis by (simp add: Reconcile_agrees projectPastCalendar_def 1 2 same_map_agrees)
qed

lemma projected_ledger:
  assumes "Reconstruct trades bm (Calendar bm) = Inr r" and "rc_dates r \<noteq> []"
  obtains ts where "mset ts = mset trades" "projectPastCalendar r trades = apply_all ts (StartingBalance, [])"
proof -
  define d where "d = List.last (rc_dates r)"
  define ts where "ts = filter (\<lambda>t. trade_day t \<le> d) (sort_key trade_day trades) @ filter (\<lambda>t. trade_day t > d) trades"
  note r = Reconstruct_InrD [OF assms(1)]
  have "List.last (rc_cash r) = fst (balance_sheet trades d)"
    using assms(2) by (subst r(2)) (simp add: last_map d_def)
  moreover have "rc_holdings r = snd (balance_sheet trades d)" using assms(2) by (simp add: r(3) d_def)
  ultimately have "projectPastCalendar r trades = apply_all ts (StartingBalance, [])"
    by (simp add: projectPastCalendar_def d_def [symmetric] ts_def apply_all_append balance_sheet_def)
  moreover have "mset ts = mset trades"
    by (simp add: ts_def mset_filter linorder_not_le [symmetric] multiset_partition [symmetric])
  ultimately show thesis by (rule that [rotated])
qed

section \<open>The sells judged\<close>

lemma search_spec:
  assumes "i \<le> j" and "\<And>a b. a \<le> b \<Longrightarrow> b < n \<Longrightarrow> f a \<Longrightarrow> f b" and "j \<le> n"
    and "\<forall>k < i. \<not> f k" and "\<forall>k. j \<le> k \<and> k < n \<longrightarrow> f k"
  shows "search i j f \<le> n \<and> (\<forall>k < n. f k \<longleftrightarrow> search i j f \<le> k)"
  using assms
proof (induction i j f rule: search.induct)
  case (1 i j f)
  show ?case
  proof (cases "i < j")
    case False
    then have "search i j f = i" "i = j" using "1.prems"(1) by (simp_all add: search.simps)
    with "1.prems" show ?thesis by auto (meson linorder_not_less)
  next
    case True
    define h where "h = (i + j) div 2"
    have h: "i \<le> h" "h < j" using True by (auto simp: h_def)
    show ?thesis
    proof (cases "f h")
      case True': True
      have "search i j f = search i h f" using True True' by (subst search.simps) (simp add: h_def Let_def)
      moreover have "\<forall>k. h \<le> k \<and> k < n \<longrightarrow> f k" using "1.prems"(2) [of h] True' by blast
      then have "search i h f \<le> n \<and> (\<forall>k < n. f k \<longleftrightarrow> search i h f \<le> k)"
        using "1.IH"(2) [OF True h_def _ h(1) "1.prems"(2) _ "1.prems"(4)] "1.prems"(3) True' h(2) by simp
      ultimately show ?thesis by simp
    next
      case False
      have "search i j f = search (h + 1) j f" using True False by (subst search.simps) (simp add: h_def Let_def)
      moreover have "\<forall>k < h + 1. \<not> f k"
      proof (intro allI impI)
        fix k assume "k < h + 1"
        then show "\<not> f k" using False "1.prems"(2) [of k h] h "1.prems"(3) by auto
      qed
      then have "search (h + 1) j f \<le> n \<and> (\<forall>k < n. f k \<longleftrightarrow> search (h + 1) j f \<le> k)"
        using "1.IH"(1) [OF True h_def False _ "1.prems"(2) "1.prems"(3) _ "1.prems"(5)] h(2) by simp
      ultimately show ?thesis by simp
    qed
  qed
qed

definition sessions_before :: "instant \<Rightarrow> instant list \<Rightarrow> nat \<Rightarrow> bool" where
  \<comment> \<open>position \<open>i + 1\<close> of the calendar is the last session strictly before the day\<close>
  "sessions_before d cal i \<longleftrightarrow> Suc i < length cal \<and> cal ! Suc i < d \<and> (\<forall>e \<in> set cal. cal ! Suc i < e \<longrightarrow> d \<le> e)"

lemma priorSessions_Some:
  assumes "sorted_wrt (<) cal" and "priorSessions d cal = Some (prev, before)"
  obtains i where "sessions_before d cal i" "prev = cal ! Suc i" "before = cal ! i"
proof -
  let ?f = "\<lambda>i. \<not> cal ! i < d"
  define k where "k = search 0 (length cal) ?f"
  have mono: "?f b" if "a \<le> b" "b < length cal" "?f a" for a b
    using that sorted_wrt_trans_nth [OF assms(1), of a b] by (cases "a = b") auto
  have k: "k \<le> length cal \<and> (\<forall>i < length cal. ?f i \<longleftrightarrow> k \<le> i)"
    unfolding k_def by (rule search_spec [OF _ mono]) simp_all
  have two: "2 \<le> k" and prev: "prev = cal ! (k - 1)" and before: "before = cal ! (k - 2)"
    using assms(2) by (auto simp: priorSessions_def k_def [symmetric] Let_def split: if_splits)
  define i where "i = k - 2"
  have ki: "k = Suc (Suc i)" using two by (simp add: i_def)
  have len: "Suc i < length cal" using k ki by simp
  have "cal ! Suc i < d" using k len ki by (metis lessI linorder_not_less)
  moreover have "d \<le> e" if e: "e \<in> set cal" "cal ! Suc i < e" for e
  proof -
    obtain j where j: "j < length cal" "e = cal ! j" using e(1) by (metis in_set_conv_nth)
    have "k \<le> j"
    proof (rule ccontr)
      assume "\<not> k \<le> j"
      then have "j = Suc i \<or> j < Suc i" using ki by auto
      then show False using e(2) j(2) sorted_wrt_trans_nth [OF assms(1) _ len, of j] by auto
    qed
    then show ?thesis using k j by (metis linorder_not_less)
  qed
  ultimately show thesis using that [of i] len by (simp add: prev before ki sessions_before_def)
qed

lemma sessions_before_unique:
  assumes "sorted_wrt (<) cal" "sessions_before d cal i" "sessions_before d cal j"
  shows "i = j"
proof -
  have "\<not> a < b" if "sessions_before d cal a" "sessions_before d cal b" for a b
  proof
    assume "a < b"
    then have "cal ! Suc a < cal ! Suc b"
      using that(2) sorted_wrt_trans_nth [OF assms(1)] by (simp add: sessions_before_def)
    moreover have "cal ! Suc b \<in> set cal" using that(2) by (simp add: sessions_before_def)
    ultimately show False using that by (force simp: sessions_before_def)
  qed
  then show ?thesis using assms by (metis linorder_less_linear)
qed

lemma priorSessions_None:
  assumes "sorted_wrt (<) cal" and "priorSessions d cal = None"
  shows "\<not> sessions_before d cal i"
proof
  assume i: "sessions_before d cal i"
  let ?f = "\<lambda>i. \<not> cal ! i < d"
  have mono: "?f b" if "a \<le> b" "b < length cal" "?f a" for a b
    using that sorted_wrt_trans_nth [OF assms(1), of a b] by (cases "a = b") auto
  have k: "search 0 (length cal) ?f \<le> length cal \<and> (\<forall>i < length cal. ?f i \<longleftrightarrow> search 0 (length cal) ?f \<le> i)"
    by (rule search_spec [OF _ mono]) simp_all
  have "search 0 (length cal) ?f < 2" using assms(2) by (auto simp: priorSessions_def Let_def split: if_splits)
  then have "search 0 (length cal) ?f \<le> Suc i" by simp
  with k i show False unfolding sessions_before_def by blast
qed

definition loss_after_drop :: "closes \<Rightarrow> instant list \<Rightarrow> ai_trade \<Rightarrow> bool" where
  \<comment> \<open>a sale at a realized loss after a session that closed at least 5 percent down\<close>
  "loss_after_drop cl dates t \<longleftrightarrow> it_side t = SideSell \<and> trade_day t \<le> List.last dates
     \<and> (case it_realized_pl t of None \<Rightarrow> False | Some pl \<Rightarrow> \<not> pl \<ge> 0)
     \<and> (\<exists>i < length dates. sessions_before (trade_day t) dates i
          \<and> (case (close_on cl (it_symbol t) (dates ! Suc i), close_on cl (it_symbol t) (dates ! i)) of
               (Some p, Some b) \<Rightarrow> \<not> feq b 0 \<and> p \<le> b * flit (1 - PanicSellDropPct / 100)
             | _ \<Rightarrow> False))"

definition judgeable :: "instant list \<Rightarrow> ai_trade \<Rightarrow> bool" where
  \<comment> \<open>a sale with two sessions before it\<close>
  "judgeable dates t \<longleftrightarrow> it_side t = SideSell \<and> trade_day t \<le> List.last dates \<and> (\<exists>i < length dates. sessions_before (trade_day t) dates i)"

lemma droppedAcross_Inr:
  "droppedAcross s prev before cl = Inr v \<longleftrightarrow>
     (case (close_on cl s prev, close_on cl s before) of
        (Some p, Some b) \<Rightarrow> \<not> feq b 0 \<and> v = (p \<le> b * flit (1 - PanicSellDropPct / 100)) | _ \<Rightarrow> False)"
  by (auto simp: droppedAcross_def split: option.splits)

lemma loss_after_drop_judged:
  assumes "sorted_wrt (<) dates" "sessions_before (trade_day t) dates i" "it_side t = SideSell" "trade_day t \<le> List.last dates"
    and "droppedAcross (it_symbol t) (dates ! Suc i) (dates ! i) cl = Inr v" and "it_realized_pl t = Some pl" "\<not> pl \<ge> 0"
  shows "loss_after_drop cl dates t = v"
proof -
  have "(\<exists>j < length dates. sessions_before (trade_day t) dates j \<and> P j) \<longleftrightarrow> P i" for P
    using assms(2) sessions_before_unique [OF assms(1) _ assms(2)] by (metis Suc_lessD sessions_before_def)
  with assms(3-7) show ?thesis
    by (simp add: loss_after_drop_def droppedAcross_Inr split: option.splits)
qed

lemma judge_sells_counts:
  assumes "sorted_wrt (<) dates" and "judge_sells (List.last dates) dates cl ts (n, ids) = Inr (m, out)"
  shows "m = n + int (length (filter (judgeable dates) ts)) \<and> out = ids @ map it_id (filter (loss_after_drop cl dates) ts)"
  using assms(2)
proof (induction ts arbitrary: n ids)
  case (Cons t ts)
  consider (skip) "it_side t \<noteq> SideSell \<or> trade_day t > List.last dates"
    | (early) "it_side t = SideSell" "\<not> trade_day t > List.last dates" "priorSessions (trade_day t) dates = None"
    | (known) prev before where "it_side t = SideSell" "\<not> trade_day t > List.last dates" "priorSessions (trade_day t) dates = Some (prev, before)"
    by (cases "priorSessions (trade_day t) dates") auto
  then show ?case
  proof cases
    case skip
    then have "\<not> judgeable dates t" "\<not> loss_after_drop cl dates t" by (auto simp: judgeable_def loss_after_drop_def)
    with skip Cons show ?thesis by (simp split: if_splits)
  next
    case early
    then have "\<not> judgeable dates t" "\<not> loss_after_drop cl dates t"
      using priorSessions_None [OF assms(1) early(3)] by (auto simp: judgeable_def loss_after_drop_def)
    with early Cons show ?thesis by simp
  next
    case known
    obtain i where i: "sessions_before (trade_day t) dates i" "prev = dates ! Suc i" "before = dates ! i"
      using priorSessions_Some [OF assms(1) known(3)] .
    then have "i < length dates" by (simp add: sessions_before_def)
    with i known have j: "judgeable dates t" by (auto simp: judgeable_def)
    show ?thesis
    proof (cases "case it_realized_pl t of None \<Rightarrow> True | Some pl \<Rightarrow> pl \<ge> 0")
      case True
      then have "\<not> loss_after_drop cl dates t" by (auto simp: loss_after_drop_def split: option.splits)
      moreover have "judge_sells (List.last dates) dates cl ts (n + 1, ids) = Inr (m, out)"
        using True known Cons.prems by simp
      ultimately show ?thesis using j Cons.IH by fastforce
    next
      case False
      then obtain pl where pl: "it_realized_pl t = Some pl" "\<not> pl \<ge> 0" by (auto split: option.splits)
      with Cons.prems known obtain v where v: "droppedAcross (it_symbol t) prev before cl = Inr v"
        by (auto split: sum.splits)
      then have "loss_after_drop cl dates t = v"
        using loss_after_drop_judged [OF assms(1) i(1)] known i pl by simp
      moreover have "judge_sells (List.last dates) dates cl ts (n + 1, if v then ids @ [it_id t] else ids) = Inr (m, out)"
        using v pl known Cons.prems by simp
      then have "m = n + 1 + int (length (filter (judgeable dates) ts))"
          "out = (if v then ids @ [it_id t] else ids) @ map it_id (filter (loss_after_drop cl dates) ts)"
        using Cons.IH by blast+
      ultimately show ?thesis using j by simp
    qed
  qed
qed simp

lemma judge_sells_error:
  assumes "\<forall>d prev before. priorSessions d dates = Some (prev, before) \<longrightarrow> prev \<in> set dates \<and> before \<in> set dates"
    and "judge_sells asOf dates cl ts acc = Inl e"
  shows "\<exists>t \<in> set ts. \<exists>d \<in> set dates. e = ErrMissingClose (it_symbol t) d"
  using assms(2)
proof (induction ts arbitrary: acc)
  case (Cons t ts)
  obtain n ids where acc: "acc = (n, ids)" by force
  show ?case
  proof (cases "\<exists>acc'. judge_sells asOf dates cl ts acc' = Inl e")
    case True
    then show ?thesis using Cons.IH by fastforce
  next
    case False
    with Cons.prems acc obtain prev before where "priorSessions (trade_day t) dates = Some (prev, before)"
        "droppedAcross (it_symbol t) prev before cl = Inl e"
      by (auto split: if_splits option.splits sum.splits)
    moreover from this have "e = ErrMissingClose (it_symbol t) prev \<or> e = ErrMissingClose (it_symbol t) before"
      by (auto simp: droppedAcross_def split: option.splits if_splits)
    moreover from calculation have "prev \<in> set dates" "before \<in> set dates" using assms(1) by blast+
    ultimately show ?thesis by (metis list.set_intros(1))
  qed
qed (cases acc, simp)

lemma priorSessions_dates: "priorSessions d cal = Some (prev, before) \<Longrightarrow> sorted_wrt (<) cal \<Longrightarrow> prev \<in> set cal \<and> before \<in> set cal"
  by (erule priorSessions_Some [rotated]) (auto simp: sessions_before_def)

definition panic_report :: "closes \<Rightarrow> instant list \<Rightarrow> ai_trade list \<Rightarrow> finding option" where
  \<comment> \<open>the panic-selling finding as a count over the trades\<close>
  "panic_report cl dates trades =
     (let evidence = map it_id (filter (loss_after_drop cl dates) trades); sells = int (length (filter (judgeable dates) trades)) in
      if evidence = [] then None
      else if int (length evidence) < PanicSellMinOccurrences \<and> fint (int (length evidence)) / fint sells < PanicSellMinShareOfSells then None
      else Some \<lparr>fd_code = FindingPanicSelling, fd_warn = False, fd_turnover = 0, fd_occurrences = int (length evidence),
        fd_sells = sells, fd_evidence = evidence\<rparr>)"

lemma panicSelling_report:
  assumes "sorted_wrt (<) (rc_dates r)"
  shows "case panicSelling trades r bm of
      Inl e \<Rightarrow> \<exists>t \<in> set trades. \<exists>d \<in> set (rc_dates r). e = ErrMissingClose (it_symbol t) d
    | Inr found \<Rightarrow> found = panic_report (closesBySymbolAndDay bm) (rc_dates r) trades"
proof (cases "rc_dates r = []")
  case True
  then have "filter (loss_after_drop (closesBySymbolAndDay bm) (rc_dates r)) trades = []"
    by (simp add: loss_after_drop_def filter_empty_conv)
  with True show ?thesis by (simp add: panicSelling_def panic_report_def Let_def)
next
  case False
  show ?thesis
  proof (cases "judge_sells (List.last (rc_dates r)) (rc_dates r) (closesBySymbolAndDay bm) trades (0, [])")
    case (Inl e)
    have "\<exists>t \<in> set trades. \<exists>d \<in> set (rc_dates r). e = ErrMissingClose (it_symbol t) d"
      by (rule judge_sells_error [OF _ Inl]) (use priorSessions_dates [OF _ assms] in blast)
    with False Inl show ?thesis by (simp add: panicSelling_def)
  next
    case (Inr v)
    obtain n ids where v: "v = (n, ids)" by force
    note c = judge_sells_counts [OF assms Inr [unfolded v]]
    have "ids = [] \<longleftrightarrow> int (length ids) = 0" by simp
    with False Inr v c show ?thesis by (simp add: panicSelling_def panic_report_def Let_def)
  qed
qed

lemma Day_floor: "Day t = t div day_ns * day_ns"
  using go_date_date_of by (cases "date_of t") (auto simp: Day_def)

end
