(* ===== verification/InsightsProps.thy ===== *)
theory InsightsProps
  imports InsightsLedger
begin

text \<open>
  The portfolio insights: the calendar, the reconstructed curve, the guard against the live
  account, the panic-selling evidence, and the independence of all of it from map iteration
  order and from the order in which the concurrent fetches finish.
\<close>

section \<open>A small history\<close>

definition demo_ai_bar :: "int \<Rightarrow> f64 \<Rightarrow> ai_bar" where
  "demo_ai_bar d c = \<lparr>ib_time = d * day_ns + 5, ib_open = c, ib_high = c, ib_low = c, ib_close = c, ib_volume = 7\<rparr>"

definition demo_bm :: bars_map where
  "demo_bm = [([66], [demo_ai_bar 1 (FNum 3), demo_ai_bar 2 (FNum 4)]), ([65], [demo_ai_bar 2 (FNum 5)])]"

definition demo_bm' :: bars_map where
  "demo_bm' = [([65], [demo_ai_bar 2 (FNum 5)]), ([66], [demo_ai_bar 1 (FNum 3), demo_ai_bar 2 (FNum 4)])]"

definition demo_trade :: ai_trade where
  "demo_trade = \<lparr>it_id = [49], it_symbol = [65], it_side = lit ''buy'', it_quantity = FNum 2, it_price = FNum 5,
     it_realized_pl = None, it_executed_at = 2 * day_ns + 9\<rparr>"

definition demo_history :: history_client where
  "demo_history symb = Inr [demo_ai_bar 2 (FNum 5)]"

section \<open>The calendar and the fetch\<close>

text \<open>The calendar lists, strictly ascending, exactly the days on which every symbol has a
  bar; a repeated bar of one symbol never stands in for a missing one of another, and with no
  symbols there is no day.\<close>

theorem calendar_is_the_intersection:
  assumes "distinct (map fst barsBySymbol)"
  shows "sorted_wrt (<) (Calendar barsBySymbol)
    \<and> set (Calendar barsBySymbol)
        = {d. barsBySymbol \<noteq> [] \<and> (\<forall>(symb, bars) \<in> set barsBySymbol. \<exists>b \<in> set bars. Day (ib_time b) = d)}"
  unfolding Calendar_days [OF assms] by (auto simp: Calendar_ascending image_iff)

theorem calendar_is_the_intersection_witness:
  "2 * day_ns \<in> set (Calendar demo_bm) \<and> day_ns \<notin> set (Calendar demo_bm)"
proof -
  have "distinct (map fst demo_bm)" by (simp add: demo_bm_def)
  then show ?thesis
    using calendar_is_the_intersection [of demo_bm]
    by (simp add: demo_bm_def demo_ai_bar_def Day_floor day_ns_def second_def)
qed

text \<open>C34. However the concurrent fetches finish, a failed request reports the error of the first
  failing symbol in order, and a complete one is enough for everything after it: the
  reconstruction of any trade log over its own calendar and the risk section never miss a
  close.\<close>

theorem no_missing_close:
  assumes "set (sched (sort (reconstructionSymbols trades))) = {..<length (reconstructionSymbols trades)}"
  shows "case FetchHistories history (reconstructionSymbols trades) sched of
      Inl e \<Rightarrow> \<exists>xs s ys. reconstructionSymbols trades = xs @ s # ys \<and> history s = Inl e \<and> list_all (\<lambda>x. is_ok (history x)) xs
    | Inr barsBySymbol \<Rightarrow> \<exists>r risk. Reconstruct trades barsBySymbol (Calendar barsBySymbol) = Inr r
        \<and> ComputeRisk r barsBySymbol = Inr risk"
proof (cases "FetchHistories history (reconstructionSymbols trades) sched")
  case (Inl e)
  have "sort (reconstructionSymbols trades) = reconstructionSymbols trades"
    unfolding reconstructionSymbols_def by (rule sort_key_id_if_sorted) (simp only: list.map_ident sorted_sort)
  with Inl have "scan_errors (map (\<lambda>s. Some (history s)) (reconstructionSymbols trades)) = Some e"
    unfolding FetchHistories_complete [where history = history and symbols = "reconstructionSymbols trades" and sched = sched, OF assms]
    by (auto split: option.splits)
  then show ?thesis using Inl scan_errors_first by simp
next
  case (Inr bm)
  have "it_symbol ` set trades \<subseteq> set (reconstructionSymbols trades)" by (auto simp: reconstructionSymbols_def)
  with FetchHistories_InrD [OF assms Inr] have c: "complete_history bm trades" by (simp add: complete_history_def)
  obtain r where "Reconstruct trades bm (Calendar bm) = Inr r" using Reconstruct_ok [OF c] by blast
  with ComputeRisk_ok [OF c this] Inr show ?thesis by auto
qed

theorem no_missing_close_witness:
  "case FetchHistories demo_history (reconstructionSymbols [demo_trade]) (\<lambda>_. [2, 0, 1]) of
      Inl e \<Rightarrow> \<exists>xs s ys. reconstructionSymbols [demo_trade] = xs @ s # ys \<and> demo_history s = Inl e \<and> list_all (\<lambda>x. is_ok (demo_history x)) xs
    | Inr barsBySymbol \<Rightarrow> \<exists>r risk. Reconstruct [demo_trade] barsBySymbol (Calendar barsBySymbol) = Inr r
        \<and> ComputeRisk r barsBySymbol = Inr risk"
proof (rule no_missing_close)
  have "length (reconstructionSymbols [demo_trade]) = 3"
    by (simp add: reconstructionSymbols_def BenchmarkSymbols_def demo_trade_def lit_def)
  then show "set [2, 0, 1] = {..<length (reconstructionSymbols [demo_trade])}" by auto
qed

section \<open>The curve\<close>

text \<open>C4. The reconstruction is the ledger: its dates are the calendar from the first trade on;
  the cash and holdings of a date are the starting balance after every trade executed on that
  day or before, none dropped for falling on a day the calendar skips; the equity is that cash
  plus the holdings at the closes of the date; it fails exactly when one of those closes is
  missing.\<close>

theorem reconstruction_is_the_ledger:
  "Reconstruct trades barsBySymbol (Calendar barsBySymbol) =
    (let dates = covered_dates trades (Calendar barsBySymbol) in
     sum_bind (traverse (equity_on barsBySymbol trades) dates) (\<lambda>equity.
       Inr \<lparr>rc_dates = dates, rc_equity = equity, rc_cash = map (\<lambda>d. fst (balance_sheet trades d)) dates,
            rc_holdings = (if dates = [] then [] else snd (balance_sheet trades (List.last dates)))\<rparr>))"
  by (rule Reconstruct_ledger [OF Calendar_ascending])

text \<open>C21. The guard compares like with like: the account is held against the starting balance
  after every trade of the log, each applied exactly once, including those after the last
  close; it accepts exactly when cash agrees to a cent and the positions agree symbol by symbol
  within the tolerance.\<close>

theorem guard_applies_every_trade_once:
  "case Reconstruct trades barsBySymbol (Calendar barsBySymbol) of
     Inl e \<Rightarrow> True
   | Inr r \<Rightarrow> if rc_dates r = [] then Reconcile r trades live
       else \<exists>ts. mset ts = mset trades \<and> (Reconcile r trades live = agrees (apply_all ts (StartingBalance, [])) live)"
proof (cases "Reconstruct trades barsBySymbol (Calendar barsBySymbol)")
  case (Inr r)
  show ?thesis
  proof (cases "rc_dates r = []")
    case False
    obtain ts where "mset ts = mset trades" "projectPastCalendar r trades = apply_all ts (StartingBalance, [])"
      using projected_ledger [OF Inr False] .
    with Inr False show ?thesis by (auto simp: Reconcile_agrees)
  qed (simp add: Inr Reconcile_agrees)
qed simp

section \<open>Determinism\<close>

text \<open>No map iteration order reaches the report: visiting the histories and the holdings in
  another order leaves the calendar, the curve, the guard, the risk section, the benchmarks
  and the behaviour section the same, to the last bit.\<close>

theorem iteration_order_is_invisible:
  assumes "same_map bars bars'" and "same_map (rc_holdings r) h'"
  shows "Calendar bars = Calendar bars'
    \<and> Reconstruct trades bars cal = Reconstruct trades bars' cal
    \<and> Reconcile r trades live = Reconcile (r\<lparr>rc_holdings := h'\<rparr>) trades live
    \<and> ComputeRisk r bars = ComputeRisk (r\<lparr>rc_holdings := h'\<rparr>) bars'
    \<and> ComputeBenchmarking r bars = ComputeBenchmarking r bars'
    \<and> ComputeBehavior trades r bars risk = ComputeBehavior trades r bars' risk"
proof -
  note cl = same_map_close_on [OF assms(1)]
  have "weigh (closesBySymbolAndDay bars) d (rc_holdings r) symbs acc = weigh (closesBySymbolAndDay bars') d h' symbs acc" for d symbs acc
    by (rule weigh_cong [OF cl same_map_quantity [OF assms(2)]])
  then have "ComputeRisk r bars = ComputeRisk (r\<lparr>rc_holdings := h'\<rparr>) bars'"
    by (simp add: ComputeRisk_def same_map_sortedSymbols [OF assms(2)])
  moreover have "panicSelling trades r bars = panicSelling trades r bars'"
    by (simp add: panicSelling_def judge_sells_cong [OF cl])
  then have "ComputeBehavior trades r bars risk = ComputeBehavior trades r bars' risk"
    by (simp add: ComputeBehavior_def)
  moreover have "ComputeBenchmarking r bars = ComputeBenchmarking r bars'"
    by (simp add: ComputeBenchmarking_def benchmark_all_cong [OF cl])
  moreover have "Reconstruct trades bars cal = Reconstruct trades bars' cal"
    by (simp add: Reconstruct_def recon_days_cong [OF cl])
  ultimately show ?thesis
    using same_map_Calendar [OF assms(1)] same_map_Reconcile [OF assms(2)] by blast
qed

theorem iteration_order_is_invisible_witness:
  "ComputeRisk \<lparr>rc_dates = [day_ns], rc_equity = [1], rc_cash = [1], rc_holdings = [([65], 1), ([66], 1)]\<rparr> demo_bm
     = ComputeRisk \<lparr>rc_dates = [day_ns], rc_equity = [1], rc_cash = [1], rc_holdings = [([66], 1), ([65], 1)]\<rparr> demo_bm'"
proof -
  have "same_map demo_bm demo_bm'"
    by (auto simp: same_map_def demo_bm_def demo_bm'_def fun_eq_iff)
  moreover have "same_map [([65], 1), ([66], 1)] [([66 :: nat], 1 :: f64), ([65], 1)]"
    by (auto simp: same_map_def fun_eq_iff)
  ultimately show ?thesis
    using iteration_order_is_invisible [of demo_bm demo_bm'
        "\<lparr>rc_dates = [day_ns], rc_equity = [1], rc_cash = [1], rc_holdings = [([65], 1), ([66], 1)]\<rparr>"] by simp
qed

section \<open>Behaviour\<close>

text \<open>C26. The panic-selling finding is the count it claims: over a reconstructed history, its
  evidence lists exactly the sales at a realized loss that followed a session closing at least
  five percent down, where the session is the last one strictly before the sale and the drop is
  measured from the one before it; it is reported when there are three of them or they are at
  least thirty percent of the sales that have two sessions before them.\<close>

theorem panic_evidence_is_exact:
  "case Reconstruct trades barsBySymbol (Calendar barsBySymbol) of
     Inl e \<Rightarrow> True
   | Inr r \<Rightarrow> (case panicSelling trades r barsBySymbol of
        Inl e \<Rightarrow> \<exists>t \<in> set trades. \<exists>d \<in> set (rc_dates r). e = ErrMissingClose (it_symbol t) d
      | Inr found \<Rightarrow> found = panic_report (closesBySymbolAndDay barsBySymbol) (rc_dates r) trades)"
proof (cases "Reconstruct trades barsBySymbol (Calendar barsBySymbol)")
  case (Inr r)
  have "sorted_wrt (<) (rc_dates r)"
    unfolding Reconstruct_InrD(1) [OF Inr] covered_dates_def by (rule sorted_wrt_filter [OF Calendar_ascending])
  with Inr panicSelling_report [of r trades barsBySymbol] show ?thesis by simp
qed simp

end
