(* ===== verification/Narrative.thy ===== *)
theory Narrative
  imports InsightsReport GoJSON GoStrconv
begin

text \<open>
  services/ai-insights, internal/narrative: the token vocabulary of a report (placeholders.go,
  types.go), the checks a draft must pass (validate.go, limits.go), the rendering of a draft
  (render.go) and the generation loop (generate.go).

  The generator is an argument: what each attempt answers to its prompt. A map of sections or
  of tokens is an association list. \<open>ge_print\<close> is the table of
  printable letters behind \<open>strconv.Quote\<close>.
\<close>

section \<open>Values\<close>

datatype kind = KindPercent | KindSignedPercent | KindRatio | KindIndex | KindMoney | KindQuantity | KindCount
  | KindDate | KindSymbol

record figure =
  fg_kind :: kind
  fg_num :: f64
  fg_text :: gostr

definition num :: "kind \<Rightarrow> f64 \<Rightarrow> figure" where
  "num k n = \<lparr>fg_kind = k, fg_num = n, fg_text = []\<rparr>"

definition text_figure :: "kind \<Rightarrow> gostr \<Rightarrow> figure" where
  "text_figure k s = \<lparr>fg_kind = k, fg_num = 0, fg_text = s\<rparr>"

type_synonym vocabulary = "(gostr \<times> figure) list"

section \<open>The vocabulary of a report\<close>

definition safe_rune :: "rune \<Rightarrow> bool" where
  "safe_rune r \<longleftrightarrow> 65 \<le> r \<and> r \<le> 90 \<or> 97 \<le> r \<and> r \<le> 122 \<or> 48 \<le> r \<and> r \<le> 57 \<or> r = 46 \<or> r = 95 \<or> r = 45"

definition safeName :: "gostr \<Rightarrow> bool" where
  "safeName s \<longleftrightarrow> 1 \<le> length s \<and> length s \<le> 32 \<and> list_all safe_rune s"

definition largestPosition :: "position_weight list \<Rightarrow> position_weight option" where
  "largestPosition ps = (case ps of [] \<Rightarrow> None
     | p # rest \<Rightarrow> Some (foldl (\<lambda>largest p. if pw_weight p > pw_weight largest then p else largest) p rest))"

definition code_text :: "finding_code \<Rightarrow> gostr" where
  "code_text c = (case c of FindingOvertrading \<Rightarrow> lit ''overtrading'' | FindingPanicSelling \<Rightarrow> lit ''panic_selling'')"

definition put :: "gostr \<times> figure \<Rightarrow> vocabulary \<Rightarrow> vocabulary" where
  "put kv out = AList.update (fst kv) (snd kv) out"

definition put_all :: "(gostr \<times> figure) list \<Rightarrow> vocabulary \<Rightarrow> vocabulary" where
  "put_all kvs out = foldl (\<lambda>out kv. put kv out) out kvs"

definition window_tokens :: "portfolio_insights \<Rightarrow> (gostr \<times> figure) list" where
  "window_tokens r =
     (if pi_as_of r \<noteq> [] then [(lit ''as_of_date'', text_figure KindDate (pi_as_of r))] else [])
     @ (if pi_start r \<noteq> [] then [(lit ''window.start_date'', text_figure KindDate (pi_start r))] else [])
     @ [(lit ''window.trading_days'', num KindCount (fint (pi_days r)))]"

definition position_tokens :: "position_weight \<Rightarrow> (gostr \<times> figure) list" where
  "position_tokens p = (if \<not> safeName (pw_symbol p) then [] else
     [(lit ''risk.positions.'' @ pw_symbol p @ lit ''.weight_pct'', num KindPercent (pw_weight p)),
      (lit ''risk.positions.'' @ pw_symbol p @ lit ''.market_value'', num KindMoney (pw_value p)),
      (lit ''risk.positions.'' @ pw_symbol p @ lit ''.quantity'', num KindQuantity (pw_quantity p))])"

definition risk_tokens :: "risk_section \<Rightarrow> (gostr \<times> figure) list" where
  "risk_tokens s =
     [(lit ''risk.position_count'', num KindCount (fint (int (length (rs_positions s))))),
      (lit ''risk.cash_weight_pct'', num KindPercent (rs_cash_weight s)),
      (lit ''risk.concentration_hhi'', num KindIndex (rs_hhi s)),
      (lit ''risk.largest_position_pct'', num KindPercent (rs_largest s)),
      (lit ''risk.annualized_volatility_pct'', num KindPercent (rs_volatility s)),
      (lit ''risk.max_drawdown_pct'', num KindPercent (rs_drawdown s))]
     @ (case largestPosition (rs_positions s) of None \<Rightarrow> []
        | Some p \<Rightarrow> if safeName (pw_symbol p) then [(lit ''risk.largest_position_symbol'', text_figure KindSymbol (pw_symbol p))] else [])
     @ concat (map position_tokens (rs_positions s))"

definition benchmark_tokens :: "benchmark \<Rightarrow> (gostr \<times> figure) list" where
  "benchmark_tokens b = (if \<not> safeName (bm_symbol b) then [] else
     [(lit ''benchmarking.'' @ bm_symbol b @ lit ''.return_pct'', num KindSignedPercent (bm_return b)),
      (lit ''benchmarking.'' @ bm_symbol b @ lit ''.excess_return_pct'', num KindSignedPercent (bm_excess b)),
      (lit ''benchmarking.'' @ bm_symbol b @ lit ''.sharpe'', num KindRatio (bm_sharpe b))])"

definition benchmarking_tokens :: "benchmarking_section \<Rightarrow> (gostr \<times> figure) list" where
  "benchmarking_tokens s =
     [(lit ''benchmarking.portfolio_return_pct'', num KindSignedPercent (bs_return s)),
      (lit ''benchmarking.portfolio_sharpe'', num KindRatio (bs_sharpe s)),
      (lit ''benchmarking.benchmark_count'', num KindCount (fint (int (length (bs_benchmarks s)))))]
     @ concat (map benchmark_tokens (bs_benchmarks s))"

definition finding_tokens :: "finding \<Rightarrow> (gostr \<times> figure) list" where
  "finding_tokens f = (if \<not> safeName (code_text (fd_code f)) then [] else
     (if \<not> feq (fd_turnover f) 0
      then [(lit ''behavior.findings.'' @ code_text (fd_code f) @ lit ''.turnover_ratio'', num KindRatio (fd_turnover f))] else [])
     @ (if fd_occurrences f \<noteq> 0
        then [(lit ''behavior.findings.'' @ code_text (fd_code f) @ lit ''.occurrences'', num KindCount (fint (fd_occurrences f)))] else []))"

definition behavior_tokens :: "behavior_section \<Rightarrow> (gostr \<times> figure) list" where
  "behavior_tokens s =
     [(lit ''behavior.trade_count'', num KindCount (fint (hs_trades s))),
      (lit ''behavior.finding_count'', num KindCount (fint (int (length (hs_findings s)))))]
     @ concat (map finding_tokens (hs_findings s))"

definition Placeholders :: "portfolio_insights \<Rightarrow> vocabulary" where
  "Placeholders r = put_all
     ((if rs_state (pi_risk r) = StateOK \<or> bs_state (pi_benchmarking r) = StateOK \<or> hs_state (pi_behavior r) = StateOK
       then window_tokens r else [])
      @ (if rs_state (pi_risk r) = StateOK then risk_tokens (pi_risk r) else [])
      @ (if bs_state (pi_benchmarking r) = StateOK then benchmarking_tokens (pi_benchmarking r) else [])
      @ (if hs_state (pi_behavior r) = StateOK then behavior_tokens (pi_behavior r) else [])) []"

section \<open>Figures as text\<close>

definition FormatFixed :: "f64 \<Rightarrow> nat \<Rightarrow> gostr" where
  \<comment> \<open>\<open>strconv.FormatFloat(v, 'f', places, 64)\<close>\<close>
  "FormatFixed v places = (case v of
     NaN \<Rightarrow> lit ''NaN''
   | FInf s \<Rightarrow> (if s then lit ''-Inf'' else lit ''+Inf'')
   | _ \<Rightarrow> let n = nat (rhe (\<bar>val v\<bar> * 10 ^ places)) in
       (if signbit v then [45] else []) @ zpad 1 (n div 10 ^ places)
       @ (if places = 0 then [] else 46 # zpad places (n mod 10 ^ places)))"

definition roundHalfAway :: "f64 \<Rightarrow> nat \<Rightarrow> f64" where
  "roundHalfAway v places = (let scale = FNum (10 ^ places) in fround (v * scale) / scale)"

definition decimal :: "f64 \<Rightarrow> nat \<Rightarrow> gostr" where
  "decimal v places = FormatFixed (roundHalfAway v places) places"

fun group_digits :: "gostr \<Rightarrow> gostr" where
  \<comment> \<open>a separator before every digit but the first whose distance to the end is a multiple of three\<close>
  "group_digits [] = []"
| "group_digits [r] = [r]"
| "group_digits (r # s) = (if length s mod 3 = 0 then r # 44 # group_digits s else r # group_digits s)"

definition group :: "gostr \<Rightarrow> gostr" where
  "group s0 = (let (sgn, s) = (case cut_prefix [45] s0 of Some rest \<Rightarrow> ([45], rest) | None \<Rightarrow> ([], s0)) in
     case index_rune 46 s of
       None \<Rightarrow> sgn @ group_digits s
     | Some dot \<Rightarrow> sgn @ group_digits (take dot s) @ drop dot s)"

definition trimTrailingZeros :: "gostr \<Rightarrow> gostr" where
  "trimTrailingZeros s = (if 46 \<notin> set s then s
     else let t = trim_right (\<lambda>r. r = 48) s in if t \<noteq> [] \<and> List.last t = 46 then butlast t else t)"

definition plain_int :: "int \<Rightarrow> gostr" where
  "plain_int x = append_int x 1"

definition format :: "figure \<Rightarrow> gostr option" where
  "format v = (case fg_kind v of
     KindPercent \<Rightarrow> Some (decimal (fg_num v) 1 @ [37])
   | KindSignedPercent \<Rightarrow> Some ((if fg_num v > 0 then [43] else []) @ decimal (fg_num v) 1 @ [37])
   | KindRatio \<Rightarrow> Some (decimal (fg_num v) 2)
   | KindIndex \<Rightarrow> Some (decimal (fg_num v) 3)
   | KindMoney \<Rightarrow> Some (group (decimal (fg_num v) 2))
   | KindQuantity \<Rightarrow> Some (group (trimTrailingZeros (decimal (fg_num v) 4)))
   | KindCount \<Rightarrow> Some (group (decimal (fg_num v) 0))
   | KindDate \<Rightarrow> (case parse_date (fg_text v) of
       None \<Rightarrow> None
     | Some t \<Rightarrow> (case date_of t of (y, m, d) \<Rightarrow> Some (plain_int m @ [47] @ plain_int d @ [47] @ plain_int y)))
   | KindSymbol \<Rightarrow> Some (fg_text v))"

section \<open>Rendering\<close>

datatype render_err = UnterminatedPlaceholder | UnknownPlaceholder gostr | BadValue gostr

lemma index_rune_less: "index_rune c s = Some i \<Longrightarrow> i < length s"
  by (induction s arbitrary: i) (auto split: if_splits)

function Render_from :: "gostr \<Rightarrow> vocabulary \<Rightarrow> gostr \<Rightarrow> render_err + gostr" where
  \<comment> \<open>the loop; \<open>out\<close> is what has been written\<close>
  "Render_from rest vocab out =
     (case index_rune 123 rest of
        None \<Rightarrow> Inr (out @ rest)
      | Some i \<Rightarrow>
          (case index_rune 125 (drop i rest) of
             None \<Rightarrow> Inl UnterminatedPlaceholder
           | Some k \<Rightarrow>
               let token = take (k - 1) (drop (i + 1) rest) in
               (case map_of vocab token of
                  None \<Rightarrow> Inl (UnknownPlaceholder token)
                | Some v \<Rightarrow>
                    (case format v of
                       None \<Rightarrow> Inl (BadValue token)
                     | Some formatted \<Rightarrow> Render_from (drop (i + k + 1) rest) vocab (out @ take i rest @ formatted)))))"
  by pat_completeness auto
termination
  by (relation "measure (\<lambda>(rest, vocab, out). length rest)") (auto dest: index_rune_less)

declare Render_from.simps [simp del]

definition Render :: "gostr \<Rightarrow> vocabulary \<Rightarrow> render_err + gostr" where
  "Render draft vocab = Render_from draft vocab []"

section \<open>Checking a draft\<close>

definition MaxSectionChars :: nat where "MaxSectionChars = 1200"
definition MaxTotalChars :: nat where "MaxTotalChars = 3000"
definition DailyGenerationCap :: int where "DailyGenerationCap = 50"

definition bannedWords :: "gostr list" where
  "bannedWords = map lit [''zero'', ''one'', ''two'', ''three'', ''four'', ''five'', ''six'', ''seven'', ''eight'',
     ''nine'', ''ten'', ''eleven'', ''twelve'', ''thirteen'', ''fourteen'', ''fifteen'',
     ''sixteen'', ''seventeen'', ''eighteen'', ''nineteen'', ''twenty'', ''thirty'',
     ''forty'', ''fifty'', ''sixty'', ''seventy'', ''eighty'', ''ninety'',
     ''hundred'', ''hundreds'', ''thousand'', ''thousands'', ''million'', ''millions'',
     ''billion'', ''billions'', ''trillion'', ''trillions'',
     ''half'', ''halves'', ''third'', ''thirds'', ''quarter'', ''quarters'', ''fifth'',
     ''fifths'', ''eighth'', ''eighths'', ''tenth'', ''tenths'', ''dozen'', ''dozens'',
     ''twice'', ''double'', ''doubled'', ''triple'', ''tripled'',
     ''couple'', ''couples'', ''pair'', ''pairs'',
     ''percent'', ''percentage'', ''percentages'', ''dollar'', ''dollars'', ''cent'',
     ''cents'', ''usd'', ''bps'']"

definition word_rune :: "rune \<Rightarrow> bool" where
  "word_rune r \<longleftrightarrow> 48 \<le> r \<and> r \<le> 57 \<or> 65 \<le> r \<and> r \<le> 90 \<or> 97 \<le> r \<and> r \<le> 122 \<or> r = 95"

fun ends_word :: "gostr \<Rightarrow> bool" where
  "ends_word [] = False"
| "ends_word s = word_rune (List.last s)"

fun starts_word :: "gostr \<Rightarrow> bool" where
  "starts_word [] = False"
| "starts_word (r # s) = word_rune r"

definition word_boundary :: "gostr \<Rightarrow> gostr \<Rightarrow> bool" where
  \<comment> \<open>\<open>\\b\<close> between two parts of a text, in ASCII\<close>
  "word_boundary before after \<longleftrightarrow> ends_word before \<noteq> starts_word after"

definition banned_at :: "gostr \<Rightarrow> nat \<Rightarrow> bool" where
  "banned_at draft i \<longleftrightarrow> list_ex (\<lambda>w.
     names_field w (take (length w) (drop i draft))
     \<and> word_boundary (take i draft) (drop i draft) \<and> word_boundary (take (i + length w) draft) (drop (i + length w) draft)) bannedWords"

definition has_banned_word :: "gostr \<Rightarrow> bool" where
  "has_banned_word draft \<longleftrightarrow> list_ex (banned_at draft) [0..<length draft]"

definition ascii_digit :: "rune \<Rightarrow> bool" where
  "ascii_digit r \<longleftrightarrow> 48 \<le> r \<and> r \<le> 57"

datatype piece = Plain rune | Token gostr

definition brace :: "rune \<Rightarrow> bool" where "brace r \<longleftrightarrow> r = 123 \<or> r = 125"

definition take_token :: "gostr \<Rightarrow> (gostr \<times> gostr) option" where
  \<comment> \<open>the match of \<open>tokenPattern\<close> behind an opening brace, and what follows it\<close>
  "take_token s = (let body = takeWhile (\<lambda>r. \<not> brace r) s in
     case drop (length body) s of [] \<Rightarrow> None | r # rest \<Rightarrow> if r = 125 then Some (body, rest) else None)"

lemma take_token_Some: "take_token s = Some (b, rest) \<Longrightarrow> s = b @ 125 # rest \<and> (\<forall>r \<in> set b. \<not> brace r)"
  by (auto simp: take_token_def Let_def dest: set_takeWhileD split: list.splits if_splits)
    (metis append_take_drop_id takeWhile_eq_take length_takeWhile_le)

function pieces :: "gostr \<Rightarrow> piece list" where
  \<comment> \<open>the matches of \<open>tokenPattern\<close>, leftmost first, and the text between them\<close>
  "pieces [] = []"
| "pieces (r # s) = (if r = 123 then (case take_token s of
       Some (b, rest) \<Rightarrow> Token b # pieces rest
     | None \<Rightarrow> Plain r # pieces s) else Plain r # pieces s)"
  by pat_completeness auto
termination by (relation "measure length") (auto dest: take_token_Some)

fun plain_of :: "piece list \<Rightarrow> gostr" where
  "plain_of [] = []"
| "plain_of (Plain r # ps) = r # plain_of ps"
| "plain_of (Token b # ps) = plain_of ps"

fun tokens_of :: "piece list \<Rightarrow> gostr list" where
  "tokens_of [] = []"
| "tokens_of (Plain r # ps) = tokens_of ps"
| "tokens_of (Token b # ps) = b # tokens_of ps"

datatype check = CheckEmpty | CheckLength | CheckDigit | CheckNumberWord | CheckUnknownToken | CheckMalformed

record rejection =
  rj_check :: check
  rj_detail :: gostr
  rj_fragment :: gostr
  rj_section :: gostr

definition rejected :: "check \<Rightarrow> gostr \<Rightarrow> gostr \<Rightarrow> rejection option" where
  "rejected c detail fragment = Some \<lparr>rj_check = c, rj_detail = detail, rj_fragment = fragment, rj_section = []\<rparr>"

fun rune_floor :: "gostr \<Rightarrow> nat \<Rightarrow> nat" where
  \<comment> \<open>how many runes end at or before a byte position: the position snapped back to a rune boundary\<close>
  "rune_floor [] b = 0"
| "rune_floor (r # s) b = (if rune_len r \<le> b then Suc (rune_floor s (b - rune_len r)) else 0)"

fun rune_ceil :: "gostr \<Rightarrow> nat \<Rightarrow> nat" where
  \<comment> \<open>the position snapped forward\<close>
  "rune_ceil [] b = 0"
| "rune_ceil (r # s) b = (if b = 0 then 0 else Suc (rune_ceil s (b - rune_len r)))"

definition truncate_text :: "gostr \<Rightarrow> gostr" where
  "truncate_text s = (if byte_len s \<le> 40 then s else take (rune_floor s 40) s @ lit ''...'')"

definition around :: "gostr \<Rightarrow> nat \<Rightarrow> gostr" where
  \<comment> \<open>the offence is at the rune \<open>k\<close>, which is at the byte \<open>i\<close>\<close>
  "around s k = (let i = byte_len (take k s);
       start = rune_floor s (i - 20);
       stop = rune_ceil s (min (byte_len s) (i + 20))
     in drop start (take stop s))"

definition first_index :: "(nat \<Rightarrow> bool) \<Rightarrow> gostr \<Rightarrow> nat option" where
  \<comment> \<open>the start of the leftmost match\<close>
  "first_index hit s = find hit [0..<length s]"

definition decimal_nat :: "nat \<Rightarrow> gostr" where
  "decimal_nat n = plain_int (int n)"

definition Validate :: "gostr \<Rightarrow> vocabulary \<Rightarrow> rejection option" where
  "Validate draft vocab =
     (if trim_space draft = [] then rejected CheckEmpty (lit ''the draft is empty'') draft
      else if byte_len draft > MaxSectionChars then
        rejected CheckLength (lit ''the draft is '' @ decimal_nat (byte_len draft) @ lit '' characters, over the ''
          @ decimal_nat MaxSectionChars @ lit '' cap'') (truncate_text draft)
      else case first_index (\<lambda>k. ascii_digit (draft ! k)) draft of
        Some k \<Rightarrow> rejected CheckDigit (lit ''a figure must be written as a placeholder, never as a numeral'') (around draft k)
      | None \<Rightarrow>
      case first_index (\<lambda>k. draft ! k = 37 \<or> draft ! k = 36) draft of
        Some k \<Rightarrow> rejected CheckDigit (lit ''the unit is supplied with the figure, so it must not be written in the prose'') (around draft k)
      | None \<Rightarrow>
      case first_index (banned_at draft) draft of
        Some k \<Rightarrow> rejected CheckNumberWord (lit ''a quantity must be written as a placeholder, never spelled out'') (around draft k)
      | None \<Rightarrow>
      if count_list draft 123 \<noteq> count_list draft 125 then
        rejected CheckMalformed (lit ''a placeholder is unterminated'') (truncate_text draft)
      else case find (\<lambda>t. map_of vocab t = None) (tokens_of (pieces draft)) of
        Some t \<Rightarrow> rejected CheckUnknownToken (lit ''no such figure was offered'') t
      | None \<Rightarrow>
      if list_ex brace (plain_of (pieces draft)) then
        rejected CheckMalformed (lit ''a placeholder is nested or malformed'') (truncate_text draft)
      else None)"

type_synonym sections = "(gostr \<times> gostr) list"

fun first_rejection :: "sections \<Rightarrow> vocabulary \<Rightarrow> gostr list \<Rightarrow> rejection option" where
  "first_rejection secs vocab [] = None"
| "first_rejection secs vocab (name # names) =
     (case Validate (case map_of secs name of None \<Rightarrow> [] | Some d \<Rightarrow> d) vocab of
        Some e \<Rightarrow> Some (e\<lparr>rj_section := name\<rparr>)
      | None \<Rightarrow> first_rejection secs vocab names)"

definition ValidateSections :: "sections \<Rightarrow> vocabulary \<Rightarrow> rejection option" where
  "ValidateSections secs vocab =
     (let total = sum_list (map (\<lambda>(name, draft). byte_len draft) secs) in
      case first_rejection secs vocab (sort (map fst secs)) of
        Some e \<Rightarrow> Some e
      | None \<Rightarrow>
          if total > MaxTotalChars then
            rejected CheckLength (lit ''the narrative is '' @ decimal_nat total @ lit '' characters, over the ''
              @ decimal_nat MaxTotalChars @ lit '' cap'') (decimal_nat (length secs) @ lit '' sections'')
          else None)"

section \<open>The text of a rejection\<close>

definition check_name :: "check \<Rightarrow> gostr" where
  "check_name c = (case c of CheckEmpty \<Rightarrow> lit ''empty'' | CheckLength \<Rightarrow> lit ''length'' | CheckDigit \<Rightarrow> lit ''digit''
     | CheckNumberWord \<Rightarrow> lit ''number_word'' | CheckUnknownToken \<Rightarrow> lit ''unknown_token'' | CheckMalformed \<Rightarrow> lit ''malformed'')"

definition ValidationError :: "(rune \<Rightarrow> bool) \<Rightarrow> rejection \<Rightarrow> gostr" where
  \<comment> \<open>\<open>Error\<close> of a \<open>ValidationError\<close>\<close>
  "ValidationError tbl e =
     (let where = (if rj_section e \<noteq> [] then lit '' in the '' @ rj_section e @ lit '' section'' else []) in
      lit ''narrative: draft rejected'' @ where @ lit '' ('' @ check_name (rj_check e) @ lit ''): '' @ rj_detail e @ lit '': ''
        @ Quote tbl (rj_fragment e))"

section \<open>Generation\<close>

record prompt =
  pm_system :: gostr
  pm_user :: gostr

datatype llm_err = ErrRateLimited | ErrTimeout | ErrRefused | ErrUpstream

datatype generate_err = ErrNothingToPhrase | ErrDraft llm_err | ErrValidatedDraft | ErrGenerationUnusable

definition sectionNames :: "gostr list" where
  "sectionNames = [lit ''risk'', lit ''benchmarking'', lit ''behavior'']"

definition withCorrection :: "prompt \<Rightarrow> gostr \<Rightarrow> prompt" where
  "withCorrection p reason = p\<lparr>pm_user := pm_user p @ [10, 10]
     @ lit ''Your previous draft was rejected and not shown to anyone. '' @ reason @ [10]
     @ lit ''Rewrite it. Every figure must be a placeholder from the list above; ''
     @ lit ''write no digits, no spelled-out numbers, and no units.''\<rparr>"

definition dec_sections :: "json \<Rightarrow> sections option" where
  \<comment> \<open>decoding into \<open>map[string]string\<close>\<close>
  "dec_sections j = (case j of
     JNull \<Rightarrow> Some []
   | JObj ms \<Rightarrow> foldl (\<lambda>acc (k, v). case acc of None \<Rightarrow> None | Some m \<Rightarrow>
       (case v of JNull \<Rightarrow> Some (AList.update k [] m) | JStr s \<Rightarrow> Some (AList.update k s m) | _ \<Rightarrow> None)) (Some []) ms
   | _ \<Rightarrow> None)"

definition fence :: gostr where "fence = [96, 96, 96]"

definition trim_suffix :: "gostr \<Rightarrow> gostr \<Rightarrow> gostr" where
  "trim_suffix suf s = (if length suf \<le> length s \<and> drop (length s - length suf) s = suf then take (length s - length suf) s else s)"

definition unfence :: "gostr \<Rightarrow> gostr" where
  "unfence raw = (let trimmed = trim_space raw in
     if has_prefix fence trimmed then
       let trimmed = (case index_rune 10 trimmed of Some i \<Rightarrow> drop (i + 1) trimmed | None \<Rightarrow> trimmed) in
       trim_suffix fence (trim_space trimmed)
     else trimmed)"

definition parseDraft :: "(gostr \<Rightarrow> json option) \<Rightarrow> gostr \<Rightarrow> rejection + sections" where
  \<comment> \<open>\<open>parse_json\<close> is the syntax of \<open>json.Unmarshal\<close>\<close>
  "parseDraft parse_json raw =
     (let trimmed = unfence raw in
      case Option.bind (parse_json (trim_space trimmed)) dec_sections of
        None \<Rightarrow> Inl \<lparr>rj_check = CheckMalformed, rj_detail = lit ''the draft is not the JSON object of sections that was asked for'',
          rj_fragment = truncate_text trimmed, rj_section = []\<rparr>
      | Some out \<Rightarrow>
          let kept = List.map_filter (\<lambda>name. map_option (Pair name) (map_of out name)) sectionNames in
          if kept = [] then Inl \<lparr>rj_check = CheckMalformed, rj_detail = lit ''the draft carries none of the sections that were asked for'',
            rj_fragment = truncate_text trimmed, rj_section = []\<rparr> else Inr kept)"

fun renderSections :: "sections \<Rightarrow> vocabulary \<Rightarrow> render_err + sections" where
  "renderSections [] vocab = Inr []"
| "renderSections ((name, draft) # secs) vocab =
     sum_bind (Render draft vocab) (\<lambda>rendered. sum_bind (renderSections secs vocab) (\<lambda>out. Inr ((name, rendered) # out)))"

record gen_env =
  ge_draft :: "nat \<Rightarrow> prompt \<Rightarrow> llm_err + gostr"
  ge_parse :: "gostr \<Rightarrow> json option"
  ge_print :: "rune \<Rightarrow> bool"

fun attempts :: "gen_env \<Rightarrow> vocabulary \<Rightarrow> prompt \<Rightarrow> prompt \<Rightarrow> nat list \<Rightarrow> generate_err + sections" where
  \<comment> \<open>the loop; the list holds the numbers of the attempts still to make\<close>
  "attempts env vocab p attempt [] = Inl ErrGenerationUnusable"
| "attempts env vocab p attempt (i # is) =
     (case ge_draft env i attempt of
        Inl e \<Rightarrow> Inl (ErrDraft e)
      | Inr raw \<Rightarrow>
          (case (case parseDraft (ge_parse env) raw of
                   Inl e \<Rightarrow> Inl e
                 | Inr secs \<Rightarrow> (case ValidateSections secs vocab of Some e \<Rightarrow> Inl e | None \<Rightarrow> Inr secs)) of
             Inr secs \<Rightarrow>
               (case renderSections secs vocab of
                  Inr rendered \<Rightarrow> Inr rendered
                | Inl e \<Rightarrow> Inl ErrValidatedDraft)
           | Inl e \<Rightarrow> attempts env vocab p (withCorrection p (ValidationError (ge_print env) e)) is))"

definition Generate :: "gen_env \<Rightarrow> prompt \<Rightarrow> vocabulary \<Rightarrow> generate_err + sections" where
  "Generate env p vocab =
     (if vocab = [] then Inl ErrNothingToPhrase else attempts env vocab p p [0, 1])"

end
