(* ===== verification/NarrativeFacts.thy ===== *)
theory NarrativeFacts
  imports Narrative
begin

text \<open>
  What the checks of a draft establish: a draft is the concatenation of its pieces, a checked
  draft renders piece by piece, and every figure a report offers has a text.
\<close>

section \<open>A draft is its pieces\<close>

fun source :: "piece \<Rightarrow> gostr" where
  "source (Plain r) = [r]"
| "source (Token b) = [123] @ b @ [125]"

fun shown :: "vocabulary \<Rightarrow> piece \<Rightarrow> gostr" where
  \<comment> \<open>a piece as the reader sees it\<close>
  "shown vocab (Plain r) = [r]"
| "shown vocab (Token b) = the (format (the (map_of vocab b)))"

lemma pieces_source: "concat (map source (pieces draft)) = draft"
proof (induction draft rule: pieces.induct)
  case (2 r s)
  show ?case
  proof (cases "if r = 123 then take_token s else None")
    case None
    then show ?thesis using 2 by (simp split: if_splits)
  next
    case (Some p)
    then obtain b rest where p: "r = 123" "take_token s = Some (b, rest)" by (cases p) (auto split: if_splits)
    then show ?thesis using 2(2) [OF p] take_token_Some [OF p(2)] by simp
  qed
qed simp

lemma tokens_no_brace: "Token b \<in> set (pieces draft) \<Longrightarrow> list_all (\<lambda>r. \<not> brace r) b"
  by (induction draft rule: pieces.induct)
    (auto simp: list_all_iff dest!: take_token_Some split: if_splits option.splits)

lemma plain_of_set: "set (plain_of ps) = {r. Plain r \<in> set ps}"
  by (induction ps rule: plain_of.induct) auto

lemma tokens_of_set: "set (tokens_of ps) = {b. Token b \<in> set ps}"
  by (induction ps rule: tokens_of.induct) auto

lemma source_subset: "p \<in> set (pieces draft) \<Longrightarrow> set (source p) \<subseteq> set draft"
proof -
  assume "p \<in> set (pieces draft)"
  then have "set (source p) \<subseteq> set (concat (map source (pieces draft)))" by auto
  then show ?thesis unfolding pieces_source .
qed

lemma plain_subset: "r \<in> set (plain_of (pieces draft)) \<Longrightarrow> r \<in> set draft"
  using source_subset [of "Plain r" draft] by (simp add: plain_of_set)

section \<open>Rendering goes piece by piece\<close>

lemma index_rune_append: "c \<notin> set b \<Longrightarrow> index_rune c (b @ c # s) = Some (length b)"
  by (induction b) auto

lemma render_end: "Render_from [] vocab out = Inr out"
  by (subst Render_from.simps) simp

lemma render_plain:
  assumes "r \<noteq> 123"
  shows "Render_from (r # s) vocab out = Render_from s vocab (out @ [r])"
  using Render_from.simps [of "r # s" vocab out] Render_from.simps [of s vocab "out @ [r]"] assms
  by (cases "index_rune 123 s") (simp_all add: Let_def cong: option.case_cong)

lemma render_token:
  assumes "list_all (\<lambda>r. \<not> brace r) b" "map_of vocab b = Some v" "format v = Some t"
  shows "Render_from ([123] @ b @ [125] @ s) vocab out = Render_from s vocab (out @ t)"
proof -
  have "125 \<notin> set b" using assms(1) by (auto simp: list_all_iff brace_def)
  then show ?thesis
    using index_rune_append [of 125 b s]
    by (subst Render_from.simps) (simp add: assms(2,3))
qed

definition readable :: "vocabulary \<Rightarrow> piece \<Rightarrow> bool" where
  "readable vocab p \<longleftrightarrow> (case p of
     Plain r \<Rightarrow> \<not> brace r
   | Token b \<Rightarrow> list_all (\<lambda>r. \<not> brace r) b \<and> Option.bind (map_of vocab b) format \<noteq> None)"

lemma render_pieces:
  "list_all (readable vocab) ps \<Longrightarrow>
   Render_from (concat (map source ps)) vocab out = Inr (out @ concat (map (shown vocab) ps))"
proof (induction ps arbitrary: out)
  case (Cons p ps)
  show ?case
  proof (cases p)
    case (Plain r)
    then show ?thesis using Cons by (simp add: readable_def brace_def render_plain)
  next
    case (Token b)
    then obtain v t where "list_all (\<lambda>r. \<not> brace r) b" "map_of vocab b = Some v" "format v = Some t"
      using Cons.prems by (auto simp: readable_def split: bind_splits)
    then show ?thesis
      using Token Cons render_token [of b vocab v t "concat (map source ps)" out] by simp
  qed
qed (simp add: render_end)

section \<open>Windows of a text\<close>

lemma rune_len_le: "rune_len r \<le> 4" by (simp add: rune_len_def)

lemma byte_len_append [simp]: "byte_len (s @ t) = byte_len s + byte_len t" by (induction s) simp_all

lemma byte_len_drop: "byte_len (drop n s) = byte_len s - byte_len (take n s)"
  by (metis append_take_drop_id byte_len_append add_diff_cancel_left')

lemma rune_floor_bytes: "byte_len (take (rune_floor s b) s) \<le> b \<and> (byte_len s \<le> b \<or> b < byte_len (take (rune_floor s b) s) + 4)"
proof (induction s arbitrary: b)
  case (Cons r s)
  show ?case
  proof (cases "rune_len r \<le> b")
    case True
    then show ?thesis using Cons.IH [of "b - rune_len r"] by auto
  next
    case False
    then show ?thesis using rune_len_le [of r] by simp
  qed
qed simp

lemma rune_floor_le: "b \<le> byte_len (take k s) \<Longrightarrow> rune_floor s b \<le> k"
proof (induction s arbitrary: b k)
  case (Cons r s)
  show ?case
  proof (cases k)
    case 0
    then have "b = 0" using Cons.prems by simp
    then show ?thesis using rune_len_pos [of r] by (simp add: 0)
  next
    case (Suc j)
    then show ?thesis using Cons.IH [of "b - rune_len r" j] Cons.prems by auto
  qed
qed simp

lemma rune_ceil_0 [simp]: "rune_ceil s 0 = 0" by (cases s) simp_all

lemma rune_ceil_bytes: "byte_len (take (rune_ceil s b) s) \<le> b + 3"
proof (induction s arbitrary: b)
  case (Cons r s)
  then show ?case using Cons.IH [of "b - rune_len r"] rune_len_le [of r] by (cases "rune_len r \<le> b") auto
qed simp

lemma rune_ceil_gt: "byte_len (take k s) < b \<Longrightarrow> k < length s \<Longrightarrow> k < rune_ceil s b"
proof (induction s arbitrary: b k)
  case (Cons r s)
  then show ?case by (cases k) auto
qed simp

lemma around_window:
  assumes "k < length s"
  obtains before after where "s = before @ around s k @ after" "length before \<le> k" "k < length before + length (around s k)"
    "byte_len (around s k) \<le> 46"
proof -
  define i where "i = byte_len (take k s)"
  define start where "start = rune_floor s (i - 20)"
  define stop where "stop = rune_ceil s (min (byte_len s) (i + 20))"
  have a: "around s k = drop start (take stop s)" by (simp add: around_def Let_def i_def start_def stop_def)
  have len: "byte_len s = i + byte_len (drop k s)" unfolding i_def by (metis append_take_drop_id byte_len_append)
  then have lt: "i < byte_len s" using assms by (cases "drop k s") auto
  have lo: "start \<le> k" unfolding start_def by (rule rune_floor_le) (simp add: i_def)
  have hi: "k < stop" unfolding stop_def by (rule rune_ceil_gt [OF _ assms]) (use lt in \<open>simp add: i_def\<close>)
  have "s = take start s @ drop start s" by simp
  also have "drop start s = drop start (take stop s) @ drop stop s"
    using lo hi by (metis append_take_drop_id drop_append drop_take nat_less_le le_trans add_diff_inverse_nat
        drop_drop linorder_not_less add.commute)
  finally have split: "s = take start s @ around s k @ drop stop s" by (simp add: a)
  have "take start (take stop s) = take start s" using lo hi by (simp add: min_def)
  then have "byte_len (around s k) = byte_len (take stop s) - byte_len (take start s)"
    unfolding a byte_len_drop by simp
  moreover have "byte_len (take stop s) \<le> i + 23"
    using rune_ceil_bytes [of s "min (byte_len s) (i + 20)"] by (simp add: stop_def)
  moreover have "i \<le> byte_len (take start s) + 23"
    using rune_floor_bytes [of s "i - 20"] lt by (auto simp: start_def)
  ultimately have bound: "byte_len (around s k) \<le> 46" by linarith
  have "length (take start s) = start" using lo assms by simp
  moreover have "length (around s k) = min (length s) stop - start" by (simp add: a)
  ultimately show ?thesis using that [OF split] lo hi assms bound by simp
qed

lemma truncate_text_cases:
  obtains "truncate_text s = s" "byte_len s \<le> 40"
  | pre post where "s = pre @ post" "truncate_text s = pre @ lit ''...''" "byte_len pre \<le> 40"
proof (cases "byte_len s \<le> 40")
  case True then show ?thesis using that(1) by (simp add: truncate_text_def)
next
  case False
  then show ?thesis using that(2) [of "take (rune_floor s 40) s" "drop (rune_floor s 40) s"] rune_floor_bytes [of s 40]
    by (simp add: truncate_text_def)
qed

section \<open>A checked draft\<close>

definition formats :: "vocabulary \<Rightarrow> bool" where
  \<comment> \<open>every figure has a text\<close>
  "formats vocab \<longleftrightarrow> list_all (\<lambda>(b, v). format v \<noteq> None) vocab"

lemma formats_map_of: "formats vocab \<Longrightarrow> map_of vocab b \<noteq> None \<Longrightarrow> Option.bind (map_of vocab b) format \<noteq> None"
  by (cases "map_of vocab b") (auto simp: formats_def list_all_iff dest: map_of_SomeD)

lemma first_index_None: "first_index hit s = None \<longleftrightarrow> (\<forall>k<length s. \<not> hit k)"
  by (auto simp: first_index_def find_None_iff)

lemma first_index_Some: "first_index hit s = Some k \<Longrightarrow> k < length s \<and> hit k \<and> (\<forall>j<k. \<not> hit j)"
  by (fastforce simp: first_index_def find_Some_iff)

lemma first_rune_None: "first_index (\<lambda>k. hit (s ! k)) s = None \<longleftrightarrow> \<not> list_ex hit s"
  by (simp add: first_index_None list_ex_length)

lemma validate_None:
  "Validate draft vocab = None \<longleftrightarrow>
     trim_space draft \<noteq> [] \<and> byte_len draft \<le> MaxSectionChars \<and> \<not> list_ex ascii_digit draft
     \<and> \<not> list_ex (\<lambda>r. r = 37 \<or> r = 36) draft \<and> \<not> has_banned_word draft \<and> count_list draft 123 = count_list draft 125
     \<and> list_all (\<lambda>t. map_of vocab t \<noteq> None) (tokens_of (pieces draft)) \<and> \<not> list_ex brace (plain_of (pieces draft))"
proof -
  have banned: "first_index (banned_at draft) draft = None \<longleftrightarrow> \<not> has_banned_word draft"
    by (auto simp: first_index_None has_banned_word_def list_ex_iff)
  have tokens: "find (\<lambda>t. map_of vocab t = None) (tokens_of (pieces draft)) = None
      \<longleftrightarrow> list_all (\<lambda>t. map_of vocab t \<noteq> None) (tokens_of (pieces draft))"
    by (auto simp: find_None_iff list_all_iff)
  show ?thesis
    unfolding first_rune_None [of ascii_digit draft, symmetric] first_rune_None [of "\<lambda>r. r = 37 \<or> r = 36" draft, symmetric]
      banned [symmetric] tokens [symmetric]
    by (simp add: Validate_def rejected_def split: option.split)
qed

definition offending :: "rune \<Rightarrow> bool" where "offending r \<longleftrightarrow> ascii_digit r \<or> r = 37 \<or> r = 36"

definition quotes :: "vocabulary \<Rightarrow> gostr \<Rightarrow> rejection \<Rightarrow> bool" where
  \<comment> \<open>what a rejection shows of the draft it rejects\<close>
  "quotes vocab draft e \<longleftrightarrow> (let fragment = rj_fragment e in case rj_check e of
     CheckEmpty \<Rightarrow> fragment = draft
   | CheckDigit \<Rightarrow> (\<exists>before after. draft = before @ fragment @ after \<and> list_ex offending fragment \<and> byte_len fragment \<le> 46)
   | CheckNumberWord \<Rightarrow> (\<exists>before after k. draft = before @ fragment @ after \<and> byte_len fragment \<le> 46
       \<and> length before \<le> k \<and> k < length before + length fragment \<and> banned_at draft k \<and> (\<forall>j<k. \<not> banned_at draft j))
   | CheckUnknownToken \<Rightarrow> fragment \<in> set (tokens_of (pieces draft)) \<and> map_of vocab fragment = None
   | _ \<Rightarrow> fragment = draft \<and> byte_len draft \<le> 40
       \<or> (\<exists>before after. draft = before @ after \<and> fragment = before @ lit ''...'' \<and> byte_len before \<le> 40))"

lemma quotes_truncated: "c = CheckLength \<or> c = CheckMalformed \<Longrightarrow>
    quotes vocab draft \<lparr>rj_check = c, rj_detail = d, rj_fragment = truncate_text draft, rj_section = n\<rparr>"
  by (cases draft rule: truncate_text_cases) (fastforce simp: quotes_def)+

lemma quotes_around:
  assumes "k < length draft" "offending (draft ! k)"
  shows "quotes vocab draft \<lparr>rj_check = CheckDigit, rj_detail = d, rj_fragment = around draft k, rj_section = n\<rparr>"
proof -
  obtain before after where w: "draft = before @ around draft k @ after" "length before \<le> k"
      "k < length before + length (around draft k)" "byte_len (around draft k) \<le> 46"
    using around_window [OF assms(1)] .
  have i: "k - length before < length (around draft k)" using w(2,3) by linarith
  have "(before @ around draft k @ after) ! k = around draft k ! (k - length before)"
    using w(2) i by (simp add: nth_append)
  then have "draft ! k = around draft k ! (k - length before)" using w(1) by simp
  then have "list_ex offending (around draft k)"
    using assms(2) i by (auto simp: list_ex_length)
  then show ?thesis using w(1,4) by (auto simp: quotes_def)
qed

lemma quotes_word:
  assumes "first_index (banned_at draft) draft = Some k"
  shows "quotes vocab draft \<lparr>rj_check = CheckNumberWord, rj_detail = d, rj_fragment = around draft k, rj_section = n\<rparr>"
proof -
  have k: "k < length draft" "banned_at draft k" "\<forall>j<k. \<not> banned_at draft j" using first_index_Some [OF assms] by auto
  obtain before after where w: "draft = before @ around draft k @ after" "length before \<le> k"
      "k < length before + length (around draft k)" "byte_len (around draft k) \<le> 46"
    using around_window [OF k(1)] .
  then show ?thesis using k unfolding quotes_def Let_def rejection.simps check.simps by blast
qed

lemma validate_quotes:
  assumes "Validate draft vocab = Some e"
  shows "quotes vocab draft e \<and> quotes vocab draft (e\<lparr>rj_section := name\<rparr>)"
proof -
  have "quotes vocab draft (e\<lparr>rj_section := n\<rparr>)" for n
  proof -
    consider d where "e = \<lparr>rj_check = CheckEmpty, rj_detail = d, rj_fragment = draft, rj_section = []\<rparr>"
      | c d where "c = CheckLength \<or> c = CheckMalformed" "e = \<lparr>rj_check = c, rj_detail = d, rj_fragment = truncate_text draft, rj_section = []\<rparr>"
      | k d where "k < length draft" "offending (draft ! k)"
          "e = \<lparr>rj_check = CheckDigit, rj_detail = d, rj_fragment = around draft k, rj_section = []\<rparr>"
      | k d where "first_index (banned_at draft) draft = Some k"
          "e = \<lparr>rj_check = CheckNumberWord, rj_detail = d, rj_fragment = around draft k, rj_section = []\<rparr>"
      | t d where "find (\<lambda>t. map_of vocab t = None) (tokens_of (pieces draft)) = Some t"
          "e = \<lparr>rj_check = CheckUnknownToken, rj_detail = d, rj_fragment = t, rj_section = []\<rparr>"
      using assms
      by (fastforce simp: Validate_def rejected_def offending_def split: if_splits option.splits dest: first_index_Some)
    then show ?thesis
    proof cases
      case 1 then show ?thesis by (simp add: quotes_def)
    next
      case 2 then show ?thesis by (simp add: quotes_truncated)
    next
      case 3 then show ?thesis by (simp add: quotes_around)
    next
      case 4 then show ?thesis by (simp add: quotes_word)
    next
      case 5 then show ?thesis by (auto simp: quotes_def find_Some_iff in_set_conv_nth)
    qed
  qed
  from this [of name] this [of "rj_section e"] show ?thesis by simp
qed

lemma validated_readable:
  assumes "Validate draft vocab = None" "formats vocab"
  shows "list_all (readable vocab) (pieces draft)"
  unfolding list_all_iff
proof
  fix p assume p: "p \<in> set (pieces draft)"
  show "readable vocab p"
  proof (cases p)
    case (Plain r)
    then show ?thesis using p assms(1)
      by (simp add: validate_None readable_def list_ex_iff plain_of_set)
  next
    case (Token b)
    then have "map_of vocab b \<noteq> None" using p assms(1)
      by (simp add: validate_None list_all_iff tokens_of_set)
    then show ?thesis using Token p tokens_no_brace formats_map_of [OF assms(2)]
      by (simp add: readable_def)
  qed
qed

lemma validated_render:
  assumes "Validate draft vocab = None" "formats vocab"
  shows "Render draft vocab = Inr (concat (map (shown vocab) (pieces draft)))"
  using render_pieces [OF validated_readable [OF assms], of "[]"] by (simp add: Render_def pieces_source)

definition plain_text :: "rune \<Rightarrow> bool" where
  \<comment> \<open>no ASCII digit, no percent or dollar sign, no brace\<close>
  "plain_text r \<longleftrightarrow> \<not> ascii_digit r \<and> r \<noteq> 37 \<and> r \<noteq> 36 \<and> \<not> brace r"

lemma validated_plain:
  assumes "Validate draft vocab = None"
  shows "list_all plain_text (plain_of (pieces draft))"
  using assms by (auto simp: validate_None list_all_iff list_ex_iff plain_text_def dest: plain_subset)

lemma rendered_shown:
  assumes "Validate draft vocab = None" "formats vocab" "Render draft vocab = Inr s"
  shows "s = concat (map (shown vocab) (pieces draft))"
  using validated_render [OF assms(1,2)] assms(3) by simp

section \<open>Sections\<close>

lemma render_sections_ok:
  assumes "list_all (\<lambda>(n, d). Validate d vocab = None) secs" "formats vocab"
  shows "renderSections secs vocab = Inr (map (\<lambda>(n, d). (n, concat (map (shown vocab) (pieces d)))) secs)"
  using assms(1)
proof (induction secs)
  case (Cons s secs)
  then obtain n d where "s = (n, d)" "Validate d vocab = None" by (cases s) auto
  then show ?case using Cons validated_render [OF _ assms(2)] by simp
qed simp

lemma first_rejection_None:
  "first_rejection secs vocab names = None \<Longrightarrow> n \<in> set names \<Longrightarrow>
   Validate (case map_of secs n of None \<Rightarrow> [] | Some d \<Rightarrow> d) vocab = None"
  by (induction names) (auto split: option.splits)

lemma first_rejection_Some:
  assumes "first_rejection secs vocab names = Some e" "sorted names"
  shows "\<exists>d. d = (case map_of secs (rj_section e) of None \<Rightarrow> [] | Some d \<Rightarrow> d) \<and> rj_section e \<in> set names \<and> quotes vocab d e
    \<and> (\<forall>n\<in>set names. n < rj_section e \<longrightarrow> Validate (case map_of secs n of None \<Rightarrow> [] | Some d \<Rightarrow> d) vocab = None)"
  using assms
proof (induction names)
  case (Cons name names)
  show ?case
  proof (cases "Validate (case map_of secs name of None \<Rightarrow> [] | Some d \<Rightarrow> d) vocab")
    case None
    then show ?thesis using Cons by auto
  next
    case (Some r)
    then have "e = r\<lparr>rj_section := name\<rparr>" using Cons.prems(1) by simp
    moreover have "\<not> n < name" if "n \<in> set names" for n using Cons.prems(2) that by auto
    ultimately show ?thesis using validate_quotes [OF Some] by auto
  qed
qed simp

lemma sections_validated:
  assumes "ValidateSections secs vocab = None" "distinct (map fst secs)"
  shows "list_all (\<lambda>(n, d). Validate d vocab = None) secs"
  unfolding list_all_iff
proof clarify
  fix n d assume "(n, d) \<in> set secs"
  then have "map_of secs n = Some d" "n \<in> set (sort (map fst secs))"
    using assms(2) by (auto simp: rev_image_eqI)
  then show "Validate d vocab = None"
    using assms(1) first_rejection_None [of secs vocab "sort (map fst secs)" n]
    by (simp add: ValidateSections_def Let_def split: option.splits)
qed

lemma draft_sections:
  assumes "parseDraft parse_json raw = Inr secs"
  shows "distinct (map fst secs) \<and> list_all (\<lambda>n. n \<in> set sectionNames) (map fst secs) \<and> secs \<noteq> []"
proof -
  obtain out where s: "secs = List.map_filter (\<lambda>name. map_option (Pair name) (map_of out name)) sectionNames" "secs \<noteq> []"
    using assms by (auto simp: parseDraft_def Let_def split: option.splits if_splits)
  have *: "map fst (List.map_filter (\<lambda>name. map_option (Pair name) (map_of out name)) ns)
      = filter (\<lambda>n. map_of out n \<noteq> None) ns" for ns
    by (induction ns) (auto simp: List.map_filter_simps split: option.splits)
  show ?thesis unfolding s(1) * using s(2) unfolding s(1) by (simp add: list_all_iff sectionNames_def lit_def)
qed

section \<open>Every figure of a report has a text\<close>

definition date_ok :: "gostr \<Rightarrow> bool" where
  "date_ok s \<longleftrightarrow> s = [] \<or> parse_date s \<noteq> None"

lemma formats_num: "k \<noteq> KindDate \<Longrightarrow> format (num k n) \<noteq> None"
  by (cases k) (simp_all add: num_def format_def)

lemma formats_symbol: "format (text_figure KindSymbol s) \<noteq> None"
  by (simp add: text_figure_def format_def)

lemma formats_date: "parse_date s \<noteq> None \<Longrightarrow> format (text_figure KindDate s) \<noteq> None"
  by (auto simp: text_figure_def format_def split: prod.splits)

lemma formats_update: "format v \<noteq> None \<Longrightarrow> formats out \<Longrightarrow> formats (AList.update b v out)"
  by (induction out) (auto simp: formats_def)

lemma formats_put_all:
  "list_all (\<lambda>(b, v). format v \<noteq> None) kvs \<Longrightarrow> formats out \<Longrightarrow> formats (put_all kvs out)"
  by (induction kvs arbitrary: out) (auto simp: put_all_def put_def formats_update)

lemma placeholders_format:
  assumes "date_ok (pi_as_of r)" "date_ok (pi_start r)"
  shows "formats (Placeholders r)"
proof -
  have w: "list_all (\<lambda>(b, v). format v \<noteq> None) (window_tokens r)"
    using assms formats_date [of "pi_as_of r"] formats_date [of "pi_start r"]
    by (auto simp add: window_tokens_def date_ok_def formats_num simp del: not_None_eq)
  have p: "list_all (\<lambda>(b, v). format v \<noteq> None) (concat (map position_tokens ps))" for ps
    by (induction ps) (simp_all add: position_tokens_def formats_num del: not_None_eq)
  have b: "list_all (\<lambda>(b, v). format v \<noteq> None) (concat (map benchmark_tokens bs))" for bs
    by (induction bs) (simp_all add: benchmark_tokens_def formats_num del: not_None_eq)
  have f: "list_all (\<lambda>(b, v). format v \<noteq> None) (concat (map finding_tokens fs))" for fs
    by (induction fs) (simp_all add: finding_tokens_def formats_num del: not_None_eq)
  have "list_all (\<lambda>(b, v). format v \<noteq> None) (risk_tokens s)" for s
    using p by (simp add: risk_tokens_def formats_num formats_symbol del: not_None_eq split: option.splits)
  moreover have "list_all (\<lambda>(b, v). format v \<noteq> None) (benchmarking_tokens s)" for s
    using b by (simp add: benchmarking_tokens_def formats_num del: not_None_eq)
  moreover have "list_all (\<lambda>(b, v). format v \<noteq> None) (behavior_tokens s)" for s
    using f by (simp add: behavior_tokens_def formats_num del: not_None_eq)
  ultimately show ?thesis
    unfolding Placeholders_def using w by (intro formats_put_all) (simp_all add: formats_def)
qed

section \<open>Drafts at the edge of the checks\<close>

text \<open>A nested brace: the token that is read is the inner one.\<close>

lemma nested_brace_pieces: "pieces (lit ''{a{b}'') = [Plain 123, Plain 97, Token (lit ''b'')]"
  by (simp add: lit_def take_token_def brace_def)

text \<open>A numeral of another script is text for the checks.\<close>

lemma other_digits_pass: "Validate [1637] vocab = None"
proof -
  have "names_field w (take (length w) [1637]) \<Longrightarrow> w \<in> set bannedWords \<Longrightarrow> False" for w
    by (cases w rule: list.exhaust; cases "tl w")
      (auto simp: bannedWords_def names_field_def fold_rune_def lit_def)
  then have "\<not> has_banned_word [1637]"
    by (auto simp: has_banned_word_def banned_at_def list_ex_iff)
  then show ?thesis
    by (simp add: validate_None trim_space_def trim_right_def is_space_def rune_len_def MaxSectionChars_def ascii_digit_def brace_def)
qed

section \<open>The generation loop\<close>

lemma attempts_rendered:
  assumes "attempts env vocab p a is = Inr out" "formats vocab"
  shows "\<exists>secs. ValidateSections secs vocab = None \<and> distinct (map fst secs) \<and> secs \<noteq> []
    \<and> list_all (\<lambda>n. n \<in> set sectionNames) (map fst secs)
    \<and> list_all (\<lambda>(n, d). Validate d vocab = None) secs
    \<and> out = map (\<lambda>(n, d). (n, concat (map (shown vocab) (pieces d)))) secs"
  using assms(1)
proof (induction "is" arbitrary: a)
  case (Cons i "is")
  show ?case
  proof (cases "ge_draft env i a")
    case (Inr raw)
    show ?thesis
    proof (cases "parseDraft (ge_parse env) raw")
      case P: (Inr secs)
      show ?thesis
      proof (cases "ValidateSections secs vocab")
        case None
        note d = draft_sections [OF P]
        note v = sections_validated [OF None] d
        then have "out = map (\<lambda>(n, d). (n, concat (map (shown vocab) (pieces d)))) secs"
          using Cons.prems Inr P None by (simp add: render_sections_ok [OF _ assms(2)])
        then show ?thesis using d v None by blast
      qed (use Cons Inr P in simp)
    qed (use Cons Inr in simp)
  qed (use Cons in simp)
qed simp

lemma attempts_never_bug:
  assumes "formats vocab"
  shows "attempts env vocab p a is \<noteq> Inl ErrValidatedDraft"
proof (induction "is" arbitrary: a)
  case (Cons i "is")
  show ?case
  proof (cases "ge_draft env i a")
    case (Inr raw)
    show ?thesis
    proof (cases "parseDraft (ge_parse env) raw")
      case P: (Inr secs)
      show ?thesis
      proof (cases "ValidateSections secs vocab")
        case None
        then show ?thesis
          using Inr P render_sections_ok [OF _ assms] sections_validated [OF None] draft_sections [OF P] by simp
      qed (use Cons Inr P in simp)
    qed (use Cons Inr in simp)
  qed simp
qed simp

end
