(* ===== verification/InsightsHandler.thy ===== *)
theory InsightsHandler
  imports TradingService PkgAuth Narrative
begin

text \<open>
  services/ai-insights, internal/cache and internal/handler: the report cache, the narrative
  cache and the generation counter over Redis, the two endpoints and the routing table.

  Redis is a map from keys to a text and the instant it expires, and one from keys to counters;
  each call may fail, which leaves the maps alone. The encoding of a report and of a narrative
  as JSON, \<open>uuid.Parse\<close> and \<open>uuid.String\<close> are parameters.
\<close>

section \<open>Redis\<close>

type_synonym redis = "gostr \<rightharpoonup> gostr \<times> instant"

definition redis_get :: "bool \<Rightarrow> instant \<Rightarrow> gostr \<Rightarrow> redis \<Rightarrow> gostr cache_answer" where
  "redis_get fails now key rd =
     (if fails then CacheFailed
      else case rd key of None \<Rightarrow> CacheMiss | Some (v, e) \<Rightarrow> if now < e then CacheHit v else CacheMiss)"

definition redis_set :: "bool \<Rightarrow> instant \<Rightarrow> gostr \<Rightarrow> gostr \<Rightarrow> int \<Rightarrow> redis \<Rightarrow> bool \<times> redis" where
  "redis_set fails now key v ttl rd = (if fails then (False, rd) else (True, rd(key \<mapsto> (v, now + ttl))))"

record cache_env =
  ce_get_fails :: bool
  ce_set_fails :: bool
  ce_now :: instant
  ce_uuid :: "gostr \<Rightarrow> uuid option"
  ce_uuid_text :: "uuid \<Rightarrow> gostr"
  ce_marshal :: "portfolio_insights \<Rightarrow> gostr option"
  ce_unmarshal :: "gostr \<Rightarrow> portfolio_insights option"

definition report_key :: "cache_env \<Rightarrow> gostr \<Rightarrow> gostr option" where
  "report_key env user = map_option (Insights (ce_uuid_text env)) (ce_uuid env user)"

definition RedisInsightsCache_Get :: "cache_env \<Rightarrow> gostr \<Rightarrow> redis \<Rightarrow> portfolio_insights cache_answer" where
  "RedisInsightsCache_Get env user rd =
     (case report_key env user of
        None \<Rightarrow> CacheFailed
      | Some key \<Rightarrow>
          (case redis_get (ce_get_fails env) (ce_now env) key rd of
             CacheMiss \<Rightarrow> CacheMiss
           | CacheFailed \<Rightarrow> CacheFailed
           | CacheHit data \<Rightarrow> (case ce_unmarshal env data of None \<Rightarrow> CacheFailed | Some r \<Rightarrow> CacheHit r)))"

definition RedisInsightsCache_Set :: "cache_env \<Rightarrow> gostr \<Rightarrow> portfolio_insights \<Rightarrow> int \<Rightarrow> redis \<Rightarrow> bool \<times> redis" where
  "RedisInsightsCache_Set env user r ttl rd =
     (case report_key env user of
        None \<Rightarrow> (False, rd)
      | Some key \<Rightarrow>
          (case ce_marshal env r of
             None \<Rightarrow> (False, rd)
           | Some data \<Rightarrow> redis_set (ce_set_fails env) (ce_now env) key data ttl rd))"

definition NewRedisInsightsCache :: "cache_env \<Rightarrow> redis insights_cache" where
  "NewRedisInsightsCache env = \<lparr>ic_get = RedisInsightsCache_Get env, ic_set = RedisInsightsCache_Set env\<rparr>"

definition narrativeKey :: "gostr \<Rightarrow> gostr \<Rightarrow> gostr" where
  "narrativeKey user reportHash = lit ''narrative:'' @ user @ lit '':'' @ reportHash"

definition RedisNarrativeCache_Get :: "(gostr \<Rightarrow> sections option) \<Rightarrow> bool \<Rightarrow> instant \<Rightarrow> gostr \<Rightarrow> gostr \<Rightarrow> redis \<Rightarrow> sections cache_answer" where
  "RedisNarrativeCache_Get unmarshal fails now user reportHash rd =
     (case redis_get fails now (narrativeKey user reportHash) rd of
        CacheMiss \<Rightarrow> CacheMiss
      | CacheFailed \<Rightarrow> CacheFailed
      | CacheHit data \<Rightarrow> (case unmarshal data of None \<Rightarrow> CacheFailed | Some s \<Rightarrow> CacheHit s))"

definition RedisNarrativeCache_Set :: "(sections \<Rightarrow> gostr option) \<Rightarrow> bool \<Rightarrow> instant \<Rightarrow> gostr \<Rightarrow> gostr \<Rightarrow> sections \<Rightarrow> int \<Rightarrow> redis \<Rightarrow> bool \<times> redis" where
  "RedisNarrativeCache_Set marshal fails now user reportHash secs ttl rd =
     (case marshal secs of
        None \<Rightarrow> (False, rd)
      | Some data \<Rightarrow> redis_set fails now (narrativeKey user reportHash) data ttl rd)"

section \<open>The generation counter\<close>

type_synonym counters = "gostr \<Rightarrow> int"

definition counterKey :: "gostr \<Rightarrow> instant \<Rightarrow> gostr" where
  "counterKey user now = lit ''narrative:count:'' @ user @ lit '':'' @ format_date now"

definition Counter_Allow :: "bool \<Rightarrow> bool \<Rightarrow> instant \<Rightarrow> gostr \<Rightarrow> int \<Rightarrow> counters \<Rightarrow> bool option \<times> counters" where
  \<comment> \<open>\<open>None\<close> is an error; the count is kept even when setting its expiry fails\<close>
  "Counter_Allow incr_fails expire_fails now user limit counts =
     (if incr_fails then (None, counts)
      else let key = counterKey user now; count = counts key + 1; counts' = counts(key := count) in
        (if expire_fails then None else Some (count \<le> limit), counts'))"

section \<open>Errors\<close>

definition symbolUnavailableMessage :: "gostr \<Rightarrow> gostr" where
  "symbolUnavailableMessage symb =
     (if symb \<noteq> [] then lit ''no historical data is available for '' @ symb
      else lit ''no historical data is available for one of the portfolio'' @ [39] @ lit ''s symbols'')"

definition writeServiceError :: "insights_err \<Rightarrow> 'b reply" where
  "writeServiceError e = (case e of
     ErrSymbolUnavailable symb \<Rightarrow> ErrorReply 404 ''symbol_unavailable'' (symbolUnavailableMessage symb)
   | ErrUnauthorized \<Rightarrow> ErrorReply 401 ''invalid_token'' (lit ''invalid or expired token'')
   | ErrUpstreamUnavailable \<Rightarrow> ErrorReply 502 ''upstream_unavailable''
       (lit ''portfolio or market data is unavailable; no insights were computed'')
   | _ \<Rightarrow> ErrorReply 500 ''internal_error'' (lit ''something went wrong''))"

section \<open>The endpoints\<close>

datatype narrative_reason = NotConfigured | NothingToDescribe | Unusable | Upstream | OverCap | NoCounter | RateLimited | TimedOut | Refused

record narrative_response =
  nr_as_of :: gostr
  nr_hash :: gostr
  nr_ok :: bool
  nr_narrative :: sections
  nr_reason :: "narrative_reason option"
  nr_generated :: "instant option"

record 'w insights_api =
  ia_uuid :: "gostr \<Rightarrow> uuid option"
  ia_uuid_text :: "uuid \<Rightarrow> gostr"
  ia_cache :: "'w insights_cache"
  ia_upstream :: insights_upstream
  ia_hash :: "portfolio_insights \<Rightarrow> gostr"
  ia_prompt :: "portfolio_insights \<Rightarrow> vocabulary \<Rightarrow> prompt"
  ia_generator :: "gen_env option"
  ia_narratives :: "((gostr \<Rightarrow> gostr \<Rightarrow> 'w \<Rightarrow> sections cache_answer) \<times> (gostr \<Rightarrow> gostr \<Rightarrow> sections \<Rightarrow> int \<Rightarrow> 'w \<Rightarrow> bool \<times> 'w)) option"
  ia_counter :: "(gostr \<Rightarrow> int \<Rightarrow> 'w \<Rightarrow> bool option \<times> 'w) option"

definition userID :: "(gostr \<Rightarrow> uuid option) \<Rightarrow> gostr option \<Rightarrow> uuid option" where
  "userID parse_uuid subject = (case subject of None \<Rightarrow> None | Some raw \<Rightarrow> parse_uuid raw)"

definition handle_PortfolioInsights :: "'w insights_api \<Rightarrow> instant \<Rightarrow> gostr option \<Rightarrow> gostr \<Rightarrow> 'w \<Rightarrow> (portfolio_insights \<times> gostr) reply \<times> 'w" where
  "handle_PortfolioInsights api now subject authorization w =
     (case userID (ia_uuid api) subject of
        None \<Rightarrow> (writeUnauthorized, w)
      | Some user \<Rightarrow>
          (case PortfolioInsights (ia_cache api) (ia_upstream api) now (ia_uuid_text api user) authorization w of
             (Inl e, w') \<Rightarrow> (writeServiceError e, w')
           | (Inr insights, w') \<Rightarrow> (Reply 200 (insights, ia_hash api insights), w')))"

definition narrativeTTL :: int where "narrativeTTL = 24 * 60 * 60 * second"

definition writeNarrative :: "portfolio_insights \<Rightarrow> gostr \<Rightarrow> sections \<Rightarrow> instant option \<Rightarrow> narrative_response reply" where
  "writeNarrative report hash secs generatedAt =
     Reply 200 \<lparr>nr_as_of = pi_as_of report, nr_hash = hash, nr_ok = True, nr_narrative = secs, nr_reason = None, nr_generated = generatedAt\<rparr>"

definition writeUnavailable :: "portfolio_insights \<Rightarrow> gostr \<Rightarrow> narrative_reason \<Rightarrow> narrative_response reply" where
  "writeUnavailable report hash reason =
     Reply 200 \<lparr>nr_as_of = pi_as_of report, nr_hash = hash, nr_ok = False, nr_narrative = [], nr_reason = Some reason, nr_generated = None\<rparr>"

definition narrativeReason :: "generate_err \<Rightarrow> narrative_reason" where
  "narrativeReason e = (case e of
     ErrNothingToPhrase \<Rightarrow> NothingToDescribe
   | ErrGenerationUnusable \<Rightarrow> Unusable
   | ErrDraft ErrRateLimited \<Rightarrow> RateLimited
   | ErrDraft ErrTimeout \<Rightarrow> TimedOut
   | ErrDraft ErrRefused \<Rightarrow> Refused
   | _ \<Rightarrow> Upstream)"

definition allowGeneration :: "'w insights_api \<Rightarrow> gostr \<Rightarrow> 'w \<Rightarrow> narrative_reason option \<times> 'w" where
  \<comment> \<open>\<open>None\<close> when the generation is allowed\<close>
  "allowGeneration api user w =
     (case ia_counter api of
        None \<Rightarrow> (Some NoCounter, w)
      | Some allow \<Rightarrow>
          (case allow user DailyGenerationCap w of
             (None, w') \<Rightarrow> (Some NoCounter, w')
           | (Some allowed, w') \<Rightarrow> (if allowed then None else Some OverCap, w')))"

definition cachedNarrative :: "'w insights_api \<Rightarrow> gostr \<Rightarrow> gostr \<Rightarrow> 'w \<Rightarrow> sections option" where
  "cachedNarrative api user hash w =
     (case ia_narratives api of
        None \<Rightarrow> None
      | Some (get, store) \<Rightarrow> (case get user hash w of CacheHit secs \<Rightarrow> Some secs | _ \<Rightarrow> None))"

definition handle_PortfolioNarrative :: "'w insights_api \<Rightarrow> instant \<Rightarrow> gostr option \<Rightarrow> gostr \<Rightarrow> 'w \<Rightarrow> narrative_response reply \<times> 'w" where
  "handle_PortfolioNarrative api now subject authorization w =
     (case userID (ia_uuid api) subject of
        None \<Rightarrow> (writeUnauthorized, w)
      | Some uid \<Rightarrow>
      let user = ia_uuid_text api uid in
      (case PortfolioInsights (ia_cache api) (ia_upstream api) now user authorization w of
         (Inl e, w) \<Rightarrow> (writeServiceError e, w)
       | (Inr report, w) \<Rightarrow>
      let vocab = Placeholders report; hash = ia_hash api report in
      (case cachedNarrative api user hash w of
         Some secs \<Rightarrow> (writeNarrative report hash secs None, w)
       | None \<Rightarrow>
      if vocab = [] then (writeUnavailable report hash NothingToDescribe, w)
      else
      (case ia_generator api of
         None \<Rightarrow> (writeUnavailable report hash NotConfigured, w)
       | Some env \<Rightarrow>
      (case allowGeneration api user w of
         (Some reason, w) \<Rightarrow> (writeUnavailable report hash reason, w)
       | (None, w) \<Rightarrow>
      (case Generate env (ia_prompt api report vocab) vocab of
         Inl e \<Rightarrow> (writeUnavailable report hash (narrativeReason e), w)
       | Inr secs \<Rightarrow>
          (writeNarrative report hash secs (Some now),
           (case ia_narratives api of None \<Rightarrow> w | Some (get, store) \<Rightarrow> snd (store user hash secs narrativeTTL w)))))))))"

section \<open>The routing table\<close>

datatype insights_answer = InsightsHealthy | InsightsReply "(portfolio_insights \<times> gostr) reply" | NarrativeReply "narrative_response reply"
  | InsightsUnrouted

definition NewRouter :: "jwt_lib \<Rightarrow> secret \<Rightarrow> 'w insights_api \<Rightarrow> instant \<Rightarrow> gostr \<Rightarrow> gostr \<Rightarrow> gostr \<Rightarrow> 'w \<Rightarrow> insights_answer \<times> 'w" where
  "NewRouter lib secret api now meth path authorization w =
     (if meth \<noteq> lit ''GET'' then (InsightsUnrouted, w)
      else if path = lit ''/healthz'' then (InsightsHealthy, w)
      else if path = lit ''/insights/portfolio'' then
        RequireAuth lib now secret authorization (InsightsReply writeUnauthorized, w)
          (\<lambda>subject. case handle_PortfolioInsights api now (Some subject) authorization w of (a, w') \<Rightarrow> (InsightsReply a, w'))
      else if path = lit ''/insights/portfolio/narrative'' then
        RequireAuth lib now secret authorization (NarrativeReply writeUnauthorized, w)
          (\<lambda>subject. case handle_PortfolioNarrative api now (Some subject) authorization w of (a, w') \<Rightarrow> (NarrativeReply a, w'))
      else (InsightsUnrouted, w))"

section \<open>The process\<close>

text \<open>One Redis holds the entries and the counters; without \<open>REDIS_URL\<close> there is no cache of
  either kind and no counter.\<close>

record redis_env =
  re_reports :: cache_env
  re_get_fails :: bool
  re_set_fails :: bool
  re_incr_fails :: bool
  re_expire_fails :: bool
  re_now :: instant
  re_marshal :: "sections \<Rightarrow> gostr option"
  re_unmarshal :: "gostr \<Rightarrow> sections option"

definition on_entries :: "(redis \<Rightarrow> 'a \<times> redis) \<Rightarrow> redis \<times> counters \<Rightarrow> 'a \<times> redis \<times> counters" where
  "on_entries f w = (case f (fst w) of (a, rd) \<Rightarrow> (a, rd, snd w))"

definition insights_main :: "(gostr \<Rightarrow> uuid option) \<Rightarrow> (uuid \<Rightarrow> gostr) \<Rightarrow> redis_env option \<Rightarrow> insights_upstream
    \<Rightarrow> (portfolio_insights \<Rightarrow> gostr) \<Rightarrow> (portfolio_insights \<Rightarrow> vocabulary \<Rightarrow> prompt) \<Rightarrow> gen_env option \<Rightarrow> (redis \<times> counters) insights_api" where
  "insights_main parse_uuid uuid_text redis_url upstream hash prompt generator =
     \<lparr>ia_uuid = parse_uuid, ia_uuid_text = uuid_text,
      ia_cache = NewService (case redis_url of None \<Rightarrow> None
        | Some env \<Rightarrow> Some \<lparr>ic_get = (\<lambda>user w. ic_get (NewRedisInsightsCache (re_reports env)) user (fst w)),
            ic_set = (\<lambda>user r ttl. on_entries (ic_set (NewRedisInsightsCache (re_reports env)) user r ttl))\<rparr>),
      ia_upstream = upstream, ia_hash = hash, ia_prompt = prompt, ia_generator = generator,
      ia_narratives = (case redis_url of None \<Rightarrow> None
        | Some env \<Rightarrow> Some
            (\<lambda>user h w. RedisNarrativeCache_Get (re_unmarshal env) (re_get_fails env) (re_now env) user h (fst w),
             \<lambda>user h secs ttl. on_entries (RedisNarrativeCache_Set (re_marshal env) (re_set_fails env) (re_now env) user h secs ttl))),
      ia_counter = (case redis_url of None \<Rightarrow> None
        | Some env \<Rightarrow> Some (\<lambda>user limit w.
            case Counter_Allow (re_incr_fails env) (re_expire_fails env) (re_now env) user limit (snd w) of
              (a, counts) \<Rightarrow> (a, fst w, counts)))\<rparr>"

end
