(* ===== verification/NarrativeProps.thy ===== *)
theory NarrativeProps
  imports NarrativeFacts InsightsHandler TradingProps
begin

text \<open>
  What the ai-insights service promises around its reports: a narrative takes its
  western digits, units and listed number words from the report, paid generations are bounded per day, and a report asked for after a fill is
  computed and not read from the cache.
\<close>

section \<open>Narratives\<close>

text \<open>C17. A narrative is a checked draft filled in from the report: when the report's two dates are
  dates, every generated narrative is, section by section, a draft whose text outside its
  placeholders has no ASCII digit, no percent or dollar sign, no brace and no word of the list of
  number words, with every placeholder a figure of the report and replaced by that figure's
  formatted text; the sections are among the three that were asked for; and a draft that passed the
  checks never fails to render. No more is excluded: a numeral of another script and a number word
  that is not listed are prose for the checks and reach the page (\<open>other_digits_pass\<close>).\<close>

theorem narrative_fills_placeholders:
  assumes "date_ok (pi_as_of r)" "date_ok (pi_start r)"
  shows "case Generate env p (Placeholders r) of
     Inl e \<Rightarrow> e \<noteq> ErrValidatedDraft
   | Inr out \<Rightarrow> \<exists>secs. secs \<noteq> [] \<and> list_all (\<lambda>n. n \<in> set sectionNames) (map fst secs)
       \<and> list_all (\<lambda>(n, d). concat (map source (pieces d)) = d \<and> list_all plain_text (plain_of (pieces d))
            \<and> \<not> has_banned_word d \<and> list_all (\<lambda>b. map_of (Placeholders r) b \<noteq> None) (tokens_of (pieces d))) secs
       \<and> out = map (\<lambda>(n, d). (n, concat (map (shown (Placeholders r)) (pieces d)))) secs"
proof -
  note f = placeholders_format [OF assms]
  show ?thesis
  proof (cases "Generate env p (Placeholders r)")
    case (Inl e)
    then show ?thesis
      using attempts_never_bug [OF f, of env p p "[0, 1]"] by (auto simp: Generate_def split: if_splits)
  next
    case (Inr out)
    then have "attempts env (Placeholders r) p p [0, 1] = Inr out" by (simp add: Generate_def split: if_splits)
    from attempts_rendered [OF this f] obtain secs where s: "secs \<noteq> []"
      "list_all (\<lambda>n. n \<in> set sectionNames) (map fst secs)" "list_all (\<lambda>(n, d). Validate d (Placeholders r) = None) secs"
      "out = map (\<lambda>(n, d). (n, concat (map (shown (Placeholders r)) (pieces d)))) secs" by blast
    have "list_all (\<lambda>(n, d). concat (map source (pieces d)) = d \<and> list_all plain_text (plain_of (pieces d))
        \<and> \<not> has_banned_word d \<and> list_all (\<lambda>b. map_of (Placeholders r) b \<noteq> None) (tokens_of (pieces d))) secs"
      using s(3) validated_plain
      by (auto simp: list_all_iff pieces_source validate_None)
    then show ?thesis using s Inr by auto
  qed
qed

definition demo_draft :: gostr where
  "demo_draft = lit ''{as_of_date}.''"

definition demo_report :: portfolio_insights where
  "demo_report = (insufficientData 0 ''none'')\<lparr>pi_as_of := lit ''2026-03-09'', pi_behavior :=
     \<lparr>hs_state = StateOK, hs_reason = [], hs_trades = 0, hs_findings = [], hs_profile = None\<rparr>\<rparr>"

definition demo_writer :: gen_env where
  \<comment> \<open>a first draft with a figure of its own, a second one with a placeholder\<close>
  "demo_writer = \<lparr>ge_draft = (\<lambda>i p. Inr (if i = 0 then [65] else [66])),
     ge_parse = (\<lambda>s. Some (JObj [(lit ''risk'', JStr (if s = [65] then lit ''Up 4'' else demo_draft))])),
     ge_print = (\<lambda>_. True)\<rparr>"

lemma demo_draft_eq: "demo_draft = [123, 97, 115, 95, 111, 102, 95, 100, 97, 116, 101, 125, 46]"
  by (simp add: demo_draft_def lit_def)

lemma demo_no_banned_word: "\<not> has_banned_word demo_draft"
proof -
  have b: "list_all (\<lambda>w. \<not> names_field w (take (length w) [97, 115, 95, 111, 102, 95, 100, 97, 116, 101, 125, 46])) bannedWords"
    "list_all (\<lambda>w. \<not> names_field w (take (length w) [125, 46])) bannedWords"
    by (simp_all add: bannedWords_def lit_def names_field_def fold_rune_def)
  have "\<not> banned_at demo_draft i" if "i < 13" for i
  proof (cases "i = 1 \<or> i = 11")
    case True
    then show ?thesis using b by (auto simp: banned_at_def demo_draft_eq list_ex_iff list_all_iff)
  next
    case False
    have "list_all (\<lambda>i. i = 1 \<or> i = 11 \<or> \<not> word_boundary (take i demo_draft) (drop i demo_draft)) [0..<13]"
      by (simp add: demo_draft_eq word_boundary_def word_rune_def upt_rec)
    then have "\<not> word_boundary (take i demo_draft) (drop i demo_draft)" using that False by (auto simp: list_all_iff)
    then show ?thesis by (auto simp: banned_at_def list_ex_iff)
  qed
  then show ?thesis by (auto simp: has_banned_word_def list_ex_iff demo_draft_eq)
qed

lemma demo_pieces: "pieces demo_draft = [Token (lit ''as_of_date''), Plain 46]"
  by (simp add: demo_draft_eq lit_def take_token_def brace_def)

lemma demo_figure: "map_of (Placeholders demo_report) (lit ''as_of_date'') = Some (text_figure KindDate (lit ''2026-03-09''))"
  by (simp add: Placeholders_def demo_report_def insufficientData_def insufficient_risk_def
      insufficient_benchmarking_def window_tokens_def behavior_tokens_def put_all_def put_def lit_def)

lemma demo_shown: "format (text_figure KindDate (lit ''2026-03-09'')) = Some (lit ''3/9/2026'')"
  by code_simp

lemma demo_dates: "date_ok (pi_as_of demo_report)" "date_ok (pi_start demo_report)"
proof -
  have "parse_date (lit ''2026-03-09'') \<noteq> None" by code_simp
  then show "date_ok (pi_as_of demo_report)" "date_ok (pi_start demo_report)"
    by (simp_all add: demo_report_def date_ok_def insufficientData_def)
qed

lemma demo_valid: "Validate demo_draft (Placeholders demo_report) = None"
  unfolding validate_None demo_pieces
  using demo_no_banned_word
  by (simp add: demo_figure) (simp add: demo_draft_eq trim_space_def trim_right_def is_space_def rune_len_def
      MaxSectionChars_def ascii_digit_def brace_def)

definition demo_rejection :: rejection where
  "demo_rejection = \<lparr>rj_check = CheckDigit, rj_detail = lit ''a figure must be written as a placeholder, never as a numeral'',
     rj_fragment = lit ''Up 4'', rj_section = []\<rparr>"

lemma demo_rejected: "Validate (lit ''Up 4'') vocab = Some demo_rejection"
proof -
  have "first_index (\<lambda>k. ascii_digit (lit ''Up 4'' ! k)) (lit ''Up 4'') = Some 3" "around (lit ''Up 4'') 3 = lit ''Up 4''"
    "trim_space (lit ''Up 4'') \<noteq> []" "\<not> byte_len (lit ''Up 4'') > MaxSectionChars" by code_simp+
  then show ?thesis by (simp add: Validate_def rejected_def demo_rejection_def)
qed

lemma demo_unfence: "trim_space (unfence [r]) = [r]" if "\<not> is_space r" "r \<noteq> 96"
  using that by (simp add: unfence_def cut_prefix_Some Let_def trim_space_def trim_right_def has_prefix_def fence_def)

lemma demo_parse: "parseDraft (ge_parse demo_writer) [r] =
    Inr [(lit ''risk'', if r = 65 then lit ''Up 4'' else demo_draft)]" if "r = 65 \<or> r = 66"
proof -
  have "trim_space (unfence [r]) = [r]" using that by (intro demo_unfence) (auto simp: is_space_def)
  moreover have "List.map_filter (\<lambda>name. map_option (Pair name) (map_of [(lit ''risk'', d)] name)) sectionNames = [(lit ''risk'', d)]"
    for d :: gostr
    by (simp add: sectionNames_def List.map_filter_simps) (simp add: lit_def)
  moreover have "dec_sections (JObj [(lit ''risk'', JStr d)]) = Some [(lit ''risk'', d)]" for d
    by (simp add: dec_sections_def)
  ultimately show ?thesis by (simp add: parseDraft_def Let_def demo_writer_def)
qed

lemma demo_generated: "Generate demo_writer p (Placeholders demo_report) = Inr [(lit ''risk'', lit ''3/9/2026.'')]"
proof -
  have v: "Placeholders demo_report \<noteq> []" using demo_figure by auto
  have f: "formats (Placeholders demo_report)" by (rule placeholders_format [OF demo_dates])
  have 0: "ge_draft demo_writer 0 q = Inr [65]" "ge_draft demo_writer (Suc 0) q = Inr [66]" for q
    by (simp_all add: demo_writer_def)
  have s: "ValidateSections [(lit ''risk'', lit ''Up 4'')] (Placeholders demo_report) =
      Some (demo_rejection\<lparr>rj_section := lit ''risk''\<rparr>)"
    "ValidateSections [(lit ''risk'', demo_draft)] (Placeholders demo_report) = None"
    by (simp_all add: ValidateSections_def Let_def demo_rejected demo_valid)
      (simp add: demo_draft_eq rune_len_def MaxTotalChars_def)
  have d: "concat (map (shown (Placeholders demo_report)) (pieces demo_draft)) = lit ''3/9/2026.''"
    by (simp add: demo_pieces demo_figure demo_shown) (simp add: lit_def)
  show ?thesis
    using v validated_render [OF demo_valid f]
      d by (simp add: Generate_def 0 demo_parse s)
qed

theorem narrative_fills_placeholders_witness:
  "case Inr [(lit ''risk'', lit ''3/9/2026.'')] :: generate_err + sections of
     Inl e \<Rightarrow> e \<noteq> ErrValidatedDraft
   | Inr out \<Rightarrow> \<exists>secs. secs \<noteq> [] \<and> list_all (\<lambda>n. n \<in> set sectionNames) (map fst secs)
       \<and> list_all (\<lambda>(n, d). concat (map source (pieces d)) = d \<and> list_all plain_text (plain_of (pieces d))
            \<and> \<not> has_banned_word d \<and> list_all (\<lambda>b. map_of (Placeholders demo_report) b \<noteq> None) (tokens_of (pieces d))) secs
       \<and> out = map (\<lambda>(n, d). (n, concat (map (shown (Placeholders demo_report)) (pieces d)))) secs"
  using narrative_fills_placeholders [OF demo_dates, of demo_writer undefined] unfolding demo_generated .

section \<open>The retry\<close>

lemma rejection_located:
  assumes "distinct (map fst secs)" and "ValidateSections secs vocab = Some e"
  shows "(\<exists>draft. (rj_section e, draft) \<in> set secs \<and> quotes vocab draft e
        \<and> (\<forall>(n, d)\<in>set secs. n < rj_section e \<longrightarrow> Validate d vocab = None))
      \<or> rj_check e = CheckLength \<and> rj_section e = [] \<and> (\<forall>(n, d)\<in>set secs. Validate d vocab = None)"
proof -
  have look: "(case map_of secs n of None \<Rightarrow> [] | Some x \<Rightarrow> x) = dr" if "(n, dr) \<in> set secs" for n dr
    using that assms(1) by simp
  show ?thesis
  proof (cases "first_rejection secs vocab (sort (map fst secs))")
    case None
    then have "\<forall>(n, d)\<in>set secs. Validate d vocab = None"
      using first_rejection_None [OF None] look by fastforce
    moreover have "rj_check e = CheckLength \<and> rj_section e = []"
      using assms(2) None by (auto simp: ValidateSections_def Let_def rejected_def split: if_splits)
    ultimately show ?thesis by blast
  next
    case (Some r)
    then have "r = e" using assms(2) by (simp add: ValidateSections_def Let_def)
    with first_rejection_Some [OF Some] obtain dr where f: "dr = (case map_of secs (rj_section e) of None \<Rightarrow> [] | Some x \<Rightarrow> x)"
        "rj_section e \<in> fst ` set secs" "quotes vocab dr e"
        "\<forall>n\<in>fst ` set secs. n < rj_section e \<longrightarrow> Validate (case map_of secs n of None \<Rightarrow> [] | Some x \<Rightarrow> x) vocab = None"
      by auto
    then obtain draft where dr: "(rj_section e, draft) \<in> set secs" by force
    have "Validate d vocab = None" if "(n, d) \<in> set secs" "n < rj_section e" for n d
      using f(4) that look [OF that(1)] by force
    then show ?thesis using dr f(1,3) look [OF dr] by (intro disjI1 exI [of _ draft]) auto
  qed
qed

definition second_try :: "gen_env \<Rightarrow> vocabulary \<Rightarrow> llm_err + gostr \<Rightarrow> generate_err + sections" where
  \<comment> \<open>what becomes of the last draft\<close>
  "second_try env vocab answer = (case answer of
     Inl failure \<Rightarrow> Inl (ErrDraft failure)
   | Inr raw \<Rightarrow> (case parseDraft (ge_parse env) raw of
       Inl _ \<Rightarrow> Inl ErrGenerationUnusable
     | Inr secs \<Rightarrow> (case ValidateSections secs vocab of
         Some _ \<Rightarrow> Inl ErrGenerationUnusable
       | None \<Rightarrow> (case renderSections secs vocab of Inr out \<Rightarrow> Inr out | Inl _ \<Rightarrow> Inl ErrValidatedDraft))))"

text \<open>C31. A rejected draft is retried exactly once, and the retry is told where the draft slipped. The
  rejection is of the alphabetically first section that breaks a rule, or of the narrative as a whole
  when it is only too long in all. What is quoted of that section is a window of at most 46 bytes of it
  that holds a figure or a unit, or the first spelled-out number; the token nobody offered; a beginning
  of at most 40 bytes of a section that is too long or malformed; or a blank section as it is. The
  generation then asks a second time, with the original prompt followed by that fragment in quotes, and
  its outcome is that of the second draft: rendered when it passes every check, unusable when it is
  rejected too, and the generator's own error when there is none.\<close>

theorem retry_quotes_the_offence:
  assumes "vocab \<noteq> []" and "ge_draft env 0 p = Inr raw" and "parseDraft (ge_parse env) raw = Inr secs"
    and "ValidateSections secs vocab = Some e"
  shows "((\<exists>draft. (rj_section e, draft) \<in> set secs \<and> quotes vocab draft e
        \<and> (\<forall>(n, d)\<in>set secs. n < rj_section e \<longrightarrow> Validate d vocab = None))
      \<or> rj_check e = CheckLength \<and> rj_section e = [] \<and> (\<forall>(n, d)\<in>set secs. Validate d vocab = None))
    \<and> (\<exists>q before after. pm_system q = pm_system p \<and> pm_user q = pm_user p @ before @ Quote (ge_print env) (rj_fragment e) @ after
        \<and> Generate env p vocab = second_try env vocab (ge_draft env 1 q))"
proof
  show "(\<exists>draft. (rj_section e, draft) \<in> set secs \<and> quotes vocab draft e
        \<and> (\<forall>(n, d)\<in>set secs. n < rj_section e \<longrightarrow> Validate d vocab = None))
      \<or> rj_check e = CheckLength \<and> rj_section e = [] \<and> (\<forall>(n, d)\<in>set secs. Validate d vocab = None)"
    using rejection_located [OF _ assms(4)] draft_sections [OF assms(3)] by simp
  define q where "q = withCorrection p (ValidationError (ge_print env) e)"
  have "Generate env p vocab = second_try env vocab (ge_draft env 1 q)"
    using assms by (auto simp: Generate_def q_def second_try_def split: sum.splits option.splits)
  moreover have "pm_user q = pm_user p @ ([10, 10] @ lit ''Your previous draft was rejected and not shown to anyone. ''
        @ lit ''narrative: draft rejected''
        @ (if rj_section e \<noteq> [] then lit '' in the '' @ rj_section e @ lit '' section'' else [])
        @ lit '' ('' @ check_name (rj_check e) @ lit ''): '' @ rj_detail e @ lit '': '')
      @ Quote (ge_print env) (rj_fragment e)
      @ ([10] @ lit ''Rewrite it. Every figure must be a placeholder from the list above; ''
        @ lit ''write no digits, no spelled-out numbers, and no units.'')"
    by (simp add: q_def withCorrection_def ValidationError_def Let_def)
  moreover have "pm_system q = pm_system p" by (simp add: q_def withCorrection_def)
  ultimately show "\<exists>q before after. pm_system q = pm_system p \<and> pm_user q = pm_user p @ before @ Quote (ge_print env) (rj_fragment e) @ after
        \<and> Generate env p vocab = second_try env vocab (ge_draft env 1 q)"
    by blast
qed

theorem retry_quotes_the_offence_witness:
  "\<forall>p :: prompt. \<exists>q before after. pm_user q = pm_user p @ before @ Quote (\<lambda>_. True) (lit ''Up 4'') @ after
     \<and> second_try demo_writer (Placeholders demo_report) (ge_draft demo_writer 1 q) = Inr [(lit ''risk'', lit ''3/9/2026.'')]"
proof
  fix p :: prompt
  have v: "Placeholders demo_report \<noteq> []" using demo_figure by auto
  have w: "ge_draft demo_writer 0 p = Inr [65]" "ge_print demo_writer = (\<lambda>_. True)" by (simp_all add: demo_writer_def)
  have d: "parseDraft (ge_parse demo_writer) [65] = Inr [(lit ''risk'', lit ''Up 4'')]" by (simp add: demo_parse)
  have e: "ValidateSections [(lit ''risk'', lit ''Up 4'')] (Placeholders demo_report) = Some (demo_rejection\<lparr>rj_section := lit ''risk''\<rparr>)"
    by (simp add: ValidateSections_def Let_def demo_rejected)
  have f: "rj_fragment (demo_rejection\<lparr>rj_section := lit ''risk''\<rparr>) = lit ''Up 4''" by (simp add: demo_rejection_def)
  from retry_quotes_the_offence [OF v w(1) d e, THEN conjunct2, unfolded w(2) f demo_generated]
  show "\<exists>q before after. pm_user q = pm_user p @ before @ Quote (\<lambda>_. True) (lit ''Up 4'') @ after
     \<and> second_try demo_writer (Placeholders demo_report) (ge_draft demo_writer 1 q) = Inr [(lit ''risk'', lit ''3/9/2026.'')]"
    by metis
qed

section \<open>Paid generations\<close>

text \<open>A request for a narrative, with everything its handling depends on: the wiring of the
  process, what Redis and the upstreams do, the clock and the credential.\<close>

record narrative_request =
  nq_redis :: redis_env
  nq_uuid :: "gostr \<Rightarrow> uuid option"
  nq_uuid_text :: "uuid \<Rightarrow> gostr"
  nq_upstream :: insights_upstream
  nq_hash :: "portfolio_insights \<Rightarrow> gostr"
  nq_prompt :: "portfolio_insights \<Rightarrow> vocabulary \<Rightarrow> prompt"
  nq_generator :: "gen_env option"
  nq_subject :: "gostr option"
  nq_authorization :: gostr

definition ask :: "narrative_request \<Rightarrow> redis \<times> counters \<Rightarrow> narrative_response reply \<times> redis \<times> counters" where
  "ask q = handle_PortfolioNarrative
     (insights_main (nq_uuid q) (nq_uuid_text q) (Some (nq_redis q)) (nq_upstream q) (nq_hash q) (nq_prompt q) (nq_generator q))
     (re_now (nq_redis q)) (nq_subject q) (nq_authorization q)"

definition paid :: "narrative_response reply \<Rightarrow> bool" where
  \<comment> \<open>the answers that are given after the generator was asked\<close>
  "paid a \<longleftrightarrow> (case a of
     Reply status n \<Rightarrow> nr_generated n \<noteq> None
       \<or> list_ex (\<lambda>reason. nr_reason n = Some reason) [Unusable, Upstream, RateLimited, TimedOut, Refused]
   | _ \<Rightarrow> False)"

definition charged :: "gostr \<Rightarrow> gostr \<Rightarrow> narrative_request \<Rightarrow> bool" where
  \<comment> \<open>the request is made by this caller on this day\<close>
  "charged user day q \<longleftrightarrow> map_option (nq_uuid_text q) (userID (nq_uuid q) (nq_subject q)) = Some user
     \<and> format_date (re_now (nq_redis q)) = day"

fun asked :: "narrative_request list \<Rightarrow> redis \<times> counters \<Rightarrow> (narrative_request \<times> narrative_response reply) list" where
  "asked [] w = []"
| "asked (q # qs) w = (case ask q w of (a, w') \<Rightarrow> (q, a) # asked qs w')"

definition day_key :: "gostr \<Rightarrow> gostr \<Rightarrow> gostr" where
  "day_key user day = lit ''narrative:count:'' @ user @ lit '':'' @ day"

lemma counter_key: "charged user day q \<Longrightarrow> userID (nq_uuid q) (nq_subject q) = Some u \<Longrightarrow>
    counterKey (nq_uuid_text q u) (re_now (nq_redis q)) = day_key user day"
  by (simp add: charged_def counterKey_def day_key_def)

lemma on_entries_snd [simp]: "snd (snd (on_entries f w)) = snd w"
  by (simp add: on_entries_def split: prod.split)

lemma insights_main_sel [simp]:
  "ia_uuid (insights_main pu ut renv up h pr g) = pu" "ia_uuid_text (insights_main pu ut renv up h pr g) = ut"
  "ia_upstream (insights_main pu ut renv up h pr g) = up" "ia_hash (insights_main pu ut renv up h pr g) = h"
  "ia_prompt (insights_main pu ut renv up h pr g) = pr" "ia_generator (insights_main pu ut renv up h pr g) = g"
  by (simp_all add: insights_main_def)

lemma report_keeps_counters:
  assumes "PortfolioInsights (ia_cache (insights_main pu ut renv up h pr g)) up now user auth w = (r, w')"
  shows "snd w' = snd w"
  using assms
  by (auto simp: PortfolioInsights_def insights_main_def NewService_def noopCache_def
      split: cache_answer.splits sum.splits option.splits)

lemma allow_main:
  assumes "allowGeneration (insights_main pu ut (Some renv) up h pr g) user w = (reason, w')"
  shows "(reason = Some NoCounter \<and> w' = w)
    \<or> (snd w' = (snd w)(counterKey user (re_now renv) := snd w (counterKey user (re_now renv)) + 1)
       \<and> (reason = Some NoCounter \<or> reason = Some OverCap \<or> reason = None)
       \<and> (if reason = None then snd w (counterKey user (re_now renv)) + 1 \<le> DailyGenerationCap else True))"
  using assms
  by (cases w) (auto simp: allowGeneration_def insights_main_def Counter_Allow_def Let_def split: if_splits)

lemma unavailable_unpaid [simp]:
  "paid (writeUnavailable r h reason) \<longleftrightarrow> reason \<in> {Unusable, Upstream, RateLimited, TimedOut, Refused}"
  "paid (writeNarrative r h secs None) \<longleftrightarrow> False"
  "paid writeUnauthorized \<longleftrightarrow> False" "paid (writeServiceError e) \<longleftrightarrow> False"
  by (auto simp: paid_def writeUnavailable_def writeNarrative_def writeUnauthorized_def writeServiceError_def
      split: insights_err.split)

lemma narrative_counts:
  assumes "handle_PortfolioNarrative (insights_main pu ut (Some renv) up h pr g) (re_now renv) subject auth w = (a, w')"
  shows "case map_option ut (userID pu subject) of
      None \<Rightarrow> snd w' = snd w \<and> \<not> paid a
    | Some user \<Rightarrow> snd w' = snd w \<and> \<not> paid a
        \<or> (snd w' = (snd w)(counterKey user (re_now renv) := snd w (counterKey user (re_now renv)) + 1)
           \<and> (if paid a then snd w (counterKey user (re_now renv)) + 1 \<le> DailyGenerationCap else True))"
proof (cases "userID pu subject")
  case None
  then show ?thesis using assms by (auto simp: handle_PortfolioNarrative_def)
next
  case (Some uid)
  let ?api = "insights_main pu ut (Some renv) up h pr g" and ?now = "re_now renv"
  obtain r w1 where R: "PortfolioInsights (ia_cache ?api) up ?now (ut uid) auth w = (r, w1)"
    by (cases "PortfolioInsights (ia_cache ?api) up ?now (ut uid) auth w")
  note k = report_keeps_counters [OF R]
  show ?thesis
  proof (cases r)
    case (Inl e)
    then show ?thesis using assms Some R k by (auto simp: handle_PortfolioNarrative_def)
  next
    case (Inr report)
    let ?v = "Placeholders report" and ?h = "h report"
    consider (early) "cachedNarrative ?api (ut uid) ?h w1 \<noteq> None \<or> ?v = [] \<or> g = None"
      | (model) env where "cachedNarrative ?api (ut uid) ?h w1 = None" "?v \<noteq> []" "g = Some env"
      by auto
    then show ?thesis
    proof cases
      case early
      then show ?thesis using assms Some R k Inr
        by (cases "cachedNarrative ?api (ut uid) ?h w1"; cases g)
          (auto simp: handle_PortfolioNarrative_def Let_def split: if_splits)
    next
      case model
      obtain reason w2 where A: "allowGeneration ?api (ut uid) w1 = (reason, w2)"
        by (cases "allowGeneration ?api (ut uid) w1")
      have *: "handle_PortfolioNarrative ?api ?now subject auth w =
        (case reason of Some x \<Rightarrow> (writeUnavailable report ?h x, w2)
         | None \<Rightarrow> (case Generate env (pr report ?v) ?v of
             Inl e \<Rightarrow> (writeUnavailable report ?h (narrativeReason e), w2)
           | Inr secs \<Rightarrow> (writeNarrative report ?h secs (Some ?now),
               case ia_narratives ?api of None \<Rightarrow> w2 | Some (get, store) \<Rightarrow> snd (store (ut uid) ?h secs narrativeTTL w2))))"
        using Some R Inr model A by (cases reason; cases "Generate env (pr report ?v) ?v") (simp_all add: handle_PortfolioNarrative_def Let_def)
      have s: "snd (case ia_narratives ?api of None \<Rightarrow> w2 | Some (get, store) \<Rightarrow> snd (store (ut uid) ?h secs narrativeTTL w2)) = snd w2"
        for secs by (simp add: insights_main_def)
      have "snd w' = snd w2 \<and> (paid a \<longrightarrow> reason = None)"
      proof (cases reason)
        case None
        then show ?thesis using assms * s by (auto split: sum.splits)
      next
        case S: (Some x)
        then show ?thesis using assms * allow_main [OF A] by auto
      qed
      then show ?thesis using Some allow_main [OF A] k by auto
    qed
  qed
qed

lemma asked_bounded:
  "int (length (filter (\<lambda>(q, a). charged user day q \<and> paid a) (asked qs w))) \<le> max 0 (DailyGenerationCap - snd w (day_key user day))"
proof (induction qs arbitrary: w)
  case (Cons q qs)
  obtain a w' where A: "ask q w = (a, w')" by (cases "ask q w")
  note step = narrative_counts [OF A [unfolded ask_def]]
  let ?k = "day_key user day" and ?n = "\<lambda>w. int (length (filter (\<lambda>(q, a). charged user day q \<and> paid a) (asked qs w)))"
  show ?case
  proof (cases "charged user day q \<and> paid a")
    case True
    then obtain u where u: "userID (nq_uuid q) (nq_subject q) = Some u" "nq_uuid_text q u = user"
      by (auto simp: charged_def)
    then have "snd w' ?k = snd w ?k + 1" "snd w ?k + 1 \<le> DailyGenerationCap"
      using step True counter_key [of user day q u] by (auto split: if_splits)
    then show ?thesis using Cons [of w'] A True by simp
  next
    case False
    have "snd w ?k \<le> snd w' ?k" using step by (auto split: option.splits)
    then show ?thesis using Cons [of w'] A False by auto
  qed
qed simp

text \<open>C18. Paid generations are bounded per caller and day: over any sequence of narrative
  requests to a service whose counters start empty, whatever Redis, the upstreams, the cache and
  the generator do and whoever else asks in between, at most \<open>DailyGenerationCap\<close> answers for a
  caller on a UTC day come after the generator was asked.\<close>

theorem generations_are_capped:
  "int (length (filter (\<lambda>(q, a). charged user day q \<and> paid a) (asked qs (rd, \<lambda>_. 0)))) \<le> 50"
  using asked_bounded [of user day qs "(rd, \<lambda>_. 0)"] by (simp add: DailyGenerationCap_def)

section \<open>A fill and the report after it\<close>

text \<open>C30. Trading and insights agree on the cache: once an order has filled and its DEL went
  through, the caller's next report is computed from the upstreams and not read from the cache,
  whatever the cache held, while every other user's entry is as it was.\<close>

theorem report_after_a_fill_is_computed:
  assumes "PlaceOrder uc ops prices (redis_invalidate (ce_uuid_text env) False) user req s rd = (Inr res, s', rd')"
    and "ce_uuid env (ce_uuid_text env user) = Some user" "inj (ce_uuid_text env)"
  shows "fst (PortfolioInsights (NewRedisInsightsCache env) up now (ce_uuid_text env user) auth rd') = buildInsights up now auth
    \<and> (if other \<noteq> user then rd' (Insights (ce_uuid_text env) other) = rd (Insights (ce_uuid_text env) other) else True)"
proof -
  have "rd' (Insights (ce_uuid_text env) user) = None"
    "other \<noteq> user \<Longrightarrow> rd' (Insights (ce_uuid_text env) other) = rd (Insights (ce_uuid_text env) other)"
    using fill_invalidates_report [OF assms(1,3)] by auto
  then show ?thesis
    using assms(2)
    by (auto simp: PortfolioInsights_def NewRedisInsightsCache_def RedisInsightsCache_Get_def report_key_def redis_get_def
        split: sum.split)
qed

definition demo_cache_env :: cache_env where
  "demo_cache_env = \<lparr>ce_get_fails = False, ce_set_fails = False, ce_now = 0, ce_uuid = (\<lambda>s. Some (hd s)),
     ce_uuid_text = (\<lambda>u. [u]), ce_marshal = (\<lambda>_. Some []), ce_unmarshal = (\<lambda>_. Some demo_report)\<rparr>"

definition demo_upstream :: insights_upstream where
  "demo_upstream = \<lparr>up_trades = (\<lambda>_. Inr []), up_portfolio = (\<lambda>_. Inl ErrUnauthorized),
     up_history = (\<lambda>_. Inl ErrUnauthorized), up_sched = (\<lambda>_. [])\<rparr>"

text \<open>Before the fill the entry is served, after it the report is computed.\<close>

theorem report_after_a_fill_is_computed_witness:
  "fst (PortfolioInsights (NewRedisInsightsCache demo_cache_env) demo_upstream 5 [9] [] (\<lambda>_. Some ([], 1))) = Inr demo_report
   \<and> fst (PortfolioInsights (NewRedisInsightsCache demo_cache_env) demo_upstream 5 [9] []
       ((\<lambda>_. Some ([], 1))(Insights (\<lambda>u. [u]) 9 := None))) = Inr (insufficientData 5 ''no trades yet'')"
proof -
  have e: "ce_uuid_text demo_cache_env = (\<lambda>u. [u])" "ce_uuid demo_cache_env (ce_uuid_text demo_cache_env 9) = Some 9"
    "inj (ce_uuid_text demo_cache_env)"
    by (simp_all add: demo_cache_env_def inj_def)
  have "fst (PortfolioInsights (NewRedisInsightsCache demo_cache_env) demo_upstream 5 [9] [] (\<lambda>_. Some ([], 1))) = Inr demo_report"
    by (simp add: PortfolioInsights_def NewRedisInsightsCache_def RedisInsightsCache_Get_def report_key_def redis_get_def
        demo_cache_env_def)
  moreover have "buildInsights demo_upstream 5 [] = Inr (insufficientData 5 ''no trades yet'')"
    by (simp add: buildInsights_def demo_upstream_def)
  ultimately show ?thesis
    using report_after_a_fill_is_computed [OF demo_placed [folded e(1)] e(2,3), of demo_upstream 5 "[]" "\<lambda>_. Some ([], 1)" 9]
    by (simp add: e(1))
qed

end
