(* ===== verification/GoRFC3339.thy ===== *)
theory GoRFC3339
  imports GoTime "HOL-Library.Monad_Syntax"
begin

text \<open>
  Package \<open>time\<close>: instants as RFC 3339 text, \<open>Format\<close> and \<open>Parse\<close> with the layouts
  \<open>RFC3339\<close> and \<open>RFC3339Nano\<close> and the JSON form of a time. \<open>Parse\<close> is the general parser with
  its leniencies: an hour of one digit, a fraction after a comma, and a fraction in either
  layout. Instants print in UTC, as the location is not kept.
\<close>

section \<open>Parsing\<close>

definition fixed :: "nat \<Rightarrow> gostr \<Rightarrow> (int \<times> gostr) option" where
  \<comment> \<open>so many digits\<close>
  "fixed n s = (if length s < n then None else map_option (\<lambda>v. (v, drop n s)) (digits_value (take n s) 0))"

definition expect :: "rune \<Rightarrow> gostr \<Rightarrow> gostr option" where
  "expect c s = (case s of [] \<Rightarrow> None | r # rest \<Rightarrow> if r = c then Some rest else None)"

definition one_or_two :: "gostr \<Rightarrow> (int \<times> gostr) option" where
  "one_or_two s = (case fixed 2 s of Some p \<Rightarrow> Some p | None \<Rightarrow> fixed 1 s)"

definition is_digit :: "rune \<Rightarrow> bool" where
  "is_digit r \<longleftrightarrow> 48 \<le> r \<and> r \<le> 57"

fun fraction :: "gostr \<Rightarrow> int \<times> gostr" where
  \<comment> \<open>the nanoseconds of a fraction, its digits beyond the ninth dropped, and the rest\<close>
  "fraction (r # d # s) = (if (r = 46 \<or> r = 44) \<and> is_digit d then
       let ds = takeWhile is_digit (d # s); k = take 9 ds in
       (case digits_value k 0 of None \<Rightarrow> 0 | Some v \<Rightarrow> v * 10 ^ (9 - length k), drop (length ds) (d # s))
     else (0, r # d # s))"
| "fraction s = (0, s)"

definition zone :: "gostr \<Rightarrow> int option" where
  \<comment> \<open>\<open>Z\<close> or an offset in seconds, at the end of the text\<close>
  "zone s = (case s of [] \<Rightarrow> None
     | r # rest \<Rightarrow>
         if r = 90 then (if rest = [] then Some 0 else None)
         else do {
           (hh, s) \<leftarrow> fixed 2 rest;
           s \<leftarrow> expect 58 s;
           (mm, s) \<leftarrow> fixed 2 s;
           if s \<noteq> [] \<or> hh > 24 \<or> mm > 60 then None
           else if r = 43 then Some ((hh * 60 + mm) * 60)
           else if r = 45 then Some (- ((hh * 60 + mm) * 60))
           else None
         })"

definition parse_rfc3339 :: "gostr \<Rightarrow> instant option" where
  "parse_rfc3339 s = do {
     (y, s) \<leftarrow> fixed 4 s;
     s \<leftarrow> expect 45 s;
     (m, s) \<leftarrow> fixed 2 s;
     s \<leftarrow> expect 45 s;
     (d, s) \<leftarrow> fixed 2 s;
     s \<leftarrow> expect 84 s;
     (hour, s) \<leftarrow> one_or_two s;
     s \<leftarrow> expect 58 s;
     (mins, s) \<leftarrow> fixed 2 s;
     s \<leftarrow> expect 58 s;
     (secs, s) \<leftarrow> fixed 2 s;
     let (ns, s) = fraction s;
     off \<leftarrow> zone s;
     if \<not> valid_date y m d \<or> hour \<ge> 24 \<or> mins \<ge> 60 \<or> secs \<ge> 60 then None
     else Some (go_date y m d + ((hour * 60 + mins) * 60 + secs - off) * second + ns)
   }"

section \<open>Printing\<close>

definition two :: "int \<Rightarrow> gostr" where
  "two n = zpad 2 (nat n)"

definition clock_text :: "instant \<Rightarrow> gostr" where
  \<comment> \<open>\<open>15:04:05\<close>\<close>
  "clock_text t = (let s = t mod day_ns div second in
     two (s div 3600) @ [58] @ two (s div 60 mod 60) @ [58] @ two (s mod 60))"

definition fraction_text :: "int \<Rightarrow> gostr" where
  \<comment> \<open>\<open>.999999999\<close>: trailing zeros dropped, nothing for a whole second\<close>
  "fraction_text ns = (if ns = 0 then [] else 46 # trim_right (\<lambda>r. r = 48) (zpad 9 (nat ns)))"

definition format_rfc3339 :: "instant \<Rightarrow> gostr" where
  "format_rfc3339 t = format_date t @ [84] @ clock_text t @ [90]"

definition format_rfc3339nano :: "instant \<Rightarrow> gostr" where
  "format_rfc3339nano t = format_date t @ [84] @ clock_text t @ fraction_text (t mod second) @ [90]"

definition json_time :: "instant \<Rightarrow> gostr option" where
  \<comment> \<open>\<open>MarshalJSON\<close>: a year outside 0 to 9999 is an error\<close>
  "json_time t = (case date_of t of (y, _, _) \<Rightarrow> if 0 \<le> y \<and> y \<le> 9999 then Some (format_rfc3339nano t) else None)"

section \<open>Parsing what was printed\<close>

lemma fixed_append:
  assumes "n < 10 ^ w" shows "fixed w (zpad w n @ s) = Some (int n, s)"
  using length_zpad [OF assms] by (simp add: fixed_def digits_value_zpad)

lemma expect_hit [simp]: "expect c (c # s) = Some s"
  by (simp add: expect_def)

lemma digits_all: "digits_value s acc \<noteq> None \<longleftrightarrow> list_all is_digit s"
  by (induction s arbitrary: acc) (auto simp: digit_def is_digit_def)

lemma zpad_all_digits: "list_all is_digit (zpad w n)"
  using digits_value_zpad [of w n] digits_all [of "zpad w n" 0] by simp

lemma digits_value_zeros: "digits_value (replicate k 48) v = Some (v * 10 ^ k)"
  by (induction k arbitrary: v) (simp_all add: digit_def algebra_simps)

lemma dropWhile_replicate: "\<exists>k. s = replicate k c @ dropWhile (\<lambda>r. r = c) s"
proof (induction s)
  case (Cons r s)
  then obtain k where "s = replicate k c @ dropWhile (\<lambda>r. r = c) s" by blast
  then show ?case
    by (cases "r = c") (auto intro: exI [of _ "Suc k"] exI [of _ 0])
qed simp

lemma trim_right_zeros: "\<exists>k. s = trim_right (\<lambda>r. r = c) s @ replicate k c"
proof -
  obtain k where "rev s = replicate k c @ dropWhile (\<lambda>r. r = c) (rev s)" using dropWhile_replicate [of "rev s" c] by (elim exE)
  then have "rev (rev s) = rev (replicate k c @ dropWhile (\<lambda>r. r = c) (rev s))" by (rule arg_cong)
  then show ?thesis unfolding trim_right_def by auto
qed

lemma fraction_printed:
  assumes "0 < ns" "ns < second"
  shows "fraction (fraction_text ns @ [90]) = (ns, [90])"
proof -
  define t where "t = trim_right (\<lambda>r. r = 48) (zpad 9 (nat ns))"
  obtain k where k: "zpad 9 (nat ns) = t @ replicate k 48" using trim_right_zeros [of "zpad 9 (nat ns)" 48] unfolding t_def by (elim exE)
  have len: "length t + k = 9"
    using length_zpad [of "nat ns" 9] k assms by (simp add: second_def nat_less_iff)
  have dig: "list_all is_digit t" using zpad_all_digits [of 9 "nat ns"] k by simp
  obtain v where v: "digits_value t 0 = Some v" using digits_all dig by (metis option.exhaust)
  have val: "v * 10 ^ k = ns"
    using digits_value_zpad [of 9 "nat ns"] v assms(1) by (simp add: k digits_value_append digits_value_zeros)
  then have "t \<noteq> []" using v assms(1) by auto
  then obtain d s where ds: "t = d # s" "is_digit d" using dig by (cases t) auto
  have tw: "takeWhile is_digit (t @ [90]) = t"
    using dig by (simp add: takeWhile_append list_all_iff is_digit_def)
  have "fraction (fraction_text ns @ [90]) = (v * 10 ^ (9 - length t), [90])"
    using assms(1) ds tw len v by (simp add: fraction_text_def t_def [symmetric] Let_def)
  moreover have "9 - length t = k" using len by simp
  ultimately show ?thesis using val by simp
qed

lemma fraction_whole [simp]: "fraction [90] = (0, [90])"
  by simp

lemma fixed_two: "0 \<le> n \<Longrightarrow> n < 100 \<Longrightarrow> fixed 2 (two n @ s) = Some (n, s)"
  using fixed_append [of "nat n" 2 s] by (simp add: two_def nat_less_iff)

lemma seconds_of_day:
  assumes "(x::int) = s * second + n" "0 \<le> n" "n < second" "0 \<le> x" "x < day_ns"
  shows "0 \<le> s" "s < 86400"
proof -
  have "second = 1000000000" "day_ns = 86400000000000" by (simp_all add: day_ns_def second_def)
  note e = this
  show "0 \<le> s" "s < 86400" using assms unfolding e by linarith+
qed

theorem parse_format_rfc3339nano:
  assumes "date_of t = (y, m, d)" "0 \<le> y" "y \<le> 9999"
  shows "parse_rfc3339 (format_rfc3339nano t) = Some t"
proof -
  have v: "valid_date y m d" using assms(1) unfolding date_of_def by (rule civil_valid)
  then have r: "0 \<le> m" "m < 100" "0 \<le> d" "d < 100" using days_in_le [of m y] by (auto simp: valid_date_def)
  define s where "s = t mod day_ns div second"
  have sec: "0 < second" by (simp add: second_def)
  have dm: "t mod day_ns = s * second + t mod second"
  proof -
    have "t mod day_ns mod second = t mod second" by (rule mod_mod_cancel) (simp add: day_ns_def)
    then show ?thesis using div_mult_mod_eq [of "t mod day_ns" second] by (simp only: s_def)
  qed
  have ns: "0 \<le> t mod second" "t mod second < second" using sec by simp_all
  have s: "0 \<le> s" "s < 86400"
    by (rule seconds_of_day [OF dm ns]; simp)+
  have "s div 3600 = s div 60 div 60" using zdiv_zmult2_eq [of 60 s 60] by simp
  then have "s div 3600 * 60 + s div 60 mod 60 = s div 60" using div_mult_mod_eq [of "s div 60" 60] by simp
  then have c: "(s div 3600 * 60 + s div 60 mod 60) * 60 + s mod 60 = s" using div_mult_mod_eq [of s 60] by simp
  have h: "0 \<le> s div 3600" "s div 3600 < 24" using s by simp_all
  have f: "fraction (fraction_text (t mod second) @ [90]) = (t mod second, [90])"
    using ns fraction_printed [of "t mod second"] by (cases "t mod second = 0") (simp_all add: fraction_text_def)
  have total: "go_date y m d + ((s div 3600 * 60 + s div 60 mod 60) * 60 + s mod 60 - 0) * second + t mod second = t"
    unfolding c go_date_date_of [OF assms(1)] using dm div_mult_mod_eq [of t day_ns] by simp
  define hh mi se where e: "hh = s div 3600" "mi = s div 60 mod 60" "se = s mod 60"
  have b: "0 \<le> hh" "hh < 24" "0 \<le> mi" "mi < 60" "0 \<le> se" "se < 60" using h by (simp_all add: e)
  have z: "zone [90] = Some 0" by (simp add: zone_def)
  have o: "one_or_two (two hh @ x) = Some (hh, x)" for x
    using b by (simp add: one_or_two_def fixed_two)
  have y: "fixed 4 (zpad 4 (nat y) @ x) = Some (y, x)" for x
    using fixed_append [of "nat y" 4 x] assms(2,3) by (simp add: nat_less_iff)
  have "format_rfc3339nano t = zpad 4 (nat y) @ 45 # two m @ 45 # two d @ 84 # two hh @ 58 # two mi
      @ 58 # two se @ fraction_text (t mod second) @ [90]"
    using r assms by (simp add: format_rfc3339nano_def format_date_def append_int_def clock_text_def Let_def s_def two_def e)
  moreover have "parse_rfc3339 \<dots> = Some t"
    using v r b total unfolding e [symmetric] by (simp add: parse_rfc3339_def fixed_two o z y f)
  ultimately show ?thesis by simp
qed

end
