(* ===== verification/MarketData.thy ===== *)
theory MarketData
  imports GoRFC3339 GoJSON GoStrconv PkgAuth "HOL-Library.AList"
begin

text \<open>
  services/market-data: the provider's client (internal/alpaca), the bars table
  (internal/store), the price cache (internal/cache), ingestion, history and prices
  (internal/service/market\_data.go), the poller (internal/service/live.go) and the HTTP layer
  (internal/handler).

  Outside the repository and therefore parameters: the answers of the provider, the Unicode
  tables, and Postgres (\<open>mkt_pg\<close>: how a batch ends, what a NUMERIC(20,4) and a TIMESTAMPTZ
  column give back, whether a query fails). A batch is one implicit transaction. Redis keeps an
  entry until the instant it expires. A JSON body is its syntax tree.
\<close>

section \<open>Values\<close>

record mkt_bar =
  mb_symbol :: gostr
  mb_timeframe :: gostr
  mb_time :: instant
  mb_open :: f64
  mb_high :: f64
  mb_low :: f64
  mb_close :: f64
  mb_volume :: int

record mkt_price =
  mp_symbol :: gostr
  mp_price :: f64
  mp_time :: instant

datatype mkt_err = ErrInvalidSymbol | ErrUpstreamUnavailable | ErrInvalidDateRange | ErrPriceNotCached | ErrStore

record ingest_request =
  ig_symbols :: "gostr list"
  ig_start :: gostr
  ig_end :: gostr

record ingest_result =
  ir_symbol :: gostr
  ir_bars :: int
  ir_error :: "mkt_err option"

section \<open>The provider's client\<close>

datatype alpaca_err = RequestFailed | StatusError int | BadResponse

record alpaca_bar =
  ab_time :: instant
  ab_open :: f64
  ab_high :: f64
  ab_low :: f64
  ab_close :: f64
  ab_volume :: int

definition dec_elem :: "'a \<Rightarrow> (json \<Rightarrow> 'a option) \<Rightarrow> json \<Rightarrow> 'a option" where
  \<comment> \<open>an element of an array or of a map: \<open>null\<close> leaves the zero value\<close>
  "dec_elem zero dec j = (if j = JNull then Some zero else dec j)"

definition dec_list :: "'a \<Rightarrow> (json \<Rightarrow> 'a option) \<Rightarrow> json \<Rightarrow> 'a list option" where
  "dec_list zero dec j = (case j of JArr js \<Rightarrow> those (map (dec_elem zero dec) js) | _ \<Rightarrow> None)"

definition dec_map :: "'a \<Rightarrow> (json \<Rightarrow> 'a option) \<Rightarrow> json \<Rightarrow> (gostr \<times> 'a) list option" where
  "dec_map zero dec j = (case j of
     JNull \<Rightarrow> Some []
   | JObj ms \<Rightarrow> foldl (\<lambda>acc (k, v). case (acc, dec_elem zero dec v) of
       (Some m, Some x) \<Rightarrow> Some (AList.update k x m) | _ \<Rightarrow> None) (Some []) ms
   | _ \<Rightarrow> None)"

definition dec_pointer :: "gostr \<Rightarrow> (json \<Rightarrow> 'a option) \<Rightarrow> json \<Rightarrow> 'a option option" where
  \<comment> \<open>a pointer field: \<open>null\<close> makes it nil\<close>
  "dec_pointer field dec j = (case j of
     JNull \<Rightarrow> Some None
   | JObj ms \<Rightarrow> foldl (\<lambda>acc (k, v). case acc of None \<Rightarrow> None
       | Some x \<Rightarrow> if \<not> names_field field k then Some x else if v = JNull then Some None else map_option Some (dec v)) (Some None) ms
   | _ \<Rightarrow> None)"

definition decode_alpaca_bar :: "json \<Rightarrow> (gostr \<times> alpaca_bar) option" where
  \<comment> \<open>the text of the timestamp, and the bar with no time yet\<close>
  "decode_alpaca_bar j = do {
     t \<leftarrow> dec_field (lit ''t'') dec_string [] j;
     op \<leftarrow> dec_field (lit ''o'') dec_float 0 j;
     hi \<leftarrow> dec_field (lit ''h'') dec_float 0 j;
     lo \<leftarrow> dec_field (lit ''l'') dec_float 0 j;
     cl \<leftarrow> dec_field (lit ''c'') dec_float 0 j;
     vol \<leftarrow> dec_field (lit ''v'') dec_int 0 j;
     Some (t, \<lparr>ab_time = 0, ab_open = op, ab_high = hi, ab_low = lo, ab_close = cl, ab_volume = vol\<rparr>)
   }"

definition zero_alpaca_bar :: "gostr \<times> alpaca_bar" where
  "zero_alpaca_bar = ([], \<lparr>ab_time = 0, ab_open = 0, ab_high = 0, ab_low = 0, ab_close = 0, ab_volume = 0\<rparr>)"

definition bar_of_dto :: "gostr \<times> alpaca_bar \<Rightarrow> alpaca_bar option" where
  "bar_of_dto dto = map_option (\<lambda>ts. (snd dto)\<lparr>ab_time := ts\<rparr>) (parse_rfc3339 (fst dto))"

record bars_query =
  bq_symbol :: gostr
  bq_timeframe :: gostr
  bq_start :: gostr
  bq_end :: gostr
  bq_token :: gostr

definition fetchBarsPage :: "json http_exchange \<Rightarrow> alpaca_err + alpaca_bar list \<times> gostr" where
  "fetchBarsPage ex = (case ex of
     ReqFailed \<Rightarrow> Inl RequestFailed
   | NoAnswer \<Rightarrow> Inl RequestFailed
   | Answer status body \<Rightarrow>
       if status \<noteq> 200 then Inl (StatusError status)
       else (case do {
           j \<leftarrow> body;
           _ \<leftarrow> dec_field (lit ''symbol'') dec_string [] j;
           dtos \<leftarrow> dec_field (lit ''bars'') (dec_list zero_alpaca_bar decode_alpaca_bar) [] j;
           next \<leftarrow> dec_pointer (lit ''next_page_token'') dec_string j;
           bars \<leftarrow> those (map bar_of_dto dtos);
           Some (bars, case next of None \<Rightarrow> [] | Some token \<Rightarrow> token)
         } of None \<Rightarrow> Inl BadResponse | Some r \<Rightarrow> Inr r))"

text \<open>The provider answers the n-th request of a run. The loop over the pages need not end;
  then the call has no result.\<close>

type_synonym bars_server = "nat \<Rightarrow> bars_query \<Rightarrow> json http_exchange"

partial_function (option) drain :: "bars_server \<Rightarrow> bars_query \<Rightarrow> nat \<Rightarrow> alpaca_bar list \<Rightarrow> (alpaca_err + alpaca_bar list) option" where
  "drain server q i bars =
     (case fetchBarsPage (server i q) of
        Inl e \<Rightarrow> Some (Inl e)
      | Inr (page, token) \<Rightarrow>
          if token = [] then Some (Inr (bars @ page)) else drain server (q\<lparr>bq_token := token\<rparr>) (i + 1) (bars @ page))"

definition GetBars :: "bars_server \<Rightarrow> gostr \<Rightarrow> gostr \<Rightarrow> instant \<Rightarrow> instant \<Rightarrow> (alpaca_err + alpaca_bar list) option" where
  "GetBars server symb timeframe start stop =
     drain server \<lparr>bq_symbol = symb, bq_timeframe = timeframe, bq_start = format_rfc3339 start, bq_end = format_rfc3339 stop,
       bq_token = []\<rparr> 0 []"

type_synonym snapshots = "(gostr \<times> (f64 \<times> instant) option) list"

definition decode_snapshot :: "json \<Rightarrow> (f64 \<times> gostr) option option" where
  "decode_snapshot = dec_pointer (lit ''latestTrade'') (\<lambda>j. do {
     p \<leftarrow> dec_field (lit ''p'') dec_float 0 j;
     t \<leftarrow> dec_field (lit ''t'') dec_string [] j;
     Some (p, t)
   })"

definition snapshot_of_dto :: "(f64 \<times> gostr) option \<Rightarrow> (f64 \<times> instant) option option" where
  "snapshot_of_dto dto = (case dto of None \<Rightarrow> Some None
     | Some (p, t) \<Rightarrow> map_option (\<lambda>ts. Some (p, ts)) (parse_rfc3339 t))"

definition GetSnapshots :: "json http_exchange \<Rightarrow> alpaca_err + snapshots" where
  "GetSnapshots ex = (case ex of
     ReqFailed \<Rightarrow> Inl RequestFailed
   | NoAnswer \<Rightarrow> Inl RequestFailed
   | Answer status body \<Rightarrow>
       if status \<noteq> 200 then Inl (StatusError status)
       else (case do {
           j \<leftarrow> body;
           dtos \<leftarrow> dec_map None decode_snapshot j;
           snaps \<leftarrow> those (map (\<lambda>(symb, dto). map_option (Pair symb) (snapshot_of_dto dto)) dtos);
           Some snaps
         } of None \<Rightarrow> Inl BadResponse | Some r \<Rightarrow> Inr r))"

section \<open>The bars table\<close>

datatype batch_outcome = BatchDone | BatchFailed | BatchUnconfirmed

record mkt_pg =
  mg_numeric :: "f64 \<Rightarrow> f64 option"
  mg_time :: "instant \<Rightarrow> instant"

definition same_bar :: "mkt_bar \<Rightarrow> mkt_bar \<Rightarrow> bool" where
  \<comment> \<open>the unique constraint\<close>
  "same_bar a b \<longleftrightarrow> mb_symbol a = mb_symbol b \<and> mb_timeframe a = mb_timeframe b \<and> mb_time a = mb_time b"

definition stored_bar :: "mkt_pg \<Rightarrow> mkt_bar \<Rightarrow> mkt_bar option" where
  "stored_bar pg b = do {
     op \<leftarrow> mg_numeric pg (mb_open b);
     hi \<leftarrow> mg_numeric pg (mb_high b);
     lo \<leftarrow> mg_numeric pg (mb_low b);
     cl \<leftarrow> mg_numeric pg (mb_close b);
     Some (b\<lparr>mb_time := mg_time pg (mb_time b), mb_open := op, mb_high := hi, mb_low := lo, mb_close := cl\<rparr>)
   }"

fun upsert_row :: "mkt_bar \<Rightarrow> mkt_bar list \<Rightarrow> mkt_bar list" where
  \<comment> \<open>one INSERT with its ON CONFLICT clause\<close>
  "upsert_row b [] = [b]"
| "upsert_row b (r # rows) = (if same_bar r b then b # rows else r # upsert_row b rows)"

definition upsert_rows :: "mkt_bar list \<Rightarrow> mkt_bar list \<Rightarrow> mkt_bar list" where
  "upsert_rows bars rows = foldl (\<lambda>rows b. upsert_row b rows) rows bars"

definition UpsertBars :: "mkt_pg \<Rightarrow> batch_outcome \<Rightarrow> mkt_bar list \<Rightarrow> mkt_bar list \<Rightarrow> bool \<times> mkt_bar list" where
  "UpsertBars pg batch bars rows =
     (if length bars = 0 then (True, rows)
      else case those (map (stored_bar pg) bars) of
        None \<Rightarrow> (False, rows)
      | Some stored \<Rightarrow>
          (case batch of
             BatchDone \<Rightarrow> (True, upsert_rows stored rows)
           | BatchFailed \<Rightarrow> (False, rows)
           | BatchUnconfirmed \<Rightarrow> (False, upsert_rows stored rows)))"

definition GetHistory :: "bool \<Rightarrow> gostr \<Rightarrow> gostr \<Rightarrow> int \<Rightarrow> mkt_bar list \<Rightarrow> mkt_err + mkt_bar list" where
  "GetHistory query_fails symb timeframe limit rows =
     (if query_fails then Inl ErrStore
      else let newest_first = sort_key (\<lambda>b. - mb_time b) (filter (\<lambda>b. mb_symbol b = symb \<and> mb_timeframe b = timeframe) rows) in
        Inr (rev (take (nat limit) newest_first)))"

section \<open>Ingestion and history\<close>

definition Timeframe :: gostr where "Timeframe = lit ''1Day''"

definition DefaultWatchlist :: "gostr list" where
  "DefaultWatchlist = map lit [''AAPL'', ''MSFT'', ''GOOGL'', ''AMZN'', ''TSLA'', ''SPY'', ''QQQ'']"

definition defaultLookbackYears :: int where "defaultLookbackYears = 2"
definition DefaultHistoryLimit :: int where "DefaultHistoryLimit = 500"
definition MaxHistoryLimit :: int where "MaxHistoryLimit = 2000"

definition symbolPattern :: "gostr \<Rightarrow> bool" where
  "symbolPattern s \<longleftrightarrow> 1 \<le> length s \<and> length s \<le> 10 \<and> list_all (\<lambda>r. 65 \<le> r \<and> r \<le> 90 \<or> r = 46) s"

definition parseDate :: "gostr \<Rightarrow> instant option" where
  "parseDate s = (case parse_rfc3339 s of Some t \<Rightarrow> Some t | None \<Rightarrow> parse_date s)"

definition resolveDateRange :: "instant \<Rightarrow> ingest_request \<Rightarrow> mkt_err + instant \<times> instant" where
  "resolveDateRange now req =
     (case date_of now of (y, m, d) \<Rightarrow>
       let stop = go_date y m d; start = AddDate stop (- defaultLookbackYears) 0 0 in
       case (if ig_start req \<noteq> [] then parseDate (ig_start req) else Some start) of
         None \<Rightarrow> Inl ErrInvalidDateRange
       | Some start \<Rightarrow>
           (case (if ig_end req \<noteq> [] then parseDate (ig_end req) else Some stop) of
              None \<Rightarrow> Inl ErrInvalidDateRange
            | Some stop \<Rightarrow> Inr (start, stop)))"

record ingest_env =
  ie_upper :: "rune \<Rightarrow> rune"
  ie_now :: instant
  ie_bars :: "nat \<Rightarrow> gostr \<Rightarrow> gostr \<Rightarrow> instant \<Rightarrow> instant \<Rightarrow> (alpaca_err + alpaca_bar list) option"
  ie_pg :: mkt_pg
  ie_batch :: "nat \<Rightarrow> batch_outcome"

definition bar_of_alpaca :: "gostr \<Rightarrow> alpaca_bar \<Rightarrow> mkt_bar" where
  "bar_of_alpaca symb b = \<lparr>mb_symbol = symb, mb_timeframe = Timeframe, mb_time = ab_time b, mb_open = ab_open b,
     mb_high = ab_high b, mb_low = ab_low b, mb_close = ab_close b, mb_volume = ab_volume b\<rparr>"

definition ingest_symbol :: "ingest_env \<Rightarrow> instant \<Rightarrow> instant \<Rightarrow> nat \<Rightarrow> gostr \<Rightarrow> mkt_bar list
    \<Rightarrow> (ingest_result \<times> mkt_bar list) option" where
  \<comment> \<open>one turn of the loop, for the symbol at position \<open>i\<close>\<close>
  "ingest_symbol env start stop i raw rows =
     (let symb = to_upper (ie_upper env) (trim_space raw) in
      if \<not> symbolPattern symb then Some (\<lparr>ir_symbol = symb, ir_bars = 0, ir_error = Some ErrInvalidSymbol\<rparr>, rows)
      else case ie_bars env i symb Timeframe start stop of
        None \<Rightarrow> None
      | Some (Inl e) \<Rightarrow> Some (\<lparr>ir_symbol = symb, ir_bars = 0, ir_error = Some ErrUpstreamUnavailable\<rparr>, rows)
      | Some (Inr bars) \<Rightarrow>
          (case UpsertBars (ie_pg env) (ie_batch env i) (map (bar_of_alpaca symb) bars) rows of
             (False, rows') \<Rightarrow> Some (\<lparr>ir_symbol = symb, ir_bars = 0, ir_error = Some ErrStore\<rparr>, rows')
           | (True, rows') \<Rightarrow> Some (\<lparr>ir_symbol = symb, ir_bars = int (length bars), ir_error = None\<rparr>, rows')))"

fun ingest_loop :: "ingest_env \<Rightarrow> instant \<Rightarrow> instant \<Rightarrow> nat \<Rightarrow> gostr list \<Rightarrow> ingest_result list \<Rightarrow> mkt_bar list
    \<Rightarrow> (ingest_result list \<times> mkt_bar list) option" where
  "ingest_loop env start stop i [] results rows = Some (results, rows)"
| "ingest_loop env start stop i (raw # raws) results rows =
     (case ingest_symbol env start stop i raw rows of
        None \<Rightarrow> None
      | Some (r, rows') \<Rightarrow> ingest_loop env start stop (i + 1) raws (results @ [r]) rows')"

definition Ingest :: "ingest_env \<Rightarrow> ingest_request \<Rightarrow> mkt_bar list \<Rightarrow> ((mkt_err + ingest_result list) \<times> mkt_bar list) option" where
  \<comment> \<open>the results beside an error are not kept: the handler drops them\<close>
  "Ingest env req rows =
     (let symbols = (if length (ig_symbols req) = 0 then DefaultWatchlist else ig_symbols req) in
      case resolveDateRange (ie_now env) req of
        Inl e \<Rightarrow> Some (Inl e, rows)
      | Inr (start, stop) \<Rightarrow>
          (case ingest_loop env start stop 0 symbols [] rows of
             None \<Rightarrow> None
           | Some (results, rows') \<Rightarrow>
               if length symbols > 0 \<and> length (filter (\<lambda>r. ir_error r = Some ErrUpstreamUnavailable) results) = length symbols
               then Some (Inl ErrUpstreamUnavailable, rows') else Some (Inr results, rows')))"

record history_response =
  hi_symbol :: gostr
  hi_timeframe :: gostr
  hi_bars :: "mkt_bar list"

definition History :: "(rune \<Rightarrow> rune) \<Rightarrow> bool \<Rightarrow> gostr \<Rightarrow> int \<Rightarrow> mkt_bar list \<Rightarrow> mkt_err + history_response" where
  "History uc query_fails symb0 limit0 rows =
     (let symb = to_upper uc (trim_space symb0);
          limit1 = (if limit0 \<le> 0 then DefaultHistoryLimit else limit0);
          limit = (if limit1 > MaxHistoryLimit then MaxHistoryLimit else limit1) in
      sum_bind (GetHistory query_fails symb Timeframe limit rows)
        (\<lambda>bars. Inr \<lparr>hi_symbol = symb, hi_timeframe = Timeframe, hi_bars = bars\<rparr>))"

section \<open>The price cache\<close>

record price_redis =
  pr_entries :: "gostr \<rightharpoonup> json \<times> instant"
  pr_published :: "(gostr \<times> json) list"

definition priceKey :: "gostr \<Rightarrow> gostr" where "priceKey symb = lit ''price:'' @ symb"
definition priceChannel :: "gostr \<Rightarrow> gostr" where "priceChannel symb = lit ''prices:'' @ symb"

definition encode_price :: "mkt_price \<Rightarrow> json option" where
  "encode_price p = do {
     v \<leftarrow> enc_float (mp_price p);
     t \<leftarrow> json_time (mp_time p);
     Some (JObj [(lit ''symbol'', JStr (mp_symbol p)), (lit ''price'', v), (lit ''timestamp'', JStr t)])
   }"

definition dec_time :: "json \<Rightarrow> instant option" where
  "dec_time j = (case j of JStr s \<Rightarrow> parse_rfc3339 s | _ \<Rightarrow> None)"

definition decode_price :: "json \<Rightarrow> mkt_price option" where
  "decode_price j = do {
     s \<leftarrow> dec_field (lit ''symbol'') dec_string [] j;
     p \<leftarrow> dec_field (lit ''price'') dec_float 0 j;
     t \<leftarrow> dec_field (lit ''timestamp'') dec_time 0 j;
     Some \<lparr>mp_symbol = s, mp_price = p, mp_time = t\<rparr>
   }"

definition SetPrice :: "bool \<Rightarrow> instant \<Rightarrow> gostr \<Rightarrow> mkt_price \<Rightarrow> int \<Rightarrow> price_redis \<Rightarrow> bool \<times> price_redis" where
  "SetPrice fails now symb p ttl rd = (case encode_price p of
     None \<Rightarrow> (False, rd)
   | Some j \<Rightarrow> if fails then (False, rd) else (True, rd\<lparr>pr_entries := (pr_entries rd)(priceKey symb \<mapsto> (j, now + ttl))\<rparr>))"

datatype price_miss = PriceNotFound | PriceCacheFailed

definition GetPrice :: "bool \<Rightarrow> instant \<Rightarrow> gostr \<Rightarrow> price_redis \<Rightarrow> price_miss + mkt_price" where
  "GetPrice fails now symb rd =
     (if fails then Inl PriceCacheFailed
      else case pr_entries rd (priceKey symb) of
        None \<Rightarrow> Inl PriceNotFound
      | Some (j, expires) \<Rightarrow>
          if \<not> now < expires then Inl PriceNotFound
          else (case decode_price j of None \<Rightarrow> Inl PriceCacheFailed | Some p \<Rightarrow> Inr p))"

definition PublishPrice :: "bool \<Rightarrow> gostr \<Rightarrow> mkt_price \<Rightarrow> price_redis \<Rightarrow> bool \<times> price_redis" where
  "PublishPrice fails symb p rd = (case encode_price p of
     None \<Rightarrow> (False, rd)
   | Some j \<Rightarrow> if fails then (False, rd) else (True, rd\<lparr>pr_published := pr_published rd @ [(priceChannel symb, j)]\<rparr>))"

definition LatestPrice :: "(rune \<Rightarrow> rune) \<Rightarrow> bool \<Rightarrow> instant \<Rightarrow> gostr \<Rightarrow> price_redis \<Rightarrow> mkt_err + mkt_price" where
  "LatestPrice uc fails now symb rd =
     (case GetPrice fails now (to_upper uc (trim_space symb)) rd of
        Inl e \<Rightarrow> Inl ErrPriceNotCached
      | Inr p \<Rightarrow> Inr p)"

section \<open>The poller\<close>

definition PollInterval :: int where "PollInterval = 15 * second"
definition PriceTTL :: int where "PriceTTL = 3 * PollInterval"

text \<open>What one tick meets: the provider's answer, and for the symbol at each position the
  instant of its SET and which of the two Redis calls fails.\<close>

record tick =
  tk_answer :: "json http_exchange"
  tk_now :: "nat \<Rightarrow> instant"
  tk_set_fails :: "nat \<Rightarrow> bool"
  tk_publish_fails :: "nat \<Rightarrow> bool"

definition poll_symbol :: "tick \<Rightarrow> snapshots \<Rightarrow> price_redis \<Rightarrow> nat \<times> gostr \<Rightarrow> price_redis" where
  "poll_symbol tk snaps rd = (\<lambda>(i, symb).
     case map_of snaps symb of
       None \<Rightarrow> rd
     | Some None \<Rightarrow> rd
     | Some (Some (p, ts)) \<Rightarrow>
         let price = \<lparr>mp_symbol = symb, mp_price = p, mp_time = ts\<rparr> in
         (case SetPrice (tk_set_fails tk i) (tk_now tk i) symb price PriceTTL rd of
            (False, rd') \<Rightarrow> rd'
          | (True, rd') \<Rightarrow> snd (PublishPrice (tk_publish_fails tk i) symb price rd')))"

definition Poll :: "gostr list \<Rightarrow> tick \<Rightarrow> price_redis \<Rightarrow> bool \<times> price_redis" where
  "Poll symbols tk rd =
     (case GetSnapshots (tk_answer tk) of
        Inl e \<Rightarrow> (False, rd)
      | Inr snaps \<Rightarrow> (True, foldl (poll_symbol tk snaps) rd (enumerate 0 symbols)))"

definition Run :: "gostr list \<Rightarrow> tick list \<Rightarrow> price_redis \<Rightarrow> price_redis" where
  \<comment> \<open>the ticks before the context is done; a tick that fails is skipped\<close>
  "Run symbols tks rd = foldl (\<lambda>rd tk. snd (Poll symbols tk rd)) rd tks"

section \<open>The endpoints\<close>

definition decode_ingest :: "json \<Rightarrow> ingest_request option" where
  "decode_ingest j = do {
     symbols \<leftarrow> dec_field (lit ''symbols'') (dec_list [] dec_string) [] j;
     start \<leftarrow> dec_field (lit ''start'') dec_string [] j;
     stop \<leftarrow> dec_field (lit ''end'') dec_string [] j;
     Some \<lparr>ig_symbols = symbols, ig_start = start, ig_end = stop\<rparr>
   }"

datatype ingest_body = EmptyBody | Malformed | Body json

definition handle_Ingest :: "ingest_env \<Rightarrow> ingest_body \<Rightarrow> mkt_bar list \<Rightarrow> (ingest_result list reply \<times> mkt_bar list) option" where
  \<comment> \<open>an empty body asks for the defaults; the text of the date error also names the field and its value\<close>
  "handle_Ingest env body rows =
     (case (case body of EmptyBody \<Rightarrow> Some \<lparr>ig_symbols = [], ig_start = [], ig_end = []\<rparr>
              | Malformed \<Rightarrow> None | Body j \<Rightarrow> decode_ingest j) of
        None \<Rightarrow> Some (ErrorReply 400 ''invalid_request'' (lit ''malformed JSON body''), rows)
      | Some req \<Rightarrow>
          map_option (\<lambda>(r, rows'). (case r of
              Inr results \<Rightarrow> Reply 200 results
            | Inl ErrInvalidDateRange \<Rightarrow> ErrorReply 400 ''invalid_request'' (lit ''invalid start/end date'')
            | Inl ErrUpstreamUnavailable \<Rightarrow> ErrorReply 502 ''upstream_unavailable'' (lit ''market data upstream unavailable'')
            | Inl e \<Rightarrow> ErrorReply 500 ''internal_error'' (lit ''something went wrong''), rows')) (Ingest env req rows))"

definition handle_History :: "(rune \<Rightarrow> rune) \<Rightarrow> bool \<Rightarrow> gostr \<Rightarrow> gostr \<Rightarrow> mkt_bar list \<Rightarrow> history_response reply" where
  \<comment> \<open>\<open>raw\<close> is the limit parameter, empty when it is missing\<close>
  "handle_History uc query_fails symb raw rows =
     (if raw \<noteq> [] \<and> (case Atoi raw of (n, ok) \<Rightarrow> \<not> ok \<or> n \<le> 0)
      then ErrorReply 400 ''invalid_request'' (lit ''limit must be a positive integer'')
      else case History uc query_fails symb (if raw \<noteq> [] then fst (Atoi raw) else 0) rows of
        Inl e \<Rightarrow> ErrorReply 500 ''internal_error'' (lit ''something went wrong'')
      | Inr resp \<Rightarrow> Reply 200 resp)"

definition handle_Prices :: "(rune \<Rightarrow> rune) \<Rightarrow> bool \<Rightarrow> instant \<Rightarrow> gostr \<Rightarrow> price_redis \<Rightarrow> mkt_price reply" where
  "handle_Prices uc fails now symb rd =
     (case LatestPrice uc fails now symb rd of
        Inl ErrPriceNotCached \<Rightarrow> ErrorReply 404 ''price_not_cached'' (lit ''no cached price for symbol yet'')
      | Inl e \<Rightarrow> ErrorReply 500 ''internal_error'' (lit ''something went wrong'')
      | Inr p \<Rightarrow> Reply 200 p)"

section \<open>The routing table\<close>

record market_request =
  mr_method :: gostr
  mr_path :: gostr
  mr_limit :: gostr
  mr_body :: ingest_body

record market_env =
  me_ingest :: ingest_env
  me_query_fails :: bool
  me_get_fails :: bool
  me_now :: instant

datatype market_answer = MarketHealthy | SymbolsReply "gostr list reply" | IngestReply "ingest_result list reply"
  | HistoryReply "history_response reply" | PriceReply "mkt_price reply" | MarketUnrouted

definition NewRouter :: "market_env \<Rightarrow> market_request \<Rightarrow> mkt_bar list \<Rightarrow> price_redis \<Rightarrow> (market_answer \<times> mkt_bar list) option" where
  "NewRouter env r rows rd =
     (if mr_path r = lit ''/market-data/ingest'' then
        (if mr_method r \<noteq> lit ''POST'' then Some (MarketUnrouted, rows)
         else map_option (\<lambda>(a, rows'). (IngestReply a, rows')) (handle_Ingest (me_ingest env) (mr_body r) rows))
      else if mr_method r \<noteq> lit ''GET'' then Some (MarketUnrouted, rows)
      else if mr_path r = lit ''/healthz'' then Some (MarketHealthy, rows)
      else if mr_path r = lit ''/market-data/symbols'' then Some (SymbolsReply (Reply 200 DefaultWatchlist), rows)
      else case path_param (lit ''/market-data/history/'') (mr_path r) of
        Some symb \<Rightarrow> Some (HistoryReply (handle_History (ie_upper (me_ingest env)) (me_query_fails env) symb (mr_limit r) rows), rows)
      | None \<Rightarrow>
          (case path_param (lit ''/market-data/prices/'') (mr_path r) of
             Some symb \<Rightarrow> Some (PriceReply (handle_Prices (ie_upper (me_ingest env)) (me_get_fails env) (me_now env) symb rd), rows)
           | None \<Rightarrow> Some (MarketUnrouted, rows)))"

end
