(* ===== verification/Wire.thy ===== *)
theory Wire
  imports TradingService BacktestService InsightsModel MarketData
begin

text \<open>
  The JSON that the services exchange: what \<open>WriteJSON\<close> of market-data and of trading-engine
  writes, and what the clients of backtesting, ai-insights and trading-engine read from it
  (internal/client of each). A value that cannot be encoded leaves the body empty.
\<close>

section \<open>Answers\<close>

definition wire :: "('a \<Rightarrow> json option) \<Rightarrow> 'a reply \<Rightarrow> json http_exchange" where
  "wire enc r = (case r of
     Reply status v \<Rightarrow> Answer status (enc v)
   | ErrorReply status code msg \<Rightarrow> Answer status (Some (JObj [(lit ''code'', JStr (lit code)), (lit ''message'', JStr msg)])))"

definition read_body :: "(json \<Rightarrow> 'a option) \<Rightarrow> json http_exchange \<Rightarrow> 'a http_exchange" where
  "read_body dec ex = (case ex of
     ReqFailed \<Rightarrow> ReqFailed | NoAnswer \<Rightarrow> NoAnswer | Answer status body \<Rightarrow> Answer status (Option.bind body dec))"

section \<open>Histories\<close>

definition encode_bar :: "mkt_bar \<Rightarrow> json option" where
  "encode_bar b = do {
     t \<leftarrow> json_time (mb_time b);
     op \<leftarrow> enc_float (mb_open b);
     hi \<leftarrow> enc_float (mb_high b);
     lo \<leftarrow> enc_float (mb_low b);
     cl \<leftarrow> enc_float (mb_close b);
     Some (JObj [(lit ''timestamp'', JStr t), (lit ''open'', op), (lit ''high'', hi), (lit ''low'', lo), (lit ''close'', cl),
       (lit ''volume'', enc_int (mb_volume b))])
   }"

definition encode_history :: "history_response \<Rightarrow> json option" where
  "encode_history r = map_option (\<lambda>bars.
     JObj [(lit ''symbol'', JStr (hi_symbol r)), (lit ''timeframe'', JStr (hi_timeframe r)), (lit ''bars'', JArr bars)])
     (those (map encode_bar (hi_bars r)))"

definition decode_bar :: "json \<Rightarrow> bar option" where
  "decode_bar j = do {
     t \<leftarrow> dec_field (lit ''timestamp'') dec_time 0 j;
     op \<leftarrow> dec_field (lit ''open'') dec_float 0 j;
     hi \<leftarrow> dec_field (lit ''high'') dec_float 0 j;
     lo \<leftarrow> dec_field (lit ''low'') dec_float 0 j;
     cl \<leftarrow> dec_field (lit ''close'') dec_float 0 j;
     vol \<leftarrow> dec_field (lit ''volume'') dec_int 0 j;
     Some \<lparr>Timestamp = t, Open = op, High = hi, Low = lo, Close = cl, Volume = vol\<rparr>
   }"

definition decode_history :: "json \<Rightarrow> bar list option" where
  "decode_history = dec_field (lit ''bars'')
     (dec_list \<lparr>Timestamp = 0, Open = 0, High = 0, Low = 0, Close = 0, Volume = 0\<rparr> decode_bar) []"

definition historyLimit :: gostr where "historyLimit = lit ''2000''"

definition backtest_history :: "(gostr \<Rightarrow> gostr \<Rightarrow> json http_exchange) \<Rightarrow> gostr \<Rightarrow> backtest_err + bar list" where
  \<comment> \<open>\<open>get\<close> is the GET of a symbol's history with a limit\<close>
  "backtest_history get symb = BacktestService.History (read_body decode_history (get symb historyLimit))"

definition ai_bar_of :: "bar \<Rightarrow> ai_bar" where
  "ai_bar_of b = \<lparr>ib_time = Timestamp b, ib_open = Open b, ib_high = High b, ib_low = Low b, ib_close = Close b, ib_volume = Volume b\<rparr>"

definition insights_history :: "(gostr \<Rightarrow> gostr \<Rightarrow> json http_exchange) \<Rightarrow> gostr \<Rightarrow> insights_err + ai_bar list" where
  "insights_history get symb = (case read_body decode_history (get symb historyLimit) of
     Answer status body \<Rightarrow>
       if status \<noteq> 200 then Inl insights_err.ErrUpstreamUnavailable
       else (case body of
           None \<Rightarrow> Inl insights_err.ErrUpstreamUnavailable
         | Some bars \<Rightarrow> if length bars = 0 then Inl (insights_err.ErrSymbolUnavailable symb) else Inr (map ai_bar_of bars))
   | _ \<Rightarrow> Inl insights_err.ErrUpstreamUnavailable)"

section \<open>Prices\<close>

definition trading_price :: "(gostr \<Rightarrow> json http_exchange) \<Rightarrow> price_client" where
  "trading_price get symb = TradingService.LatestPrice (read_body (dec_field (lit ''price'') dec_float 0) (get symb))"

section \<open>Trades and portfolios\<close>

definition unix_epoch :: instant where "unix_epoch = go_date 1970 1 1"

definition enc_optional :: "f64 option \<Rightarrow> json option" where
  "enc_optional v = (case v of None \<Rightarrow> Some JNull | Some x \<Rightarrow> enc_float x)"

definition encode_trade :: "(uuid \<Rightarrow> gostr) \<Rightarrow> trade \<Rightarrow> json option" where
  "encode_trade uuid_text t = do {
     q \<leftarrow> enc_float (t_quantity t);
     p \<leftarrow> enc_float (t_price t);
     pl \<leftarrow> enc_optional (t_realized_pl t);
     at_time \<leftarrow> json_time (unix_epoch + t_executed_at t);
     Some (JObj [(lit ''id'', JStr (uuid_text (t_id t))), (lit ''order_id'', JStr (uuid_text (t_order_id t))),
       (lit ''symbol'', JStr (t_symbol t)), (lit ''side'', JStr (t_side t)), (lit ''quantity'', q), (lit ''price'', p),
       (lit ''realized_pl'', pl), (lit ''executed_at'', JStr at_time)])
   }"

definition encode_trades :: "(uuid \<Rightarrow> gostr) \<Rightarrow> trade list \<Rightarrow> json option" where
  "encode_trades uuid_text ts =
     map_option (\<lambda>js. JObj [(lit ''trades'', JArr js)]) (those (map (encode_trade uuid_text) ts))"

definition encode_position :: "position \<Rightarrow> json option" where
  "encode_position p = do {
     q \<leftarrow> enc_float (p_quantity p);
     c \<leftarrow> enc_float (p_avg_cost p);
     l \<leftarrow> enc_optional (p_latest_price p);
     u \<leftarrow> enc_float (p_unrealized_pl p);
     Some (JObj [(lit ''symbol'', JStr (p_symbol p)), (lit ''quantity'', q), (lit ''avg_cost'', c), (lit ''latest_price'', l),
       (lit ''unrealized_pl'', u)])
   }"

definition encode_portfolio :: "portfolio_response \<Rightarrow> json option" where
  "encode_portfolio r = do {
     b \<leftarrow> enc_float (pf_balance r);
     ps \<leftarrow> those (map encode_position (pf_positions r));
     e \<leftarrow> enc_float (pf_total_equity r);
     u \<leftarrow> enc_float (pf_total_unrealized_pl r);
     Some (JObj [(lit ''balance'', b), (lit ''positions'', JArr ps), (lit ''total_equity'', e), (lit ''total_unrealized_pl'', u)])
   }"

definition decode_trade :: "json \<Rightarrow> ai_trade option" where
  "decode_trade j = do {
     i \<leftarrow> dec_field (lit ''id'') dec_string [] j;
     symb \<leftarrow> dec_field (lit ''symbol'') dec_string [] j;
     side \<leftarrow> dec_field (lit ''side'') dec_string [] j;
     q \<leftarrow> dec_field (lit ''quantity'') dec_float 0 j;
     p \<leftarrow> dec_field (lit ''price'') dec_float 0 j;
     pl \<leftarrow> dec_pointer (lit ''realized_pl'') dec_float j;
     t \<leftarrow> dec_field (lit ''executed_at'') dec_time 0 j;
     Some \<lparr>it_id = i, it_symbol = symb, it_side = side, it_quantity = q, it_price = p, it_realized_pl = pl, it_executed_at = t\<rparr>
   }"

definition zero_trade :: ai_trade where
  "zero_trade = \<lparr>it_id = [], it_symbol = [], it_side = [], it_quantity = 0, it_price = 0, it_realized_pl = None, it_executed_at = 0\<rparr>"

definition decode_position :: "json \<Rightarrow> live_position option" where
  "decode_position j = do {
     symb \<leftarrow> dec_field (lit ''symbol'') dec_string [] j;
     q \<leftarrow> dec_field (lit ''quantity'') dec_float 0 j;
     Some \<lparr>lp_symbol = symb, lp_quantity = q\<rparr>
   }"

definition decode_portfolio :: "json \<Rightarrow> live_portfolio option" where
  "decode_portfolio j = do {
     b \<leftarrow> dec_field (lit ''balance'') dec_float 0 j;
     ps \<leftarrow> dec_field (lit ''positions'') (dec_list \<lparr>lp_symbol = [], lp_quantity = 0\<rparr> decode_position) [] j;
     Some \<lparr>lv_balance = b, lv_positions = ps\<rparr>
   }"

definition client_get :: "(json \<Rightarrow> 'a option) \<Rightarrow> json http_exchange \<Rightarrow> insights_err + 'a" where
  \<comment> \<open>\<open>TradingClient.get\<close>\<close>
  "client_get dec ex = (case ex of
     ReqFailed \<Rightarrow> Inl insights_err.ErrUpstreamUnavailable
   | NoAnswer \<Rightarrow> Inl insights_err.ErrUpstreamUnavailable
   | Answer status body \<Rightarrow>
       if status = 200 then (case Option.bind body dec of None \<Rightarrow> Inl insights_err.ErrUpstreamUnavailable | Some v \<Rightarrow> Inr v)
       else if status = 401 \<or> status = 403 then Inl ErrUnauthorized
       else Inl insights_err.ErrUpstreamUnavailable)"

definition tradeLimit :: gostr where "tradeLimit = lit ''10000''"

definition insights_trades :: "json http_exchange \<Rightarrow> insights_err + ai_trade list" where
  "insights_trades = client_get (dec_field (lit ''trades'') (dec_list zero_trade decode_trade) [])"

definition insights_portfolio :: "json http_exchange \<Rightarrow> insights_err + live_portfolio" where
  "insights_portfolio = client_get decode_portfolio"

end
