(* ===== verification/MarketFacts.thy ===== *)
theory MarketFacts
  imports MarketData
begin

text \<open>
  The bars table is a map from a symbol, a timeframe and an instant to a bar, and an upsert is a
  map update; a history is the end of the symbol's ascending bars; the paging loop returns when a
  final page arrives and only then; a cached price was written by a poll within the TTL.
\<close>

section \<open>The table as a map\<close>

definition bar_key :: "mkt_bar \<Rightarrow> gostr \<times> gostr \<times> instant" where
  "bar_key b = (mb_symbol b, mb_timeframe b, mb_time b)"

definition bar_map :: "mkt_bar list \<Rightarrow> gostr \<times> gostr \<times> instant \<rightharpoonup> mkt_bar" where
  "bar_map rows = map_of (map (\<lambda>b. (bar_key b, b)) rows)"

definition unique_bars :: "mkt_bar list \<Rightarrow> bool" where
  "unique_bars rows \<longleftrightarrow> distinct (map bar_key rows)"

lemma same_bar_key: "same_bar a b \<longleftrightarrow> bar_key a = bar_key b"
  by (auto simp: same_bar_def bar_key_def)

lemma upsert_row_map: "bar_map (upsert_row b rows) = (bar_map rows)(bar_key b \<mapsto> b)"
  by (induction rows) (auto simp: bar_map_def same_bar_key fun_upd_twist)

lemma upsert_row_keys: "bar_key ` set (upsert_row b rows) = insert (bar_key b) (bar_key ` set rows)"
  by (induction rows) (auto simp: same_bar_key)

lemma upsert_row_unique: "unique_bars rows \<Longrightarrow> unique_bars (upsert_row b rows)"
proof (induction rows)
  case (Cons r rows)
  then show ?case using upsert_row_keys [of b rows] by (auto simp: unique_bars_def same_bar_key)
qed (simp add: unique_bars_def)

lemma upsert_rows_map: "bar_map (upsert_rows bars rows) = bar_map rows ++ map_of (rev (map (\<lambda>b. (bar_key b, b)) bars))"
  by (induction bars arbitrary: rows) (simp_all add: upsert_rows_def upsert_row_map map_add_upd_left [symmetric] map_add_assoc del: map_add_upd_left)

lemma upsert_rows_unique: "unique_bars rows \<Longrightarrow> unique_bars (upsert_rows bars rows)"
  unfolding upsert_rows_def by (rule foldl_invariant) (auto intro: upsert_row_unique)

lemma bar_map_set: "unique_bars rows \<Longrightarrow> bar_map rows k = Some b \<longleftrightarrow> b \<in> set rows \<and> bar_key b = k"
  by (auto simp: bar_map_def unique_bars_def map_of_eq_Some_iff comp_def)

section \<open>Ingestion\<close>

text \<open>What a symbol writes depends on the request and the environment only.\<close>

lemma UpsertBars_effect:
  "\<exists>ok n. \<forall>rows. fst (UpsertBars pg batch bars rows) = ok \<and> bar_map (snd (UpsertBars pg batch bars rows)) = bar_map rows ++ n
    \<and> (unique_bars rows \<longrightarrow> unique_bars (snd (UpsertBars pg batch bars rows)))"
proof (cases "bars = []")
  case True
  then show ?thesis by (auto simp: UpsertBars_def intro!: exI [of _ Map.empty])
next
  case False
  show ?thesis
  proof (cases "those (map (stored_bar pg) bars)")
    case None
    then show ?thesis using False by (auto simp: UpsertBars_def intro!: exI [of _ Map.empty])
  next
    case (Some stored)
    show ?thesis
    proof (cases batch)
      case BatchFailed
      then show ?thesis using False Some by (auto simp: UpsertBars_def intro!: exI [of _ Map.empty])
    qed (use False Some in \<open>auto simp: UpsertBars_def upsert_rows_map upsert_rows_unique
        intro!: exI [of _ "map_of (rev (map (\<lambda>b. (bar_key b, b)) stored))"]\<close>)
  qed
qed

definition writes :: "(mkt_bar list \<Rightarrow> ('a \<times> mkt_bar list) option) \<Rightarrow> bool" where
  \<comment> \<open>the answer does not depend on the table, which is overridden by a fixed set of bars\<close>
  "writes f \<longleftrightarrow> (\<forall>rows. f rows = None) \<or> (\<exists>r n. \<forall>rows. \<exists>rows'. f rows = Some (r, rows') \<and> bar_map rows' = bar_map rows ++ n
     \<and> (unique_bars rows \<longrightarrow> unique_bars rows'))"

lemma writes_const [intro]: "writes (\<lambda>rows. Some (r, rows))"
  unfolding writes_def by (rule disjI2) (auto intro!: exI [of _ Map.empty])

lemma ingest_symbol_writes: "writes (ingest_symbol env start stop i raw)"
proof -
  let ?s = "to_upper (ie_upper env) (trim_space raw)"
  consider "\<not> symbolPattern ?s" | "symbolPattern ?s" "ie_bars env i ?s Timeframe start stop = None"
    | e where "symbolPattern ?s" "ie_bars env i ?s Timeframe start stop = Some (Inl e)"
    | bars where "symbolPattern ?s" "ie_bars env i ?s Timeframe start stop = Some (Inr bars)"
    by (metis option.exhaust sum.exhaust)
  then show ?thesis
  proof cases
    case 4
    obtain ok n where u: "\<And>rows. fst (UpsertBars (ie_pg env) (ie_batch env i) (map (bar_of_alpaca ?s) bars) rows) = ok"
      "\<And>rows. bar_map (snd (UpsertBars (ie_pg env) (ie_batch env i) (map (bar_of_alpaca ?s) bars) rows)) = bar_map rows ++ n"
      "\<And>rows. unique_bars rows \<Longrightarrow> unique_bars (snd (UpsertBars (ie_pg env) (ie_batch env i) (map (bar_of_alpaca ?s) bars) rows))"
      using UpsertBars_effect [of "ie_pg env" "ie_batch env i" "map (bar_of_alpaca ?s) bars"] by blast
    have "\<exists>rows'. ingest_symbol env start stop i raw rows =
        Some (\<lparr>ir_symbol = ?s, ir_bars = (if ok then int (length bars) else 0), ir_error = (if ok then None else Some ErrStore)\<rparr>, rows')
        \<and> bar_map rows' = bar_map rows ++ n \<and> (unique_bars rows \<longrightarrow> unique_bars rows')" for rows
      using 4 u(1) [of rows] u(2) [of rows] u(3) [of rows]
      by (cases "UpsertBars (ie_pg env) (ie_batch env i) (map (bar_of_alpaca ?s) bars) rows")
        (auto simp: ingest_symbol_def Let_def split: bool.split)
    then show ?thesis unfolding writes_def by blast
  qed (auto simp: ingest_symbol_def Let_def writes_def intro!: exI [of _ Map.empty])
qed

lemma ingest_loop_writes: "writes (ingest_loop env start stop i raws results)"
proof (induction raws arbitrary: i results)
  case Nil
  have "ingest_loop env start stop i [] results = (\<lambda>rows. Some (results, rows))" by (simp add: fun_eq_iff)
  then show ?case by (simp add: writes_const)
next
  case (Cons raw raws)
  note s = ingest_symbol_writes [of env start stop i raw]
  show ?case
  proof (cases "\<forall>rows. ingest_symbol env start stop i raw rows = None")
    case True
    then show ?thesis by (simp add: writes_def)
  next
    case False
    then obtain r n where r: "\<And>rows. \<exists>rows'. ingest_symbol env start stop i raw rows = Some (r, rows')
        \<and> bar_map rows' = bar_map rows ++ n \<and> (unique_bars rows \<longrightarrow> unique_bars rows')"
      using s unfolding writes_def by blast
    from Cons [of "i + 1" "results @ [r]", unfolded writes_def] show ?thesis
    proof
      assume "\<forall>rows. ingest_loop env start stop (i + 1) raws (results @ [r]) rows = None"
      then have "ingest_loop env start stop i (raw # raws) results rows = None" for rows
        using r [of rows] by auto
      then show ?thesis unfolding writes_def by blast
    next
      assume "\<exists>r' n'. \<forall>rows. \<exists>rows'. ingest_loop env start stop (i + 1) raws (results @ [r]) rows = Some (r', rows')
        \<and> bar_map rows' = bar_map rows ++ n' \<and> (unique_bars rows \<longrightarrow> unique_bars rows')"
      then obtain r' n' where l: "\<And>rows. \<exists>rows'. ingest_loop env start stop (i + 1) raws (results @ [r]) rows = Some (r', rows')
        \<and> bar_map rows' = bar_map rows ++ n' \<and> (unique_bars rows \<longrightarrow> unique_bars rows')" by blast
      have "\<exists>rows'. ingest_loop env start stop i (raw # raws) results rows = Some (r', rows')
        \<and> bar_map rows' = bar_map rows ++ (n ++ n') \<and> (unique_bars rows \<longrightarrow> unique_bars rows')" for rows
      proof -
        obtain rows1 where 1: "ingest_symbol env start stop i raw rows = Some (r, rows1)" "bar_map rows1 = bar_map rows ++ n"
          "unique_bars rows \<longrightarrow> unique_bars rows1" using r [of rows] by blast
        then show ?thesis using l [of rows1] by auto
      qed
      then show ?thesis unfolding writes_def by blast
    qed
  qed
qed

lemma Ingest_writes: "writes (Ingest env req)"
proof (cases "resolveDateRange (ie_now env) req")
  case (Inl e)
  then have "Ingest env req = (\<lambda>rows. Some (Inl e, rows))" by (simp add: fun_eq_iff Ingest_def Let_def)
  then show ?thesis by (simp add: writes_const)
next
  case (Inr p)
  obtain start stop where p: "p = (start, stop)" by (cases p)
  let ?s = "if length (ig_symbols req) = 0 then DefaultWatchlist else ig_symbols req"
  from ingest_loop_writes [of env start stop 0 ?s "[]", unfolded writes_def] show ?thesis
  proof
    assume "\<forall>rows. ingest_loop env start stop 0 ?s [] rows = None"
    then have "Ingest env req rows = None" for rows
      using Inr p by (simp add: Ingest_def Let_def)
    then show ?thesis by (simp add: writes_def)
  next
    assume "\<exists>r n. \<forall>rows. \<exists>rows'. ingest_loop env start stop 0 ?s [] rows = Some (r, rows')
      \<and> bar_map rows' = bar_map rows ++ n \<and> (unique_bars rows \<longrightarrow> unique_bars rows')"
    then obtain r n where l: "\<And>rows. \<exists>rows'. ingest_loop env start stop 0 ?s [] rows = Some (r, rows')
      \<and> bar_map rows' = bar_map rows ++ n \<and> (unique_bars rows \<longrightarrow> unique_bars rows')" by blast
    let ?r = "if length ?s > 0 \<and> length (filter (\<lambda>r. ir_error r = Some ErrUpstreamUnavailable) r) = length ?s
      then Inl ErrUpstreamUnavailable else Inr r"
    have "\<exists>rows'. Ingest env req rows = Some (?r, rows') \<and> bar_map rows' = bar_map rows ++ n
        \<and> (unique_bars rows \<longrightarrow> unique_bars rows')" for rows
      using l [of rows] Inr p by (auto simp: Ingest_def Let_def)
    then show ?thesis unfolding writes_def by blast
  qed
qed

section \<open>Histories\<close>

lemma sort_key_rev:
  fixes f :: "'a \<Rightarrow> int"
  assumes "distinct (map f xs)"
  shows "sort_key (\<lambda>x. - f x) xs = rev (sort_key f xs)"
proof -
  have i: "inj_on f (set xs)" using assms by (simp add: distinct_map)
  have d: "distinct (map (\<lambda>x. - f x) xs)" using assms by (simp add: distinct_map inj_on_def)
  have s: "sorted (map (\<lambda>x. - f x) (rev (sort_key f xs)))"
    using sorted_sort_key [of f xs] by (simp add: sorted_wrt_rev sorted_wrt_map rev_map [symmetric] del: sorted_sort_key)
  have "distinct (map (\<lambda>x. - f x) (sort_key (\<lambda>x. - f x) xs))" "distinct (map (\<lambda>x. - f x) (rev (sort_key f xs)))"
    using d by (simp_all add: distinct_map)
  then have "map (\<lambda>x. - f x) (sort_key (\<lambda>x. - f x) xs) = map (\<lambda>x. - f x) (rev (sort_key f xs))"
    by (intro sorted_distinct_set_unique s) simp_all
  then show ?thesis
    by (rule map_inj_on) (use i in \<open>simp add: inj_on_def\<close>)
qed

definition bars_of :: "gostr \<Rightarrow> mkt_bar list \<Rightarrow> mkt_bar list" where
  \<comment> \<open>all bars of a symbol, oldest first\<close>
  "bars_of symb rows = sort_key mb_time (filter (\<lambda>b. mb_symbol b = symb \<and> mb_timeframe b = Timeframe) rows)"

lemma unique_times:
  assumes "unique_bars rows"
  shows "distinct (map mb_time (filter (\<lambda>b. mb_symbol b = symb \<and> mb_timeframe b = tf) rows))"
proof -
  have "distinct (map bar_key (filter (\<lambda>b. mb_symbol b = symb \<and> mb_timeframe b = tf) rows))"
    using assms unfolding unique_bars_def by (rule distinct_map_filter)
  then show ?thesis by (auto simp: distinct_map inj_on_def bar_key_def)
qed

lemma bars_of_strict: "unique_bars rows \<Longrightarrow> sorted_wrt (<) (map mb_time (bars_of symb rows))"
  using unique_times [of rows symb Timeframe] unfolding bars_of_def strict_sorted_iff
  by (simp add: distinct_map)

lemma GetHistory_latest:
  assumes "unique_bars rows" "0 \<le> limit"
  shows "GetHistory False symb Timeframe limit rows =
    Inr (drop (length (bars_of symb rows) - nat limit) (bars_of symb rows))"
  using sort_key_rev [OF unique_times [OF assms(1), of symb Timeframe]]
  by (simp add: GetHistory_def bars_of_def take_rev)

lemma set_bars_of: "unique_bars rows \<Longrightarrow>
    set (bars_of symb rows) = {b. bar_map rows (bar_key b) = Some b \<and> mb_symbol b = symb \<and> mb_timeframe b = Timeframe}"
  by (auto simp: bars_of_def bar_map_set)

section \<open>Paging\<close>

definition page_token :: "json http_exchange \<Rightarrow> gostr" where
  "page_token ex = (case fetchBarsPage ex of Inl _ \<Rightarrow> [] | Inr (_, token) \<Rightarrow> token)"

fun nth_query :: "bars_server \<Rightarrow> nat \<Rightarrow> bars_query \<Rightarrow> nat \<Rightarrow> bars_query" where
  \<comment> \<open>the request after \<open>n\<close> more pages, each asking for the page the one before announced\<close>
  "nth_query server i q 0 = q"
| "nth_query server i q (Suc n) = nth_query server (i + 1) (q\<lparr>bq_token := page_token (server i q)\<rparr>) n"

definition nth_answer :: "bars_server \<Rightarrow> nat \<Rightarrow> bars_query \<Rightarrow> nat \<Rightarrow> json http_exchange" where
  "nth_answer server i q n = server (i + n) (nth_query server i q n)"

definition page_bars :: "json http_exchange \<Rightarrow> alpaca_bar list" where
  "page_bars ex = (case fetchBarsPage ex of Inl _ \<Rightarrow> [] | Inr (bars, _) \<Rightarrow> bars)"

lemma nth_answer_Suc: "nth_answer server i q (Suc n) = nth_answer server (Suc i) (q\<lparr>bq_token := page_token (server i q)\<rparr>) n"
  by (simp add: nth_answer_def)

lemma nth_answer_0: "nth_answer server i q 0 = server i q"
  by (simp add: nth_answer_def)

definition drained :: "bars_server \<Rightarrow> nat \<Rightarrow> bars_query \<Rightarrow> alpaca_bar list \<Rightarrow> nat \<Rightarrow> alpaca_err + alpaca_bar list" where
  \<comment> \<open>the outcome when request \<open>n\<close> is the last\<close>
  "drained server i q bars n = (case fetchBarsPage (nth_answer server i q n) of
     Inl e \<Rightarrow> Inl e
   | Inr _ \<Rightarrow> Inr (bars @ concat (map (\<lambda>k. page_bars (nth_answer server i q k)) [0..<Suc n])))"

lemma drained_Suc:
  "drained server i q bars (Suc n) =
    drained server (Suc i) (q\<lparr>bq_token := page_token (server i q)\<rparr>) (bars @ page_bars (server i q)) n"
proof -
  have "map (\<lambda>k. page_bars (nth_answer server i q k)) [0..<Suc (Suc n)]
      = page_bars (server i q) # map (\<lambda>k. page_bars (nth_answer server (Suc i) (q\<lparr>bq_token := page_token (server i q)\<rparr>) k)) [0..<Suc n]"
    by (simp only: upt_conv_Cons [of 0 "Suc (Suc n)"] map_Suc_upt [symmetric] list.map zero_less_Suc map_map comp_def nth_answer_Suc nth_answer_0)
  then have "concat (map (\<lambda>k. page_bars (nth_answer server i q k)) [0..<Suc (Suc n)]) = page_bars (server i q)
      @ concat (map (\<lambda>k. page_bars (nth_answer server (Suc i) (q\<lparr>bq_token := page_token (server i q)\<rparr>) k)) [0..<Suc n])"
    by (simp only: concat.simps)
  then show ?thesis by (simp add: drained_def nth_answer_Suc del: upt_Suc cong: sum.case_cong)
qed

lemma drain_final:
  assumes "page_token (nth_answer server i q n) = []" "\<And>k. k < n \<Longrightarrow> page_token (nth_answer server i q k) \<noteq> []"
  shows "drain server q i bars = Some (drained server i q bars n)"
  using assms
proof (induction n arbitrary: i q bars)
  case 0
  then show ?case
    by (subst drain.simps) (auto simp: drained_def nth_answer_0 page_token_def page_bars_def split: sum.splits)
next
  case (Suc n)
  have t: "page_token (server i q) \<noteq> []" using Suc.prems(2) [of 0] by (simp add: nth_answer_0)
  then obtain page token where p: "fetchBarsPage (server i q) = Inr (page, token)" "token \<noteq> []" "page_token (server i q) = token"
    by (auto simp: page_token_def split: sum.splits)
  have "drain server (q\<lparr>bq_token := token\<rparr>) (Suc i) (bars @ page) = Some (drained server (Suc i) (q\<lparr>bq_token := token\<rparr>) (bars @ page) n)"
  proof (rule Suc.IH)
    show "page_token (nth_answer server (Suc i) (q\<lparr>bq_token := token\<rparr>) n) = []"
      using Suc.prems(1) unfolding nth_answer_Suc p(3) .
    show "page_token (nth_answer server (Suc i) (q\<lparr>bq_token := token\<rparr>) k) \<noteq> []" if "k < n" for k
      using Suc.prems(2) [of "Suc k"] that unfolding nth_answer_Suc p(3) by simp
  qed
  then show ?case
    using p by (subst drain.simps) (simp add: drained_Suc page_bars_def)
qed

lemma drain_returns:
  assumes "drain server q i bars = Some r"
  shows "\<exists>n. page_token (nth_answer server i q n) = []"
proof (rule drain.raw_induct [OF _ assms, of "\<lambda>server q i bars r. \<exists>n. page_token (nth_answer server i q n) = []"])
  fix drain server q i bars r
  assume IH: "\<And>server q i bars r. drain server q i bars = Some r \<Longrightarrow> \<exists>n. page_token (nth_answer server i q n) = []"
    and d: "(case fetchBarsPage (server i q) of Inl e \<Rightarrow> Some (Inl e)
      | Inr (page, token) \<Rightarrow> if token = [] then Some (Inr (bars @ page)) else drain server (q\<lparr>bq_token := token\<rparr>) (i + 1) (bars @ page)) = Some r"
  show "\<exists>n. page_token (nth_answer server i q n) = []"
  proof (cases "page_token (server i q) = []")
    case True
    then show ?thesis by (auto simp: nth_answer_0 intro!: exI [of _ 0])
  next
    case False
    then obtain page token where p: "fetchBarsPage (server i q) = Inr (page, token)" "token \<noteq> []" "page_token (server i q) = token"
      by (auto simp: page_token_def split: sum.splits)
    then have "drain server (q\<lparr>bq_token := token\<rparr>) (Suc i) (bars @ page) = Some r" using d by simp
    then obtain n where "page_token (nth_answer server (Suc i) (q\<lparr>bq_token := token\<rparr>) n) = []" using IH by blast
    then show ?thesis using p by (auto simp: nth_answer_Suc intro!: exI [of _ "Suc n"])
  qed
qed

end
