(* ===== verification/WireFacts.thy ===== *)
theory WireFacts
  imports Wire MarketFacts GoJSONFacts
begin

text \<open>
  What one service writes the other reads: prices, histories, trades and portfolios survive the
  JSON between them; and the provenance of a cached price.
\<close>

section \<open>Scalars\<close>

lemma enc_float_fin: "enc_float x = Some j \<Longrightarrow> fin x \<and> j \<noteq> JNull"
  by (cases x) (auto simp: Let_def split: if_splits prod.splits)

lemma enc_float_dec: "enc_float x = Some j \<Longrightarrow> wf64 x \<Longrightarrow> dec_float j = Some x"
  using enc_float_fin [of x j] enc_float_reads_back [of x] by auto

lemma enc_float_some: "fin x \<Longrightarrow> wf64 x \<Longrightarrow> enc_float x \<noteq> None"
  using enc_float_reads_back [of x] by auto

lemma json_time_parse: "json_time t = Some s \<Longrightarrow> parse_rfc3339 s = Some t"
  using parse_format_rfc3339nano [of t] by (auto simp: json_time_def split: prod.splits if_splits)

lemma dec_time_JStr: "json_time t = Some s \<Longrightarrow> dec_time (JStr s) = Some t"
  by (simp add: dec_time_def json_time_parse)

lemma dec_string_JStr [simp]: "dec_string (JStr s) = Some s"
  by (simp add: dec_string_def)

lemma names_field_refl [simp]: "names_field f f"
  by (simp add: names_field_def)

lemma dec_field_Nil: "dec_field f d z (JObj []) = Some z"
  by (simp add: dec_field_def)

text \<open>A member of another name is skipped; a member of the field's name that is the only one
  of it is the value.\<close>

lemma dec_field_miss: "\<not> names_field f k \<Longrightarrow> dec_field f d z (JObj ((k, v) # ms)) = dec_field f d z (JObj ms)"
  by (simp add: dec_field_def dec_member_def)

lemma foldl_miss:
  "list_all (\<lambda>(k, v). \<not> names_field f k) ms \<Longrightarrow> foldl (dec_member f d) (Some z) ms = Some z"
  by (induction ms) (auto simp: dec_member_def)

lemma dec_field_hit:
  "names_field f k \<Longrightarrow> v \<noteq> JNull \<Longrightarrow> d v = Some x \<Longrightarrow> list_all (\<lambda>(k, v). \<not> names_field f k) ms \<Longrightarrow>
   dec_field f d z (JObj ((k, v) # ms)) = Some x"
  using foldl_miss [of f ms d x] by (simp add: dec_field_def) (simp add: dec_member_def)

lemmas field_calc = dec_field_miss dec_field_hit

text \<open>Field names in lower case fold apart.\<close>

definition plain_name :: "string \<Rightarrow> bool" where
  "plain_name s \<longleftrightarrow> list_all (\<lambda>c. let n = of_char c :: nat in 97 \<le> n \<and> n \<le> 122 \<or> n = 95) s"

lemma fold_rune_inj: "97 \<le> a \<and> a \<le> 122 \<or> a = 95 \<Longrightarrow> 97 \<le> b \<and> b \<le> 122 \<or> b = 95 \<Longrightarrow> fold_rune a = fold_rune b \<longleftrightarrow> a = b"
  by (auto simp: fold_rune_def)

lemma names_field_lit: "plain_name a \<Longrightarrow> plain_name b \<Longrightarrow> names_field (lit a) (lit b) \<longleftrightarrow> a = b"
proof (induction a arbitrary: b)
  case Nil
  then show ?case by (auto simp: names_field_def lit_def)
next
  case (Cons c a)
  show ?case
  proof (cases b)
    case (Cons d b')
    then show ?thesis
      using Cons.IH [of b'] Cons.prems fold_rune_inj [of "of_char c" "of_char d"]
      by (auto simp: names_field_def lit_def plain_name_def Let_def)
  qed (simp add: names_field_def lit_def)
qed

lemmas name_lits = names_field_lit plain_name_def

lemma dec_pointer_miss: "\<not> names_field f k \<Longrightarrow> dec_pointer f d (JObj ((k, v) # ms)) = dec_pointer f d (JObj ms)"
  by (simp add: dec_pointer_def)

lemma foldl_pointer_miss:
  "list_all (\<lambda>(k, v). \<not> names_field f k) ms \<Longrightarrow>
   foldl (\<lambda>acc (k, v). case acc of None \<Rightarrow> None
       | Some x \<Rightarrow> if \<not> names_field f k then Some x else if v = JNull then Some None else map_option Some (d v)) (Some z) ms = Some z"
  by (induction ms) auto

lemma dec_pointer_hit:
  "names_field f k \<Longrightarrow> list_all (\<lambda>(k, v). \<not> names_field f k) ms \<Longrightarrow>
   (if v = JNull then x = None else map_option Some (d v) = Some x) \<Longrightarrow> dec_pointer f d (JObj ((k, v) # ms)) = Some x"
  by (simp add: dec_pointer_def foldl_pointer_miss split: if_splits)

lemma enc_optional_dec:
  "enc_optional v = Some j \<Longrightarrow> (case v of None \<Rightarrow> True | Some x \<Rightarrow> wf64 x) \<Longrightarrow>
   if j = JNull then v = None else map_option Some (dec_float j) = Some v"
  by (cases v) (auto simp: enc_optional_def enc_float_dec dest: enc_float_fin)

section \<open>Lists\<close>

lemma those_map_Some: "those (map f xs) = Some ys \<longleftrightarrow> list_all2 (\<lambda>x y. f x = Some y) xs ys"
proof (induction xs arbitrary: ys)
  case (Cons x xs)
  then show ?case by (cases ys) (auto split: option.splits)
qed auto

lemma dec_list_encoded:
  assumes "those (map enc xs) = Some js" "\<And>x j. x \<in> set xs \<Longrightarrow> enc x = Some j \<Longrightarrow> j \<noteq> JNull \<and> dec j = Some (g x)"
  shows "dec_list z dec (JArr js) = Some (map g xs)"
proof -
  have "list_all2 (\<lambda>j y. dec_elem z dec j = Some y) js (map g xs)"
    using assms(1) assms(2) unfolding those_map_Some
  proof (induction xs arbitrary: js)
    case (Cons x xs)
    then obtain j js' where j: "js = j # js'" "enc x = Some j" "list_all2 (\<lambda>x y. enc x = Some y) xs js'"
      by (auto simp: list_all2_Cons1)
    then have "dec_elem z dec j = Some (g x)" using Cons.prems(2) [of x j] by (simp add: dec_elem_def)
    moreover have "list_all2 (\<lambda>j y. dec_elem z dec j = Some y) js' (map g xs)"
      by (rule Cons.IH [OF j(3)]) (rule Cons.prems(2); simp)
    ultimately show ?case using j by simp
  qed simp
  then show ?thesis by (simp add: dec_list_def those_map_Some)
qed

lemma those_map_member: "those (map f xs) = Some ys \<Longrightarrow> y \<in> set ys \<Longrightarrow> \<exists>x \<in> set xs. f x = Some y"
  by (auto simp: those_map_Some list_all2_conv_all_nth in_set_conv_nth) (metis nth_mem)

section \<open>Prices\<close>

lemma price_roundtrip:
  assumes "encode_price p = Some j" "wf64 (mp_price p)"
  shows "decode_price j = Some p" "dec_field (lit ''price'') dec_float z j = Some (mp_price p)"
proof -
  obtain v t where v: "enc_float (mp_price p) = Some v" "json_time (mp_time p) = Some t"
    "j = JObj [(lit ''symbol'', JStr (mp_symbol p)), (lit ''price'', v), (lit ''timestamp'', JStr t)]"
    using assms(1) by (auto simp: encode_price_def split: bind_splits)
  have n: "v \<noteq> JNull" "dec_float v = Some (mp_price p)" "dec_time (JStr t) = Some (mp_time p)"
    using v assms(2) enc_float_fin enc_float_dec dec_time_JStr by blast+
  show "dec_field (lit ''price'') dec_float z j = Some (mp_price p)" for z
    using n by (simp add: v(3) field_calc name_lits)
  then show "decode_price j = Some p"
    using n by (simp add: decode_price_def v(3) field_calc name_lits)
qed

section \<open>Histories\<close>

definition bar_of_row :: "mkt_bar \<Rightarrow> bar" where
  "bar_of_row b = \<lparr>Timestamp = mb_time b, Open = mb_open b, High = mb_high b, Low = mb_low b, Close = mb_close b, Volume = mb_volume b\<rparr>"

definition bar_wf :: "mkt_bar \<Rightarrow> bool" where
  \<comment> \<open>the values of a Go struct: floats are floats and the volume is an int64\<close>
  "bar_wf b \<longleftrightarrow> wf64 (mb_open b) \<and> wf64 (mb_high b) \<and> wf64 (mb_low b) \<and> wf64 (mb_close b) \<and> int64 (mb_volume b)"

definition bar_encodable :: "mkt_bar \<Rightarrow> bool" where
  "bar_encodable b \<longleftrightarrow> bar_wf b \<and> fin (mb_open b) \<and> fin (mb_high b) \<and> fin (mb_low b) \<and> fin (mb_close b) \<and> json_time (mb_time b) \<noteq> None"

lemma encode_bar_dec:
  assumes "encode_bar b = Some j" "bar_wf b"
  shows "j \<noteq> JNull \<and> decode_bar j = Some (bar_of_row b)"
proof -
  obtain t op hi lo cl where e: "json_time (mb_time b) = Some t" "enc_float (mb_open b) = Some op"
    "enc_float (mb_high b) = Some hi" "enc_float (mb_low b) = Some lo" "enc_float (mb_close b) = Some cl"
    "j = JObj [(lit ''timestamp'', JStr t), (lit ''open'', op), (lit ''high'', hi), (lit ''low'', lo), (lit ''close'', cl),
       (lit ''volume'', enc_int (mb_volume b))]"
    using assms(1) by (auto simp: encode_bar_def split: bind_splits)
  have n: "op \<noteq> JNull" "hi \<noteq> JNull" "lo \<noteq> JNull" "cl \<noteq> JNull"
    using e enc_float_fin by blast+
  have d: "dec_float op = Some (mb_open b)" "dec_float hi = Some (mb_high b)" "dec_float lo = Some (mb_low b)"
    "dec_float cl = Some (mb_close b)" "dec_time (JStr t) = Some (mb_time b)" "dec_int (enc_int (mb_volume b)) = Some (mb_volume b)"
    using e assms(2) enc_float_dec dec_time_JStr dec_int_enc by (auto simp: bar_wf_def)
  show ?thesis
    using n d by (simp add: e(6) decode_bar_def field_calc name_lits bar_of_row_def)
qed

lemma encode_bar_some: "bar_encodable b \<Longrightarrow> encode_bar b \<noteq> None"
  by (auto simp: bar_encodable_def bar_wf_def encode_bar_def bind_eq_None_conv dest: enc_float_some)

lemma those_map_total: "(\<And>x. x \<in> set xs \<Longrightarrow> f x \<noteq> None) \<Longrightarrow> those (map f xs) \<noteq> None"
proof (induction xs)
  case (Cons x xs)
  then obtain y ys where "f x = Some y" "those (map f xs) = Some ys" by (metis list.set_intros option.exhaust)
  then show ?case by simp
qed simp

lemma history_roundtrip:
  assumes "list_all bar_encodable (hi_bars r)"
  shows "\<exists>j. encode_history r = Some j \<and> decode_history j = Some (map bar_of_row (hi_bars r))"
proof -
  have "those (map encode_bar (hi_bars r)) \<noteq> None"
    using assms by (intro those_map_total encode_bar_some) (simp add: list_all_iff)
  then obtain js where js: "those (map encode_bar (hi_bars r)) = Some js" by auto
  have "dec_list z decode_bar (JArr js) = Some (map bar_of_row (hi_bars r))" for z
    using js by (rule dec_list_encoded) (use assms encode_bar_dec in \<open>auto simp: list_all_iff bar_encodable_def\<close>)
  then show ?thesis
    by (simp add: encode_history_def js decode_history_def field_calc name_lits)
qed

section \<open>Trades and portfolios\<close>

definition ai_trade_of :: "(uuid \<Rightarrow> gostr) \<Rightarrow> trade \<Rightarrow> ai_trade" where
  "ai_trade_of ut t = \<lparr>it_id = ut (t_id t), it_symbol = t_symbol t, it_side = t_side t, it_quantity = t_quantity t,
     it_price = t_price t, it_realized_pl = t_realized_pl t, it_executed_at = unix_epoch + t_executed_at t\<rparr>"

definition float_ok :: "f64 \<Rightarrow> bool" where
  \<comment> \<open>a finite float\<close>
  "float_ok x \<longleftrightarrow> fin x \<and> wf64 x"

definition trade_encodable :: "trade \<Rightarrow> bool" where
  "trade_encodable t \<longleftrightarrow> float_ok (t_quantity t) \<and> float_ok (t_price t) \<and> (case t_realized_pl t of None \<Rightarrow> True | Some x \<Rightarrow> float_ok x)
     \<and> json_time (unix_epoch + t_executed_at t) \<noteq> None"

lemma float_encodes: "float_ok x \<Longrightarrow> \<exists>j. enc_float x = Some j \<and> j \<noteq> JNull \<and> dec_float j = Some x"
  using enc_float_some [of x] enc_float_dec [of x] enc_float_fin [of x] by (auto simp: float_ok_def)

lemma optional_encodes:
  assumes "case v of None \<Rightarrow> True | Some x \<Rightarrow> float_ok x"
  shows "\<exists>j. enc_optional v = Some j \<and> (if j = JNull then v = None else map_option Some (dec_float j) = Some v)"
proof (cases v)
  case None
  then show ?thesis by (simp add: enc_optional_def)
next
  case (Some x)
  then obtain j where "enc_float x = Some j" "j \<noteq> JNull" "dec_float j = Some x" using assms float_encodes by auto
  then show ?thesis using Some by (auto simp: enc_optional_def)
qed

lemma trade_roundtrip:
  assumes "trade_encodable t"
  shows "\<exists>j. encode_trade ut t = Some j \<and> j \<noteq> JNull \<and> decode_trade j = Some (ai_trade_of ut t)"
proof -
  obtain q p where q: "enc_float (t_quantity t) = Some q" "q \<noteq> JNull" "dec_float q = Some (t_quantity t)"
    and p: "enc_float (t_price t) = Some p" "p \<noteq> JNull" "dec_float p = Some (t_price t)"
    using assms float_encodes unfolding trade_encodable_def by blast
  obtain pl where pl: "enc_optional (t_realized_pl t) = Some pl"
    "if pl = JNull then t_realized_pl t = None else map_option Some (dec_float pl) = Some (t_realized_pl t)"
    using assms optional_encodes unfolding trade_encodable_def by blast
  obtain s where s: "json_time (unix_epoch + t_executed_at t) = Some s" using assms by (auto simp: trade_encodable_def)
  let ?j = "JObj [(lit ''id'', JStr (ut (t_id t))), (lit ''order_id'', JStr (ut (t_order_id t))),
       (lit ''symbol'', JStr (t_symbol t)), (lit ''side'', JStr (t_side t)), (lit ''quantity'', q), (lit ''price'', p),
       (lit ''realized_pl'', pl), (lit ''executed_at'', JStr s)]"
  have "encode_trade ut t = Some ?j" by (simp add: encode_trade_def q p pl s)
  moreover have "decode_trade ?j = Some (ai_trade_of ut t)"
    using q p dec_time_JStr [OF s] dec_pointer_hit [where f = "lit ''realized_pl''" and k = "lit ''realized_pl''" and v = pl and d = dec_float and x = "t_realized_pl t"] pl(2)
    by (simp add: decode_trade_def field_calc dec_pointer_miss name_lits ai_trade_of_def)
  ultimately show ?thesis by blast
qed

lemma encoded_list:
  assumes "\<And>x. x \<in> set xs \<Longrightarrow> \<exists>j. enc x = Some j \<and> j \<noteq> JNull \<and> dec j = Some (g x)"
  shows "\<exists>js. those (map enc xs) = Some js \<and> (\<forall>z. dec_list z dec (JArr js) = Some (map g xs))"
proof -
  have "those (map enc xs) \<noteq> None" using assms by (intro those_map_total) fastforce
  then obtain js where js: "those (map enc xs) = Some js" by auto
  have "dec_list z dec (JArr js) = Some (map g xs)" for z
    using js by (rule dec_list_encoded) (use assms in fastforce)
  then show ?thesis using js by blast
qed

lemma trades_roundtrip:
  assumes "list_all trade_encodable ts"
  shows "insights_trades (wire (encode_trades ut) (Reply 200 ts)) = Inr (map (ai_trade_of ut) ts)"
proof -
  obtain js where "those (map (encode_trade ut) ts) = Some js"
    "\<And>z. dec_list z decode_trade (JArr js) = Some (map (ai_trade_of ut) ts)"
    using encoded_list [of ts "encode_trade ut" decode_trade "ai_trade_of ut"] assms trade_roundtrip
    by (auto simp: list_all_iff)
  then show ?thesis
    by (simp add: insights_trades_def client_get_def wire_def encode_trades_def field_calc)
qed

definition live_position_of :: "position \<Rightarrow> live_position" where
  "live_position_of p = \<lparr>lp_symbol = p_symbol p, lp_quantity = p_quantity p\<rparr>"

definition position_encodable :: "position \<Rightarrow> bool" where
  "position_encodable p \<longleftrightarrow> float_ok (p_quantity p) \<and> float_ok (p_avg_cost p) \<and> float_ok (p_unrealized_pl p)
     \<and> (case p_latest_price p of None \<Rightarrow> True | Some x \<Rightarrow> float_ok x)"

lemma position_roundtrip:
  assumes "position_encodable p"
  shows "\<exists>j. encode_position p = Some j \<and> j \<noteq> JNull \<and> decode_position j = Some (live_position_of p)"
proof -
  obtain q c u where q: "enc_float (p_quantity p) = Some q" "q \<noteq> JNull" "dec_float q = Some (p_quantity p)"
    and c: "enc_float (p_avg_cost p) = Some c" and u: "enc_float (p_unrealized_pl p) = Some u"
    using float_encodes [of "p_quantity p"] float_encodes [of "p_avg_cost p"] float_encodes [of "p_unrealized_pl p"] assms
    unfolding position_encodable_def by (elim conjE) blast
  obtain l where l: "enc_optional (p_latest_price p) = Some l"
    using optional_encodes [of "p_latest_price p"] assms unfolding position_encodable_def by (elim conjE) blast
  let ?j = "JObj [(lit ''symbol'', JStr (p_symbol p)), (lit ''quantity'', q), (lit ''avg_cost'', c), (lit ''latest_price'', l),
       (lit ''unrealized_pl'', u)]"
  have "encode_position p = Some ?j" by (simp add: encode_position_def q c u l)
  moreover have "decode_position ?j = Some (live_position_of p)"
    using q by (simp add: decode_position_def field_calc name_lits live_position_of_def)
  ultimately show ?thesis by blast
qed

definition portfolio_encodable :: "portfolio_response \<Rightarrow> bool" where
  "portfolio_encodable r \<longleftrightarrow> float_ok (pf_balance r) \<and> list_all position_encodable (pf_positions r)
     \<and> float_ok (pf_total_equity r) \<and> float_ok (pf_total_unrealized_pl r)"

lemma portfolio_roundtrip:
  assumes "portfolio_encodable r"
  shows "insights_portfolio (wire encode_portfolio (Reply 200 r)) =
    Inr \<lparr>lv_balance = pf_balance r, lv_positions = map live_position_of (pf_positions r)\<rparr>"
proof -
  obtain b e u where b: "enc_float (pf_balance r) = Some b" "b \<noteq> JNull" "dec_float b = Some (pf_balance r)"
    and e: "enc_float (pf_total_equity r) = Some e" and u: "enc_float (pf_total_unrealized_pl r) = Some u"
    using float_encodes [of "pf_balance r"] float_encodes [of "pf_total_equity r"] float_encodes [of "pf_total_unrealized_pl r"] assms
    unfolding portfolio_encodable_def by (elim conjE) blast
  obtain js where js: "those (map encode_position (pf_positions r)) = Some js"
    "\<And>z. dec_list z decode_position (JArr js) = Some (map live_position_of (pf_positions r))"
    using encoded_list [of "pf_positions r" encode_position decode_position live_position_of] assms position_roundtrip
    by (auto simp: list_all_iff portfolio_encodable_def)
  show ?thesis
    using b js(2)
    by (simp add: insights_portfolio_def client_get_def wire_def encode_portfolio_def e u js(1) decode_portfolio_def field_calc name_lits)
qed

section \<open>Where a price comes from\<close>

definition polled :: "gostr list \<Rightarrow> tick list \<Rightarrow> gostr \<Rightarrow> f64 \<Rightarrow> instant \<Rightarrow> bool" where
  \<comment> \<open>a tick wrote at \<open>t\<close> the price of the latest trade its snapshot had for the symbol\<close>
  "polled symbols tks symb p t \<longleftrightarrow> (\<exists>tk \<in> set tks. \<exists>i snaps ts. i < length symbols \<and> symbols ! i = symb
     \<and> GetSnapshots (tk_answer tk) = Inr snaps \<and> map_of snaps symb = Some (Some (p, ts)) \<and> tk_now tk i = t)"

definition traced :: "gostr list \<Rightarrow> tick list \<Rightarrow> price_redis \<Rightarrow> bool" where
  "traced symbols tks rd \<longleftrightarrow> (\<forall>symb j e. pr_entries rd (priceKey symb) = Some (j, e) \<longrightarrow>
     (\<exists>p ts t. polled symbols tks symb p t \<and> e = t + PriceTTL \<and> wf64 p
        \<and> encode_price \<lparr>mp_symbol = symb, mp_price = p, mp_time = ts\<rparr> = Some j))"

lemma priceKey_inj: "priceKey a = priceKey b \<longleftrightarrow> a = b"
  by (simp add: priceKey_def)

lemma dec_pointer_inv:
  assumes "dec_pointer f d j = Some (Some x)" "\<And>v x. d v = Some x \<Longrightarrow> P x"
  shows "P x"
proof -
  let ?step = "\<lambda>acc (k, v). case acc of None \<Rightarrow> None
       | Some x \<Rightarrow> if \<not> names_field f k then Some x else if v = JNull then Some None else map_option Some (d v)"
  have "foldl ?step z ms = Some (Some x) \<Longrightarrow> (\<And>x. z = Some (Some x) \<Longrightarrow> P x) \<Longrightarrow> P x" for ms z
  proof (induction ms arbitrary: z)
    case (Cons m ms)
    show ?case
    proof (rule Cons.IH)
      show "foldl ?step (?step z m) ms = Some (Some x)" using Cons.prems(1) by simp
      show "P x'" if "?step z m = Some (Some x')" for x'
        using that Cons.prems(2) assms(2) by (cases m) (auto split: option.splits if_splits)
    qed
  qed auto
  from this [of "Some None"] show ?thesis
    using assms(1) by (auto simp: dec_pointer_def split: json.splits)
qed

lemma dec_map_inv:
  assumes "dec_map z d j = Some m" "(k, x) \<in> set m" "P z" "\<And>v x. d v = Some x \<Longrightarrow> P x"
  shows "P x"
proof -
  let ?step = "\<lambda>acc (k, v). case (acc, dec_elem z d v) of (Some m, Some x) \<Rightarrow> Some (AList.update k x m) | _ \<Rightarrow> None"
  have "foldl ?step acc ms = Some m \<Longrightarrow> (\<And>m k x. acc = Some m \<Longrightarrow> (k, x) \<in> set m \<Longrightarrow> P x) \<Longrightarrow> P x" for acc ms
  proof (induction ms arbitrary: acc)
    case Nil
    then show ?case using assms(2) by simp
  next
    case (Cons c ms)
    show ?case
    proof (rule Cons.IH)
      show "foldl ?step (?step acc c) ms = Some m" using Cons.prems(1) by simp
      show "P x'" if m: "?step acc c = Some m'" "(k', x') \<in> set m'" for m' k' x'
      proof -
        obtain k1 v1 where c: "c = (k1, v1)" by (cases c)
        then obtain m0 y where "acc = Some m0" "dec_elem z d v1 = Some y" "m' = AList.update k1 y m0"
          using m(1) by (cases acc; cases "dec_elem z d v1") auto
        moreover from this have "P y" using assms(3,4) by (auto simp: dec_elem_def split: if_splits)
        moreover have "(k', x') \<in> set (AList.update k1 y m0) \<Longrightarrow> x' = y \<or> (k', x') \<in> set m0"
          by (induction m0) (auto split: if_splits)
        ultimately show ?thesis using m(2) Cons.prems(2) by auto
      qed
    qed
  qed
  from this [of "Some []"] show ?thesis using assms by (auto simp: dec_map_def split: json.splits)
qed

lemma snapshot_wf:
  assumes "GetSnapshots ex = Inr snaps" "map_of snaps symb = Some (Some (p, ts))"
  shows "wf64 p"
proof -
  obtain j dtos where d: "dec_map None decode_snapshot j = Some dtos"
    "those (map (\<lambda>(symb, dto). map_option (Pair symb) (snapshot_of_dto dto)) dtos) = Some snaps"
    using assms(1) by (auto simp: GetSnapshots_def split: http_exchange.splits if_splits option.splits bind_splits)
  have "(symb, Some (p, ts)) \<in> set snaps" using assms(2) by (rule map_of_SomeD)
  then obtain s dto where sd: "(s, dto) \<in> set dtos" "map_option (Pair s) (snapshot_of_dto dto) = Some (symb, Some (p, ts))"
    using those_map_member [OF d(2)] by fast
  then obtain t where "dto = Some (p, t)" by (auto simp: snapshot_of_dto_def split: option.splits)
  then have "case dto of None \<Rightarrow> True | Some (p, t) \<Rightarrow> wf64 p"
  proof -
    have *: "case x of None \<Rightarrow> True | Some (p, t) \<Rightarrow> wf64 p" if "decode_snapshot v = Some x" for v and x :: "(f64 \<times> gostr) option"
    proof (cases x)
      case (Some y)
      have "case y of (p, t) \<Rightarrow> wf64 p"
        using that unfolding Some decode_snapshot_def
        by (rule dec_pointer_inv) (auto split: bind_splits dest: dec_field_inv [where z = 0 and d = dec_float and P = wf64, OF _ fin_01(5) dec_float_wf])
      then show ?thesis using Some by simp
    qed simp
    show ?thesis using dec_map_inv [OF d(1) sd(1), of "\<lambda>dto. case dto of None \<Rightarrow> True | Some (p, t) \<Rightarrow> wf64 p"] * by auto
  qed
  then show ?thesis using \<open>dto = Some (p, t)\<close> by simp
qed

lemma traced_set:
  assumes "traced symbols tks rd" "tk \<in> set tks" "GetSnapshots (tk_answer tk) = Inr snaps" "i < length symbols"
    "map_of snaps (symbols ! i) = Some (Some (p, ts))"
    "SetPrice fails (tk_now tk i) (symbols ! i) \<lparr>mp_symbol = symbols ! i, mp_price = p, mp_time = ts\<rparr> PriceTTL rd = (ok, rd')"
  shows "traced symbols tks rd'"
proof -
  have w: "polled symbols tks (symbols ! i) p (tk_now tk i)" "wf64 p"
    using assms(2-5) snapshot_wf unfolding polled_def by blast+
  let ?p = "\<lparr>mp_symbol = symbols ! i, mp_price = p, mp_time = ts\<rparr>"
  consider "rd' = rd" | j where "encode_price ?p = Some j"
    "rd' = rd\<lparr>pr_entries := (pr_entries rd)(priceKey (symbols ! i) \<mapsto> (j, tk_now tk i + PriceTTL))\<rparr>"
    using assms(6) by (auto simp: SetPrice_def split: option.splits if_splits)
  then show ?thesis
  proof cases
    case 2
    show ?thesis unfolding traced_def
    proof clarify
      fix symb j' e assume e: "pr_entries rd' (priceKey symb) = Some (j', e)"
      show "\<exists>p ts t. polled symbols tks symb p t \<and> e = t + PriceTTL \<and> wf64 p
          \<and> encode_price \<lparr>mp_symbol = symb, mp_price = p, mp_time = ts\<rparr> = Some j'"
      proof (cases "symb = symbols ! i")
        case True
        then have "j' = j" "e = tk_now tk i + PriceTTL" using e 2(2) by simp_all
        then show ?thesis using w 2(1) True by blast
      next
        case False
        then have "pr_entries rd (priceKey symb) = Some (j', e)" using e 2(2) by (simp add: priceKey_inj)
        then show ?thesis using assms(1) unfolding traced_def by blast
      qed
    qed
  qed (use assms(1) in simp)
qed

lemma publish_entries: "pr_entries (snd (PublishPrice f symb p rd)) = pr_entries rd"
  by (simp add: PublishPrice_def split: option.split)

lemma traced_entries: "pr_entries rd' = pr_entries rd \<Longrightarrow> traced symbols tks rd \<Longrightarrow> traced symbols tks rd'"
  by (simp add: traced_def)

lemma traced_poll_symbol:
  assumes "traced symbols tks rd" "tk \<in> set tks" "GetSnapshots (tk_answer tk) = Inr snaps" "i < length symbols"
  shows "traced symbols tks (poll_symbol tk snaps rd (i, symbols ! i))"
proof (cases "map_of snaps (symbols ! i)")
  case (Some snap)
  show ?thesis
  proof (cases snap)
    case None
    then show ?thesis using Some assms(1) by (simp add: poll_symbol_def)
  next
    case S: (Some q)
    obtain p ts where q: "q = (p, ts)" by (cases q)
    let ?price = "\<lparr>mp_symbol = symbols ! i, mp_price = p, mp_time = ts\<rparr>"
    obtain ok rd' where rd': "SetPrice (tk_set_fails tk i) (tk_now tk i) (symbols ! i) ?price PriceTTL rd = (ok, rd')"
      by (cases "SetPrice (tk_set_fails tk i) (tk_now tk i) (symbols ! i) ?price PriceTTL rd")
    have "traced symbols tks rd'" using traced_set [OF assms] Some S q rd' by blast
    then show ?thesis
      using Some S q rd' traced_entries [OF publish_entries [of "tk_publish_fails tk i" "symbols ! i" ?price rd']]
      by (cases ok) (simp_all add: poll_symbol_def Let_def)
  qed
qed (use assms(1) in \<open>simp add: poll_symbol_def\<close>)

lemma traced_Poll:
  assumes "traced symbols tks rd" "tk \<in> set tks"
  shows "traced symbols tks (snd (Poll symbols tk rd))"
proof (cases "GetSnapshots (tk_answer tk)")
  case (Inr snaps)
  have "traced symbols tks (foldl (poll_symbol tk snaps) rd (enumerate 0 symbols))"
  proof (rule foldl_invariant [where P = "traced symbols tks"])
    fix x rd' assume "x \<in> set (enumerate 0 symbols)" and t: "traced symbols tks rd'"
    then obtain i where "x = (i, symbols ! i)" "i < length symbols"
      by (auto simp: in_set_enumerate_eq prod_eq_iff)
    then show "traced symbols tks (poll_symbol tk snaps rd' x)" using traced_poll_symbol [OF t assms(2) Inr] by simp
  qed (rule assms(1))
  then show ?thesis by (simp add: Poll_def Inr)
qed (use assms(1) in \<open>simp add: Poll_def\<close>)

lemma traced_Run:
  assumes "pr_entries rd = Map.empty"
  shows "traced symbols tks (Run symbols tks rd)"
proof -
  have "traced symbols tks rd" using assms by (simp add: traced_def)
  then show ?thesis unfolding Run_def
    by (intro foldl_invariant [where P = "traced symbols tks"]) (auto intro: traced_Poll)
qed

lemma traced_price:
  assumes "traced symbols tks rd" "LatestPrice uc fails now symb rd = Inr pq"
  shows "\<exists>t. polled symbols tks (to_upper uc (trim_space symb)) (mp_price pq) t \<and> now < t + PriceTTL
    \<and> mp_symbol pq = to_upper uc (trim_space symb) \<and> wf64 (mp_price pq) \<and> encode_price pq \<noteq> None"
proof -
  let ?s = "to_upper uc (trim_space symb)"
  obtain j e where e: "pr_entries rd (priceKey ?s) = Some (j, e)" "now < e" "decode_price j = Some pq"
    using assms(2) by (auto simp: MarketData.LatestPrice_def GetPrice_def split: sum.splits if_splits option.splits)
  then obtain p ts t where p: "polled symbols tks ?s p t" "e = t + PriceTTL" "wf64 p"
    "encode_price \<lparr>mp_symbol = ?s, mp_price = p, mp_time = ts\<rparr> = Some j"
    using assms(1) unfolding traced_def by blast
  have "pq = \<lparr>mp_symbol = ?s, mp_price = p, mp_time = ts\<rparr>" using price_roundtrip(1) [OF p(4)] p(3) e(3) by simp
  then show ?thesis using p e(2) by auto
qed

end
