(* ===== verification/MarketProps.thy ===== *)
theory MarketProps
  imports WireFacts TradingHandlerProps
begin

text \<open>
  What market-data promises the services that read it, and what ai-insights reads of
  trading-engine: fresh prices, idempotent ingestion, histories and trades that arrive as they
  were stored, and when the provider's pages come to an end.
\<close>

section \<open>Prices\<close>

definition market_price :: "(rune \<Rightarrow> rune) \<Rightarrow> bool \<Rightarrow> instant \<Rightarrow> price_redis \<Rightarrow> gostr \<Rightarrow> json http_exchange" where
  \<comment> \<open>the GET of a symbol's price, for a symbol a path does not escape\<close>
  "market_price uc fails now rd symb = wire encode_price (handle_Prices uc fails now symb rd)"

lemma market_price_served:
  assumes "LatestPrice uc fails now symb rd = Inr p" "encode_price p \<noteq> None" "wf64 (mp_price p)"
  shows "trading_price (market_price uc fails now rd) symb
    = (if mp_price p \<le> 0 \<or> is_nan (mp_price p) \<or> is_inf (mp_price p) then Inl trading_err.ErrUpstreamUnavailable else Inr (mp_price p))"
proof -
  obtain j where j: "encode_price p = Some j" using assms(2) by auto
  show ?thesis
    using price_roundtrip(2) [OF j assms(3)]
    by (simp add: trading_price_def market_price_def handle_Prices_def assms(1) wire_def j read_body_def TradingService.LatestPrice_def)
qed

lemma market_price_missed:
  assumes "LatestPrice uc fails now symb rd = Inl e"
  shows "\<exists>e'. trading_price (market_price uc fails now rd) symb = Inl e'"
  using assms
  by (cases e) (auto simp: trading_price_def market_price_def handle_Prices_def wire_def read_body_def TradingService.LatestPrice_def)

text \<open>C7. No order fills at a stale price: with a poller that started on an empty cache, an order
  that fills was executed at a positive price that some tick of the poller wrote, as the latest
  trade of that very symbol in the provider's snapshot, less than 45 seconds before the price
  was read, whatever Redis, the provider and the store did otherwise.\<close>

theorem order_prices_are_fresh:
  assumes "PlaceOrder uc ops (trading_price (market_price uc' fails now (Run symbols tks rd))) inval user req s c = (Inr res, s', c')"
    and "pr_entries rd = Map.empty"
  shows "\<exists>p t a q. polled symbols tks (to_upper uc' (trim_space (to_upper uc (trim_space (rq_symbol req))))) p t
    \<and> now < t + 45 * second \<and> 0 < p
    \<and> ts_execute ops \<lparr>x_account = a, x_symbol = to_upper uc (trim_space (rq_symbol req)), x_side = rq_side req,
         x_quantity = q, x_price = p\<rparr> s = (Inr res, s')"
proof -
  let ?prices = "trading_price (market_price uc' fails now (Run symbols tks rd))"
  obtain req' and acct :: account and p where p: "validateOrder uc req = Inr req'" "?prices (rq_symbol req') = Inr p"
    "ts_execute ops \<lparr>x_account = ac_id acct, x_symbol = rq_symbol req', x_side = rq_side req', x_quantity = rq_quantity req',
       x_price = p\<rparr> s = (Inr res, s')"
    using assms(1) by (auto simp: PlaceOrder_def split: sum.splits prod.splits)
  have n: "rq_symbol req' = to_upper uc (trim_space (rq_symbol req))" "rq_side req' = rq_side req"
    using p(1) by (auto simp: validateOrder_def Let_def split: if_splits)
  obtain pq where pq: "LatestPrice uc' fails now (rq_symbol req') (Run symbols tks rd) = Inr pq"
    using market_price_missed [of uc' fails now "rq_symbol req'" "Run symbols tks rd"] p(2)
    by (cases "LatestPrice uc' fails now (rq_symbol req') (Run symbols tks rd)") auto
  obtain t where t: "polled symbols tks (to_upper uc' (trim_space (rq_symbol req'))) (mp_price pq) t" "now < t + PriceTTL"
    "wf64 (mp_price pq)" "encode_price pq \<noteq> None"
    using traced_price [OF traced_Run [OF assms(2)] pq] by blast
  have "p = mp_price pq" using market_price_served [OF pq t(4,3)] p(2) by (simp split: if_splits)
  moreover have "0 < p" using p(2) LatestPrice_usable unfolding trading_price_def by blast
  ultimately show ?thesis
    using t(1,2) p(3) n by (auto simp: PriceTTL_def PollInterval_def)
qed

definition demo_tick :: tick where
  \<comment> \<open>the provider reports a trade of A at 3\<close>
  "demo_tick = \<lparr>tk_answer = Answer 200 (Some (JObj [(lit ''A'', JObj [(lit ''latestTrade'',
       JObj [(lit ''p'', JNum False 3 0 True), (lit ''t'', JStr (lit ''2026-01-05T15:00:00Z''))])])])),
     tk_now = (\<lambda>_. 0), tk_set_fails = (\<lambda>_. False), tk_publish_fails = (\<lambda>_. True)\<rparr>"

definition empty_prices :: price_redis where
  "empty_prices = \<lparr>pr_entries = Map.empty, pr_published = []\<rparr>"

lemma demo_instant: "parse_rfc3339 (lit ''2026-01-05T15:00:00Z'') = Some (go_date 2026 1 5 + 54000 * second)"
  by code_simp

lemma demo_date: "date_of (go_date 2026 1 5 + 54000 * second) = (2026, 1, 5)"
  by code_simp

lemma demo_snapshots: "GetSnapshots (tk_answer demo_tick) = Inr [(lit ''A'', Some (FNum 3, go_date 2026 1 5 + 54000 * second))]"
proof -
  have "dec_float (JNum False 3 0 True) = Some (FNum 3)" by (simp add: dec_float_def num_value_def fcalc is_inf_def)
  then show ?thesis
    by (simp add: GetSnapshots_def demo_tick_def dec_map_def dec_elem_def decode_snapshot_def dec_pointer_hit field_calc name_lits
        snapshot_of_dto_def demo_instant dec_pointer_def)
qed

lemma three_ok: "float_ok (FNum 3)"
  using representable_of_int [of 3] by (simp add: float_ok_def wf64_def)

lemma three_positive: "\<not> FNum 3 \<le> 0"
  by (simp add: less_eq_f64_def zero_f64_def)

lemma demo_price:
  "\<exists>pq. LatestPrice id False 1 [65] (Run [lit ''A''] [demo_tick] empty_prices) = Inr pq \<and> mp_price pq = FNum 3 \<and> encode_price pq \<noteq> None"
proof -
  let ?pq = "\<lparr>mp_symbol = [65], mp_price = FNum 3, mp_time = go_date 2026 1 5 + 54000 * second\<rparr>"
  obtain j where j: "encode_price ?pq = Some j"
    using float_encodes [OF three_ok] demo_date by (auto simp: encode_price_def json_time_def)
  have A: "lit ''A'' = [65]" by (simp add: lit_def)
  have "pr_entries (Run [lit ''A''] [demo_tick] empty_prices) (priceKey [65]) = Some (j, PriceTTL)"
    by (simp add: Run_def Poll_def demo_snapshots A poll_symbol_def SetPrice_def j publish_entries)
      (simp add: demo_tick_def)
  moreover have "to_upper id (trim_space [65]) = [65]" by (simp add: to_upper_def trim_space_def trim_right_def is_space_def upper_rune_def)
  moreover have "decode_price j = Some ?pq" using price_roundtrip(1) [OF j] three_ok by (simp add: float_ok_def)
  moreover have "1 < PriceTTL" by (simp add: PriceTTL_def PollInterval_def second_def)
  ultimately have "LatestPrice id False 1 [65] (Run [lit ''A''] [demo_tick] empty_prices) = Inr ?pq"
    by (simp add: MarketData.LatestPrice_def GetPrice_def)
  then show ?thesis using j by auto
qed

lemma demo_served: "trading_price (market_price id False 1 (Run [lit ''A''] [demo_tick] empty_prices)) [65] = Inr (FNum 3)"
proof -
  obtain pq where "LatestPrice id False 1 [65] (Run [lit ''A''] [demo_tick] empty_prices) = Inr pq" "mp_price pq = FNum 3"
    "encode_price pq \<noteq> None" using demo_price by blast
  then show ?thesis
    using market_price_served [of id False 1 "[65]" "Run [lit ''A''] [demo_tick] empty_prices" pq] three_ok
    by (simp add: float_ok_def is_nan_def is_inf_def three_positive)
qed

theorem order_prices_are_fresh_witness:
  "\<exists>p t. polled [lit ''A''] [demo_tick] (to_upper id (trim_space (to_upper id (trim_space [32, 97])))) p t \<and> 1 < t + 45 * second \<and> 0 < p"
  using order_prices_are_fresh [OF demo_placed_at [where c = "\<lambda>_. Some True" and prices = "trading_price (market_price id False 1 (Run [lit ''A''] [demo_tick] empty_prices))", OF demo_served]] by (auto simp: empty_prices_def)

section \<open>Histories\<close>

definition market_history :: "(rune \<Rightarrow> rune) \<Rightarrow> mkt_bar list \<Rightarrow> gostr \<Rightarrow> gostr \<Rightarrow> json http_exchange" where
  \<comment> \<open>the GET of a symbol's history, for a symbol a path does not escape, with a working table\<close>
  "market_history uc tab symb limit = wire encode_history (handle_History uc False symb limit tab)"

lemma symbol_normal: "symbolPattern symb \<Longrightarrow> to_upper uc (trim_space symb) = symb"
proof -
  assume "symbolPattern symb"
  then have a: "list_all (\<lambda>r. 65 \<le> r \<and> r \<le> 90 \<or> r = 46) symb" by (simp add: symbolPattern_def)
  then have "\<forall>r \<in> set symb. \<not> is_space r" by (auto simp: list_all_iff is_space_def)
  then have "dropWhile is_space symb = symb" "dropWhile is_space (rev symb) = rev symb"
    by (auto simp: dropWhile_eq_self_iff hd_in_set List.last_in_set hd_rev)
  then have "trim_space symb = symb" by (simp add: trim_space_def trim_right_def)
  moreover have "map (upper_rune uc) symb = symb" using a by (intro map_idI) (auto simp: list_all_iff upper_rune_def)
  ultimately show ?thesis by (simp add: to_upper_def)
qed

lemma limit_2000: "Atoi historyLimit = (2000, True)"
  by code_simp

lemma served_history:
  assumes "symbolPattern symb" "unique_bars tab"
  shows "handle_History uc False symb historyLimit tab =
    Reply 200 \<lparr>hi_symbol = symb, hi_timeframe = Timeframe, hi_bars = drop (length (bars_of symb tab) - 2000) (bars_of symb tab)\<rparr>"
proof -
  have "historyLimit \<noteq> []" by (simp add: historyLimit_def lit_def)
  then show ?thesis
    using GetHistory_latest [OF assms(2), of 2000 symb]
    by (simp add: handle_History_def limit_2000 MarketData.History_def symbol_normal [OF assms(1)] MaxHistoryLimit_def)
qed

text \<open>C14. Histories reach their readers unchanged: over a table with one bar per symbol and
  instant whose bars JSON can carry, the backtesting client and the insights client read exactly
  the last 2000 of the symbol's bars, strictly ascending in time and bit for bit as stored, and
  both report a symbol without bars as unavailable and not as an empty history.\<close>

theorem histories_arrive_as_stored:
  assumes "unique_bars tab" "list_all bar_encodable tab" "symbolPattern symb"
  shows "let bars = drop (length (bars_of symb tab) - 2000) (bars_of symb tab) in
    sorted_wrt (<) (map mb_time bars)
    \<and> backtest_history (market_history uc tab) symb
      = (if bars = [] then Inl backtest_err.ErrSymbolUnavailable else Inr (map bar_of_row bars))
    \<and> insights_history (market_history uc tab) symb
      = (if bars = [] then Inl (insights_err.ErrSymbolUnavailable symb) else Inr (map (ai_bar_of \<circ> bar_of_row) bars))"
proof -
  define bars where "bars = drop (length (bars_of symb tab) - 2000) (bars_of symb tab)"
  let ?r = "\<lparr>hi_symbol = symb, hi_timeframe = Timeframe, hi_bars = bars\<rparr>"
  have "set bars \<subseteq> set tab" using set_drop_subset [of _ "bars_of symb tab"] by (auto simp: bars_def bars_of_def)
  then have "list_all bar_encodable (hi_bars ?r)" using assms(2) by (auto simp: list_all_iff)
  from history_roundtrip [OF this] obtain j where j: "encode_history ?r = Some j" "decode_history j = Some (map bar_of_row bars)" by auto
  have "sorted_wrt (<) (map mb_time bars)"
    using bars_of_strict [OF assms(1), of symb] by (simp add: bars_def drop_map [symmetric] sorted_wrt_drop)
  moreover have "read_body decode_history (market_history uc tab symb historyLimit) = Answer 200 (Some (map bar_of_row bars))"
    using j by (simp add: market_history_def served_history [OF assms(3,1)] bars_def [symmetric] wire_def read_body_def)
  ultimately show ?thesis
    unfolding bars_def [symmetric] by (simp add: Let_def backtest_history_def insights_history_def BacktestService.History_def)
qed

definition demo_rows :: "mkt_bar list" where
  "demo_rows = [\<lparr>mb_symbol = [65], mb_timeframe = Timeframe, mb_time = go_date 2026 1 5 + 54000 * second, mb_open = FNum 3, mb_high = FNum 3,
     mb_low = FNum 3, mb_close = FNum 3, mb_volume = 7\<rparr>]"

lemma demo_rows_ok: "unique_bars demo_rows" "list_all bar_encodable demo_rows" "symbolPattern [65]"
proof -
  show "unique_bars demo_rows" "symbolPattern [65]" by (simp_all add: demo_rows_def unique_bars_def symbolPattern_def)
  have "json_time (go_date 2026 1 5 + 54000 * second) \<noteq> None" by (simp add: json_time_def demo_date)
  then show "list_all bar_encodable demo_rows"
    using three_ok by (simp add: demo_rows_def bar_encodable_def bar_wf_def float_ok_def int64_def)
qed

theorem histories_arrive_as_stored_witness:
  "backtest_history (market_history id demo_rows) [65] = Inr (map bar_of_row demo_rows)"
proof -
  have "bars_of [65] demo_rows = demo_rows" by (simp add: bars_of_def demo_rows_def)
  then show ?thesis
    using histories_arrive_as_stored [OF demo_rows_ok, of id] by (simp add: Let_def) (simp add: demo_rows_def)
qed

section \<open>Ingestion\<close>

lemma bars_of_cong:
  assumes "unique_bars a" "unique_bars b" "bar_map a = bar_map b"
  shows "bars_of symb a = bars_of symb b"
proof -
  have s: "set (bars_of symb a) = set (bars_of symb b)" using assms by (simp add: set_bars_of)
  have i: "inj_on mb_time (set (bars_of symb a))"
    using bars_of_strict [OF assms(1), of symb] by (simp add: strict_sorted_iff distinct_map)
  have "map mb_time (bars_of symb a) = map mb_time (bars_of symb b)"
    using bars_of_strict [OF assms(1), of symb] bars_of_strict [OF assms(2), of symb] s
    by (intro strict_sorted_equal) auto
  then show ?thesis using i s by (intro map_inj_on [of mb_time]) simp_all
qed

lemma History_cong:
  assumes "unique_bars a" "unique_bars b" "bar_map a = bar_map b"
  shows "History uc f symb limit a = History uc f symb limit b"
proof (cases f)
  case False
  then show ?thesis
    using GetHistory_latest [OF assms(1)] GetHistory_latest [OF assms(2)] bars_of_cong [OF assms]
    by (simp add: MarketData.History_def Let_def DefaultHistoryLimit_def MaxHistoryLimit_def)
qed (simp add: MarketData.History_def GetHistory_def Let_def)

text \<open>C15. Ingestion is idempotent: whatever the provider and the database answer, running a request
  once more with the same answers gives the same results and leaves every history as it was, no
  run ever stores two bars for one symbol and instant, and the tables of two runs from tables
  that agree, agree.\<close>

theorem ingestion_is_idempotent:
  assumes "Ingest env req tab = Some (r, tab1)" "unique_bars tab"
  shows "unique_bars tab1 \<and> (case Ingest env req tab1 of None \<Rightarrow> False
    | Some (r', tab2) \<Rightarrow> r' = r \<and> unique_bars tab2 \<and> bar_map tab2 = bar_map tab1
        \<and> (\<forall>uc f symb limit. History uc f symb limit tab2 = History uc f symb limit tab1))"
proof -
  have "\<not> (\<forall>tab. Ingest env req tab = None)" using assms(1) by (metis option.distinct(1))
  then obtain r0 n where w: "\<And>tab. \<exists>tab'. Ingest env req tab = Some (r0, tab') \<and> bar_map tab' = bar_map tab ++ n
      \<and> (unique_bars tab \<longrightarrow> unique_bars tab')"
    using Ingest_writes [of env req] unfolding writes_def by blast
  have 1: "r0 = r" "bar_map tab1 = bar_map tab ++ n" "unique_bars tab1" using w [of tab] assms by auto
  obtain tab2 where 2: "Ingest env req tab1 = Some (r0, tab2)" "bar_map tab2 = bar_map tab1 ++ n" "unique_bars tab2"
    using w [of tab1] 1(3) by auto
  have "bar_map tab2 = bar_map tab1" using 2(2) 1(2) by (simp add: map_add_def fun_eq_iff split: option.split)
  then show ?thesis using 1 2 History_cong [OF 2(3) 1(3)] by simp
qed

definition demo_ingest :: ingest_env where
  "demo_ingest = \<lparr>ie_upper = id, ie_now = go_date 2026 1 6, ie_bars = (\<lambda>i symb tf a b. Some (Inr
       [\<lparr>ab_time = go_date 2026 1 5, ab_open = 1, ab_high = 1, ab_low = 1, ab_close = 1, ab_volume = 7\<rparr>])),
     ie_pg = \<lparr>mg_numeric = Some, mg_time = id\<rparr>, ie_batch = (\<lambda>_. BatchDone)\<rparr>"

lemma demo_ingested: "Ingest demo_ingest \<lparr>ig_symbols = [[65]], ig_start = [], ig_end = []\<rparr> [] =
    Some (Inr [\<lparr>ir_symbol = [65], ir_bars = 1, ir_error = None\<rparr>],
      [\<lparr>mb_symbol = [65], mb_timeframe = Timeframe, mb_time = go_date 2026 1 5, mb_open = 1, mb_high = 1, mb_low = 1, mb_close = 1,
        mb_volume = 7\<rparr>])"
proof -
  have "resolveDateRange (go_date 2026 1 6) \<lparr>ig_symbols = [[65]], ig_start = [], ig_end = []\<rparr> \<noteq> Inl e" for e
    by (simp add: resolveDateRange_def Let_def split: prod.split)
  then obtain a b where r: "resolveDateRange (go_date 2026 1 6) \<lparr>ig_symbols = [[65]], ig_start = [], ig_end = []\<rparr> = Inr (a, b)"
    by (metis sum.exhaust surj_pair)
  have "to_upper id (trim_space [65]) = [65]" "symbolPattern [65]"
    using symbol_normal [OF demo_rows_ok(3)] demo_rows_ok(3) by simp_all
  then show ?thesis
    using r by (simp add: Ingest_def demo_ingest_def ingest_symbol_def UpsertBars_def bar_of_alpaca_def stored_bar_def upsert_rows_def Let_def)
qed

theorem ingestion_is_idempotent_witness:
  "case Ingest demo_ingest \<lparr>ig_symbols = [[65]], ig_start = [], ig_end = []\<rparr>
      [\<lparr>mb_symbol = [65], mb_timeframe = Timeframe, mb_time = go_date 2026 1 5, mb_open = 1, mb_high = 1, mb_low = 1, mb_close = 1,
        mb_volume = 7\<rparr>] of None \<Rightarrow> False
    | Some (r', tab2) \<Rightarrow> r' = Inr [\<lparr>ir_symbol = [65], ir_bars = 1, ir_error = None\<rparr>] \<and> unique_bars tab2"
  using ingestion_is_idempotent [OF demo_ingested] by (auto simp: unique_bars_def split: option.splits prod.splits)

section \<open>Paging\<close>

text \<open>C16. The provider's pages are read to their end and no further: \<open>GetBars\<close> returns
  exactly when some answer is the last one (a refusal, an answer that cannot be read, or a page
  without a next token), and then it returns the failure of the first such answer, or all bars of
  all pages up to it in their order; a provider that announces one more page for ever keeps the
  call from returning.\<close>

theorem pages_are_drained:
  "let q = \<lparr>bq_symbol = symb, bq_timeframe = tf, bq_start = format_rfc3339 start, bq_end = format_rfc3339 stop, bq_token = []\<rparr>;
     final = (\<lambda>n. page_token (nth_answer server 0 q n) = []) in
   case GetBars server symb tf start stop of
     None \<Rightarrow> \<forall>n. \<not> final n
   | Some r \<Rightarrow> (\<exists>n. final n) \<and> r = drained server 0 q [] (LEAST n. final n)"
proof -
  define q where "q = \<lparr>bq_symbol = symb, bq_timeframe = tf, bq_start = format_rfc3339 start, bq_end = format_rfc3339 stop, bq_token = []\<rparr>"
  define final where "final = (\<lambda>n. page_token (nth_answer server 0 q n) = [])"
  have g: "GetBars server symb tf start stop = drain server q 0 []" by (simp add: GetBars_def q_def)
  have "case drain server q 0 [] of None \<Rightarrow> \<forall>n. \<not> final n | Some r \<Rightarrow> (\<exists>n. final n) \<and> r = drained server 0 q [] (LEAST n. final n)"
  proof (cases "\<exists>n. final n")
    case True
    then have "final (LEAST n. final n)" "\<And>k. k < (LEAST n. final n) \<Longrightarrow> \<not> final k" by (auto intro: LeastI dest: not_less_Least)
    then have "drain server q 0 [] = Some (drained server 0 q [] (LEAST n. final n))"
      unfolding final_def by (rule drain_final)
    then show ?thesis using True by simp
  next
    case False
    then have "drain server q 0 [] = None"
      using drain_returns [of server q 0 "[]"] unfolding final_def by (cases "drain server q 0 []") blast+
    then show ?thesis using False by simp
  qed
  then show ?thesis unfolding Let_def g final_def q_def .
qed

section \<open>The trade log\<close>

lemma limit_10000: "Atoi tradeLimit = (10000, True)"
  by code_simp

lemma client_get_refused: "status \<noteq> 200 \<Longrightarrow> client_get dec (wire enc (ErrorReply status code msg))
    = Inl (if status = 401 \<or> status = 403 then ErrUnauthorized else insights_err.ErrUpstreamUnavailable)"
  by (simp add: client_get_def wire_def)

lemma client_get_service_error: "client_get dec (wire enc (TradingHandler.writeServiceError e)) = Inl insights_err.ErrUpstreamUnavailable"
  by (cases e) (simp_all add: TradingHandler.writeServiceError_def client_get_refused)

text \<open>C6. The report is computed from the ledger: what ai-insights reads of trading-engine for a
  token are exactly the trades, in order, and the cash and holdings of the account the token's
  subject owns, bit for bit when JSON can carry them; a token trading-engine does not accept is
  reported as such, and any other failure as an outage, never as an empty log.\<close>

theorem insights_reads_the_ledger:
  assumes "case userID (ta_uuid api) subject of None \<Rightarrow> True | Some u \<Rightarrow>
      (case TradingService.Trades (ta_store api) u 10000 s of Inl e \<Rightarrow> True | Inr ts \<Rightarrow> list_all trade_encodable ts)
      \<and> (case Portfolio (ta_store api) (ta_prices api) u s of Inl e \<Rightarrow> True | Inr r \<Rightarrow> portfolio_encodable r)"
  shows "(insights_trades (wire (encode_trades ut) (handle_ListTrades api subject tradeLimit s)),
      insights_portfolio (wire encode_portfolio (handle_Portfolio api subject s)))
    = (case userID (ta_uuid api) subject of
        None \<Rightarrow> (Inl ErrUnauthorized, Inl ErrUnauthorized)
      | Some u \<Rightarrow>
         (case TradingService.Trades (ta_store api) u 10000 s of
            Inl e \<Rightarrow> Inl insights_err.ErrUpstreamUnavailable
          | Inr ts \<Rightarrow> Inr (map (ai_trade_of ut) ts),
          case Portfolio (ta_store api) (ta_prices api) u s of
            Inl e \<Rightarrow> Inl insights_err.ErrUpstreamUnavailable
          | Inr r \<Rightarrow> Inr \<lparr>lv_balance = pf_balance r, lv_positions = map live_position_of (pf_positions r)\<rparr>))"
proof (cases "userID (ta_uuid api) subject")
  case None
  then show ?thesis
    by (simp add: handle_ListTrades_def handle_Portfolio_def insights_trades_def insights_portfolio_def writeUnauthorized_def
        client_get_refused)
next
  case (Some u)
  have "insights_trades (wire (encode_trades ut) (answer_result 200 (TradingService.Trades (ta_store api) u 10000 s))) = (case TradingService.Trades (ta_store api) u 10000 s of
      Inl e \<Rightarrow> Inl insights_err.ErrUpstreamUnavailable | Inr ts \<Rightarrow> Inr (map (ai_trade_of ut) ts))"
    using assms Some trades_roundtrip
    by (cases "TradingService.Trades (ta_store api) u 10000 s") (simp_all add: insights_trades_def client_get_service_error)
  moreover have "insights_portfolio (wire encode_portfolio (answer_result 200 (Portfolio (ta_store api) (ta_prices api) u s))) =
      (case Portfolio (ta_store api) (ta_prices api) u s of Inl e \<Rightarrow> Inl insights_err.ErrUpstreamUnavailable
       | Inr r \<Rightarrow> Inr \<lparr>lv_balance = pf_balance r, lv_positions = map live_position_of (pf_positions r)\<rparr>)"
    using assms Some portfolio_roundtrip
    by (cases "Portfolio (ta_store api) (ta_prices api) u s") (simp_all add: insights_portfolio_def client_get_service_error)
  ultimately show ?thesis by (simp add: Some handle_ListTrades_def handle_Portfolio_def limit_10000)
qed


lemma demo_portfolio: "Portfolio (ta_store demo_api) (ta_prices demo_api) 9 demo_db'
  = Inr \<lparr>pf_balance = FNum 94, pf_positions = [\<lparr>p_symbol = [65], p_quantity = FNum 2, p_avg_cost = FNum 3, p_latest_price = Some (FNum 3),
      p_unrealized_pl = 0\<rparr>], pf_total_equity = FNum 100, pf_total_unrealized_pl = 0\<rparr>"
proof -
  have "0 < FNum 2" by (simp add: f64_less_fin zero_f64_def)
  moreover have "(FNum 3 - FNum 3) * FNum 2 = 0" "FNum 94 + FNum 3 * FNum 2 = FNum 100" "0 + 0 = (0::f64)"
    by (simp_all add: fcalc zero_f64_def)
  ultimately show ?thesis
    by (simp add: Portfolio_def demo_api_def postgres_store_def AccountForUser_def ListHoldings_def demo_defs positionsFor_def
        TradingService.price_def price_sched_def price_one_def unpriced_def add_position_def Let_def)
qed

lemma demo_trades: "TradingService.Trades (ta_store demo_api) 9 10000 demo_db' = Inr [demo_trade]"
  by (simp add: TradingService.Trades_def demo_api_def postgres_store_def AccountForUser_def ListTrades_def demo_defs
      normalizeTradeLimit_def MaxTradeLimit_def)

lemma floats_ok: "float_ok (FNum 2)" "float_ok (FNum 94)" "float_ok (FNum 100)" "float_ok 0"
  using representable_of_int [of 2] representable_of_int [of 94] representable_of_int [of 100] representable_of_int [of 0]
  by (simp_all add: float_ok_def wf64_def zero_f64_def)

theorem insights_reads_the_ledger_witness:
  "insights_trades (wire (encode_trades (\<lambda>u. [u])) (handle_ListTrades demo_api (Some [9]) tradeLimit demo_db'))
    = Inr [ai_trade_of (\<lambda>u. [u]) demo_trade]"
proof -
  have u: "userID (ta_uuid demo_api) (Some [9]) = Some 9" by (simp add: userID_def demo_api_def)
  have "json_time (unix_epoch + 7) \<noteq> None" by code_simp
  then have "trade_encodable demo_trade"
    by (simp add: trade_encodable_def demo_trade_def floats_ok three_ok)
  then show ?thesis
    using insights_reads_the_ledger [where api = demo_api and subject = "Some [9]" and s = demo_db' and ut = "\<lambda>u. [u]"]
    by (simp add: u demo_trades demo_portfolio portfolio_encodable_def position_encodable_def floats_ok three_ok)
qed

end
