(* ===== verification/AuthRules.thy ===== *)
theory AuthRules
  imports GoStrings
begin

text \<open>
  services/auth, internal/service: the registration rules (validate.go, blocklist.go) and the
  errors of the service (errors.go). \<open>uc\<close> stands for Go's tables of lower-case letters
  beyond ASCII, \<open>parse_address\<close> for \<open>mail.ParseAddress\<close> (the address it finds),
  and \<open>blocklist\<close> for the text of the embedded file. An error message is the rule that
  failed, \<open>InvalidInputMessage\<close> gives its text.
\<close>

section \<open>Errors\<close>

datatype input_rule = EmailRequired | EmailTooLong | EmailInvalid | UsernameRequired | UsernameLength | UsernameCharset
  | PasswordRequired | PasswordTooShort | PasswordTooLong | PasswordCommon | PasswordContext | PasswordPattern

datatype auth_err = ErrInvalidInput input_rule | ErrDuplicateUser | ErrInvalidCredentials | ErrTokenInvalid
  | ErrUserNotFound | ErrInfra

definition InvalidInputMessage :: "input_rule \<Rightarrow> gostr" where
  "InvalidInputMessage rule = (case rule of
     EmailRequired \<Rightarrow> lit ''email is required''
   | EmailTooLong \<Rightarrow> lit ''email must be at most 254 characters''
   | EmailInvalid \<Rightarrow> lit ''enter a valid email address''
   | UsernameRequired \<Rightarrow> lit ''username is required''
   | UsernameLength \<Rightarrow> lit ''username must be between 3 and 30 characters''
   | UsernameCharset \<Rightarrow> lit ''username may contain only letters, numbers, hyphens, and underscores''
   | PasswordRequired \<Rightarrow> lit ''password is required''
   | PasswordTooShort \<Rightarrow> lit ''password must be at least 15 characters''
   | PasswordTooLong \<Rightarrow> lit ''password must be at most 72 bytes -- try a shorter one''
   | PasswordCommon \<Rightarrow> lit ''password is too common -- choose something less predictable''
   | PasswordContext \<Rightarrow> lit ''password must not contain your username, your email address, or the name of this service''
   | PasswordPattern \<Rightarrow> lit ''password must not be a single repeated character or a simple sequence'')"

section \<open>Limits\<close>

definition MinPasswordRunes :: nat where "MinPasswordRunes = 15"
definition MaxPasswordBytes :: nat where "MaxPasswordBytes = 72"
definition MaxEmailBytes :: nat where "MaxEmailBytes = 254"
definition MinUsernameRunes :: nat where "MinUsernameRunes = 3"
definition MaxUsernameRunes :: nat where "MaxUsernameRunes = 30"

lemmas auth_limits = MinPasswordRunes_def MaxPasswordBytes_def MaxEmailBytes_def MinUsernameRunes_def MaxUsernameRunes_def

section \<open>Normalisation\<close>

definition NormalizeEmail :: "(rune \<Rightarrow> rune) \<Rightarrow> gostr \<Rightarrow> gostr" where
  "NormalizeEmail uc email = to_lower uc (trim_space email)"

definition NormalizeUsername :: "(rune \<Rightarrow> rune) \<Rightarrow> gostr \<Rightarrow> gostr" where
  "NormalizeUsername uc username = to_lower uc (trim_space username)"

section \<open>The blocklist\<close>

definition serviceTerms :: "gostr list" where
  "serviceTerms = [lit ''quantsim'', lit ''trading'']"

definition minContextTerm :: nat where "minContextTerm = 3"

definition blocklist_entry :: "(rune \<Rightarrow> rune) \<Rightarrow> gostr \<Rightarrow> gostr option" where
  "blocklist_entry uc line =
     (let entry = to_lower uc (trim_space line) in
      if entry = [] \<or> has_prefix (lit ''#'') entry then None else Some entry)"

definition parseBlocklist :: "(rune \<Rightarrow> rune) \<Rightarrow> gostr \<Rightarrow> gostr set" where
  "parseBlocklist uc raw = set (List.map_filter (blocklist_entry uc) (split_rune 10 raw))"

definition emailLocalPart :: "gostr \<Rightarrow> gostr" where
  "emailLocalPart email = (case last_index 64 email of None \<Rightarrow> [] | Some i \<Rightarrow> if i > 0 then take i email else [])"

definition contextTerms :: "gostr \<Rightarrow> gostr \<Rightarrow> gostr list" where
  "contextTerms email username =
     serviceTerms @ filter (\<lambda>candidate. length candidate \<ge> minContextTerm) [username, emailLocalPart email]"

fun isRepeatedRune :: "gostr \<Rightarrow> bool" where
  "isRepeatedRune [] = False"
| "isRepeatedRune (r # rs) = list_all (\<lambda>x. x = r) rs"

fun steps_of :: "int \<Rightarrow> rune list \<Rightarrow> bool" where
  \<comment> \<open>every rune differs from the one before it by the step\<close>
  "steps_of step (a # b # rs) = (int b - int a = step \<and> steps_of step (b # rs))"
| "steps_of step rs = True"

fun isSequential :: "gostr \<Rightarrow> bool" where
  "isSequential (a # b # rs) =
     (let step = int b - int a in
      if step \<noteq> 1 \<and> step \<noteq> - 1 then False else steps_of step (b # rs))"
| "isSequential rs = False"

definition checkBlocklist :: "(rune \<Rightarrow> rune) \<Rightarrow> gostr \<Rightarrow> gostr \<Rightarrow> gostr \<Rightarrow> gostr \<Rightarrow> input_rule option" where
  "checkBlocklist uc blocklist password email username =
     (let lower = to_lower uc password in
      if lower \<in> parseBlocklist uc blocklist then Some PasswordCommon
      else if list_ex (contains_str lower) (contextTerms email username) then Some PasswordContext
      else if isRepeatedRune password \<or> isSequential password then Some PasswordPattern
      else None)"

section \<open>The rules\<close>

definition validateEmail :: "(gostr \<Rightarrow> gostr option) \<Rightarrow> gostr \<Rightarrow> input_rule option" where
  "validateEmail parse_address email =
     (if email = [] then Some EmailRequired
      else if byte_len email > MaxEmailBytes then Some EmailTooLong
      else case parse_address email of
        None \<Rightarrow> Some EmailInvalid
      | Some address \<Rightarrow> if address \<noteq> email then Some EmailInvalid else None)"

definition username_rune :: "rune \<Rightarrow> bool" where
  "username_rune r \<longleftrightarrow> r \<ge> 97 \<and> r \<le> 122 \<or> r \<ge> 48 \<and> r \<le> 57 \<or> r = 95 \<or> r = 45"

definition validateUsername :: "gostr \<Rightarrow> input_rule option" where
  "validateUsername username =
     (if username = [] then Some UsernameRequired
      else if length username < MinUsernameRunes \<or> length username > MaxUsernameRunes then Some UsernameLength
      else if \<not> list_all username_rune username then Some UsernameCharset
      else None)"

definition validatePassword :: "(rune \<Rightarrow> rune) \<Rightarrow> gostr \<Rightarrow> gostr \<Rightarrow> gostr \<Rightarrow> gostr \<Rightarrow> input_rule option" where
  "validatePassword uc blocklist password email username =
     (if password = [] then Some PasswordRequired
      else if length password < MinPasswordRunes then Some PasswordTooShort
      else if byte_len password > MaxPasswordBytes then Some PasswordTooLong
      else checkBlocklist uc blocklist password email username)"

definition ValidateRegistration :: "(rune \<Rightarrow> rune) \<Rightarrow> (gostr \<Rightarrow> gostr option) \<Rightarrow> gostr \<Rightarrow> gostr \<Rightarrow> gostr \<Rightarrow> gostr
    \<Rightarrow> input_rule + gostr \<times> gostr" where
  "ValidateRegistration uc parse_address blocklist email username password =
     (let normEmail = NormalizeEmail uc email; normUsername = NormalizeUsername uc username in
      case validateEmail parse_address normEmail of
        Some e \<Rightarrow> Inl e
      | None \<Rightarrow>
          (case validateUsername normUsername of
             Some e \<Rightarrow> Inl e
           | None \<Rightarrow>
               (case validatePassword uc blocklist password normEmail normUsername of
                  Some e \<Rightarrow> Inl e
                | None \<Rightarrow> Inr (normEmail, normUsername))))"

section \<open>What the rules let through\<close>

lemma isRepeatedRune_iff: "isRepeatedRune s \<longleftrightarrow> s \<noteq> [] \<and> (\<exists>r. s = replicate (length s) r)"
proof (cases s)
  case (Cons r rs)
  have "list_all (\<lambda>x. x = r) rs \<longleftrightarrow> rs = replicate (length rs) r" by (induction rs) auto
  with Cons show ?thesis by auto
qed simp

lemma steps_of_map: "steps_of d (a # rs) \<longleftrightarrow> map int (a # rs) = map (\<lambda>i. int a + int i * d) [0..<Suc (length rs)]"
proof (induction rs arbitrary: a)
  case (Cons b rs)
  have shift: "map (\<lambda>i. int a + int i * d) [0..<Suc (length (b # rs))]
      = int a # map (\<lambda>i. (int a + d) + int i * d) [0..<Suc (length rs)]"
    using map_upt_Suc [of "\<lambda>i. int a + int i * d" "Suc (length rs)"] by (simp add: algebra_simps del: upt_Suc map_upt_Suc)
  show ?case
  proof (cases "int b = int a + d")
    case True
    have "steps_of d (a # b # rs) \<longleftrightarrow> steps_of d (b # rs)" using True by simp
    also have "\<dots> \<longleftrightarrow> map int (b # rs) = map (\<lambda>i. (int a + d) + int i * d) [0..<Suc (length rs)]"
      using Cons.IH [of b] True by simp
    finally show ?thesis unfolding shift by simp
  next
    case False
    have "hd (map (\<lambda>i. (int a + d) + int i * d) [0..<Suc (length rs)]) = int a + d"
      by (simp add: hd_map del: upt_Suc)
    with False have "int b # map int rs \<noteq> map (\<lambda>i. (int a + d) + int i * d) [0..<Suc (length rs)]"
      by (metis list.sel(1))
    with False show ?thesis unfolding shift by auto
  qed
qed simp

definition arithmetic_run :: "gostr \<Rightarrow> bool" where
  \<comment> \<open>consecutive code points, upwards or downwards\<close>
  "arithmetic_run s \<longleftrightarrow> length s \<ge> 2 \<and> (\<exists>a d. (d = 1 \<or> d = - 1) \<and> map int s = map (\<lambda>i. a + int i * d) [0..<length s])"

lemma isSequential_iff: "isSequential s \<longleftrightarrow> arithmetic_run s"
proof (cases s rule: isSequential.cases)
  case (1 a b rs)
  have "isSequential s \<longleftrightarrow> (\<exists>d. (d = 1 \<or> d = - 1) \<and> steps_of d (a # b # rs))"
    by (auto simp: 1 Let_def)
  also have "\<dots> \<longleftrightarrow> (\<exists>d. (d = 1 \<or> d = - 1) \<and> map int s = map (\<lambda>i. int a + int i * d) [0..<length s])"
    unfolding steps_of_map 1 by simp
  also have "\<dots> \<longleftrightarrow> arithmetic_run s"
  proof
    assume "arithmetic_run s"
    then obtain c d where d: "d = 1 \<or> d = - 1" "map int s = map (\<lambda>i. c + int i * d) [0..<length s]"
      unfolding arithmetic_run_def by blast
    have "hd (map int s) = c" unfolding d(2) by (simp add: 1 hd_map del: upt_Suc list.map)
    then have "c = int a" by (simp add: 1)
    with d show "\<exists>d. (d = 1 \<or> d = - 1) \<and> map int s = map (\<lambda>i. int a + int i * d) [0..<length s]" by blast
  qed (auto simp: arithmetic_run_def 1)
  finally show ?thesis .
qed (simp_all add: arithmetic_run_def)

lemma ValidateRegistration_Inr:
  "ValidateRegistration uc pa bl email username password = Inr (e, u) \<longleftrightarrow>
     e = NormalizeEmail uc email \<and> u = NormalizeUsername uc username \<and> validateEmail pa e = None \<and> validateUsername u = None
     \<and> validatePassword uc bl password e u = None"
  by (auto simp: ValidateRegistration_def Let_def split: option.splits)

end
