(* ===== verification/AuthService.thy ===== *)
theory AuthService
  imports AuthRules PkgAuth F64
begin

text \<open>
  services/auth: the users and accounts tables (internal/store/user\_store.go), the revoked
  tokens (internal/store/redis\_token\_store.go) and the service (internal/service/auth.go).

  Postgres, Redis and bcrypt are outside the repository. What the store relies on of Postgres
  is the record \<open>upg\<close>: which statements fail, how the commit ends, what \<open>lower\<close>
  and a NUMERIC column give, the identifiers and the times it draws. Redis is a map from keys to
  the instants their entries expire; \<open>rv_life\<close> is the lifetime the client library asks
  for when it is given one. The unique indexes are those left after migration 005, on the
  lower-case email and username. All calls of one operation read the same clock.
\<close>

section \<open>Data\<close>

record user =
  u_id :: uuid
  u_email :: gostr
  u_username :: gostr
  u_created :: instant
  u_updated :: instant
  u_hash :: gostr

record register_request =
  rr_email :: gostr
  rr_username :: gostr
  rr_password :: gostr

record login_request =
  lr_email :: gostr
  lr_password :: gostr

record token_pair =
  tp_access :: gostr
  tp_refresh :: gostr
  tp_expires_in :: int

record me_response =
  me_id :: uuid
  me_email :: gostr
  me_username :: gostr
  me_created :: instant
  me_updated :: instant

section \<open>The users table\<close>

datatype user_stmt = BeginUserTx | InsertUser | InsertAccount | SelectByEmail | SelectByID

record upg =
  up_fails :: "user_stmt \<Rightarrow> bool"
  up_commit :: commit_outcome
  up_lower :: "gostr \<Rightarrow> gostr"
  up_numeric :: "f64 \<Rightarrow> f64 option"
  up_uuid :: "nat \<Rightarrow> uuid"
  up_now :: instant

record udb =
  users :: "user list"
  user_accounts :: "(uuid \<times> f64) list"
  user_rows :: nat

definition insert_user :: "upg \<Rightarrow> gostr \<Rightarrow> gostr \<Rightarrow> gostr \<Rightarrow> udb \<Rightarrow> auth_err + uuid \<times> udb" where
  "insert_user env email username hash db =
     (let i = up_uuid env (user_rows db) in
      if up_fails env InsertUser then Inl ErrInfra
      else if i \<in> u_id ` set (users db)
          \<or> up_lower env email \<in> (\<lambda>u. up_lower env (u_email u)) ` set (users db)
          \<or> up_lower env username \<in> (\<lambda>u. up_lower env (u_username u)) ` set (users db) then Inl ErrDuplicateUser
      else Inr (i, db\<lparr>users := users db @ [\<lparr>u_id = i, u_email = email, u_username = username, u_created = up_now env,
             u_updated = up_now env, u_hash = hash\<rparr>], user_rows := Suc (user_rows db)\<rparr>))"

definition insert_account :: "upg \<Rightarrow> uuid \<Rightarrow> f64 \<Rightarrow> udb \<Rightarrow> auth_err + udb" where
  "insert_account env i balance db =
     (if up_fails env InsertAccount then Inl ErrInfra
      else case up_numeric env balance of
        None \<Rightarrow> Inl ErrInfra
      | Some b \<Rightarrow> Inr (db\<lparr>user_accounts := user_accounts db @ [(i, b)]\<rparr>))"

definition CreateUserWithAccount :: "upg \<Rightarrow> gostr \<Rightarrow> gostr \<Rightarrow> gostr \<Rightarrow> f64 \<Rightarrow> udb \<Rightarrow> (auth_err + uuid) \<times> udb" where
  \<comment> \<open>the transaction works on a copy; leaving it without a commit is the rollback\<close>
  "CreateUserWithAccount env email username hash startingBalance db =
     (if up_fails env BeginUserTx then (Inl ErrInfra, db)
      else case insert_user env email username hash db of
        Inl e \<Rightarrow> (Inl e, db)
      | Inr (i, work) \<Rightarrow>
          (case insert_account env i startingBalance work of
             Inl e \<Rightarrow> (Inl e, db)
           | Inr done \<Rightarrow>
               (case up_commit env of
                  CommitOk \<Rightarrow> (Inr i, done)
                | CommitFailed \<Rightarrow> (Inl ErrInfra, db)
                | CommitLost \<Rightarrow> (Inl ErrInfra, done))))"

definition GetUserByEmail :: "upg \<Rightarrow> gostr \<Rightarrow> udb \<Rightarrow> auth_err + user" where
  "GetUserByEmail env email db =
     (if up_fails env SelectByEmail then Inl ErrInfra
      else case find (\<lambda>u. up_lower env (u_email u) = email) (users db) of
        None \<Rightarrow> Inl ErrUserNotFound
      | Some u \<Rightarrow> Inr u)"

definition GetUserByID :: "upg \<Rightarrow> uuid \<Rightarrow> udb \<Rightarrow> auth_err + user" where
  \<comment> \<open>the password hash is not selected\<close>
  "GetUserByID env i db =
     (if up_fails env SelectByID then Inl ErrInfra
      else case find (\<lambda>u. u_id u = i) (users db) of
        None \<Rightarrow> Inl ErrUserNotFound
      | Some u \<Rightarrow> Inr (u\<lparr>u_hash := []\<rparr>))"

section \<open>The revoked tokens\<close>

type_synonym revoked = "gostr \<Rightarrow> instant option"

record rv_env =
  rv_get_fails :: bool
  rv_set_fails :: bool
  rv_life :: "int \<Rightarrow> int"

definition revokedKey :: "gostr \<Rightarrow> gostr" where
  "revokedKey jti = lit ''revoked:'' @ jti"

definition Revoke :: "rv_env \<Rightarrow> instant \<Rightarrow> gostr \<Rightarrow> int \<Rightarrow> revoked \<Rightarrow> bool \<times> revoked" where
  \<comment> \<open>whether the error is nil; a failed write leaves the map as it was\<close>
  "Revoke env now jti ttl rv =
     (if rv_set_fails env then (False, rv) else (True, rv(revokedKey jti \<mapsto> now + rv_life env ttl)))"

definition IsRevoked :: "rv_env \<Rightarrow> instant \<Rightarrow> gostr \<Rightarrow> revoked \<Rightarrow> bool option" where
  \<comment> \<open>\<open>None\<close> is an error of the store\<close>
  "IsRevoked env now jti rv =
     (if rv_get_fails env then None
      else case rv (revokedKey jti) of None \<Rightarrow> Some False | Some e \<Rightarrow> Some (now < e))"

section \<open>The service\<close>

definition AccessTokenTTL :: int where "AccessTokenTTL = 15 * 60 * second"
definition RefreshTokenTTL :: int where "RefreshTokenTTL = 7 * 24 * 60 * 60 * second"
definition StartingBalance :: f64 where "StartingBalance = FNum 100000"

text \<open>bcrypt: the hash of a password, drawn with a salt of its own, and the comparison.\<close>

datatype bcrypt_err = ErrPasswordTooLong | ErrBcrypt

record bcrypt_lib =
  bc_hash :: "gostr \<Rightarrow> bcrypt_err + gostr"
  bc_check :: "gostr \<Rightarrow> gostr \<Rightarrow> bool"

record auth_env =
  ae_upper :: "rune \<Rightarrow> rune"
  ae_address :: "gostr \<Rightarrow> gostr option"
  ae_blocklist :: gostr
  ae_bcrypt :: bcrypt_lib
  ae_dummy :: gostr
  ae_pg :: upg
  ae_rv :: rv_env
  ae_lib :: jwt_lib
  ae_secret :: secret
  ae_now :: instant
  ae_jti :: "bool \<Rightarrow> gostr"
  ae_uuid_text :: "uuid \<Rightarrow> gostr"
  ae_uuid :: "gostr \<Rightarrow> uuid option"

definition issueTokenPair :: "auth_env \<Rightarrow> uuid \<Rightarrow> auth_err + token_pair" where
  "issueTokenPair env user =
     (case GenerateToken (ae_lib env) (ae_jti env True) (ae_now env) (ae_secret env) (ae_uuid_text env user) TokenTypeAccess AccessTokenTTL of
        None \<Rightarrow> Inl ErrInfra
      | Some access \<Rightarrow>
          (case GenerateToken (ae_lib env) (ae_jti env False) (ae_now env) (ae_secret env) (ae_uuid_text env user) TokenTypeRefresh RefreshTokenTTL of
             None \<Rightarrow> Inl ErrInfra
           | Some refresh \<Rightarrow> Inr \<lparr>tp_access = access, tp_refresh = refresh, tp_expires_in = AccessTokenTTL div second\<rparr>))"

definition Register :: "auth_env \<Rightarrow> register_request \<Rightarrow> udb \<Rightarrow> (auth_err + token_pair) \<times> udb" where
  "Register env req db =
     (case ValidateRegistration (ae_upper env) (ae_address env) (ae_blocklist env) (rr_email req) (rr_username req) (rr_password req) of
        Inl rule \<Rightarrow> (Inl (ErrInvalidInput rule), db)
      | Inr (email, username) \<Rightarrow>
          (case bc_hash (ae_bcrypt env) (rr_password req) of
             Inl e \<Rightarrow> (Inl (if e = ErrPasswordTooLong then ErrInvalidInput PasswordTooLong else ErrInfra), db)
           | Inr hash \<Rightarrow>
               (case CreateUserWithAccount (ae_pg env) email username hash StartingBalance db of
                  (Inl e, db') \<Rightarrow> (Inl e, db')
                | (Inr user, db') \<Rightarrow> (issueTokenPair env user, db'))))"

definition Login :: "auth_env \<Rightarrow> login_request \<Rightarrow> udb \<Rightarrow> (auth_err + token_pair) \<times> (gostr \<times> gostr) list" where
  \<comment> \<open>the answer and the bcrypt comparisons made on the way, hash and password\<close>
  "Login env req db =
     (case GetUserByEmail (ae_pg env) (NormalizeEmail (ae_upper env) (lr_email req)) db of
        Inl e \<Rightarrow>
          (if e \<noteq> ErrUserNotFound then (Inl e, [])
           else (Inl ErrInvalidCredentials, [(ae_dummy env, lr_password req)]))
      | Inr user \<Rightarrow>
          (if \<not> bc_check (ae_bcrypt env) (u_hash user) (lr_password req)
           then (Inl ErrInvalidCredentials, [(u_hash user, lr_password req)])
           else (issueTokenPair env (u_id user), [(u_hash user, lr_password req)])))"

definition Refresh :: "auth_env \<Rightarrow> gostr \<Rightarrow> udb \<Rightarrow> revoked \<Rightarrow> auth_err + token_pair" where
  "Refresh env token db rv =
     (case ValidateToken (ae_lib env) (ae_now env) (ae_secret env) token of
        None \<Rightarrow> Inl ErrTokenInvalid
      | Some c \<Rightarrow>
          if c_type c \<noteq> TokenTypeRefresh then Inl ErrTokenInvalid
          else if IsRevoked (ae_rv env) (ae_now env) (c_id c) rv = Some True then Inl ErrTokenInvalid
          else (case ae_uuid env (c_subject c) of
              None \<Rightarrow> Inl ErrTokenInvalid
            | Some user \<Rightarrow>
                (case GetUserByID (ae_pg env) user db of
                   Inl e \<Rightarrow> (if e = ErrUserNotFound then Inl ErrTokenInvalid else Inl e)
                 | Inr _ \<Rightarrow> issueTokenPair env user)))"

datatype logout_result = LoggedOut | LogoutErr auth_err | LogoutPanic

definition Logout :: "auth_env \<Rightarrow> gostr \<Rightarrow> revoked \<Rightarrow> logout_result \<times> revoked" where
  \<comment> \<open>a token without an expiry makes the code dereference a nil pointer\<close>
  "Logout env token rv =
     (case ValidateToken (ae_lib env) (ae_now env) (ae_secret env) token of
        None \<Rightarrow> (LogoutErr ErrTokenInvalid, rv)
      | Some c \<Rightarrow>
          if c_type c \<noteq> TokenTypeRefresh then (LogoutErr ErrTokenInvalid, rv)
          else if c_id c = [] then (LogoutErr ErrTokenInvalid, rv)
          else (case c_expires c of
              None \<Rightarrow> (LogoutPanic, rv)
            | Some e \<Rightarrow>
                let ttl = e - ae_now env in
                if ttl \<le> 0 then (LoggedOut, rv)
                else (LoggedOut, snd (Revoke (ae_rv env) (ae_now env) (c_id c) ttl rv))))"

definition Me :: "auth_env \<Rightarrow> uuid \<Rightarrow> udb \<Rightarrow> auth_err + me_response" where
  "Me env i db =
     (case GetUserByID (ae_pg env) i db of
        Inl e \<Rightarrow> Inl e
      | Inr u \<Rightarrow> Inr \<lparr>me_id = u_id u, me_email = u_email u, me_username = u_username u,
          me_created = u_created u, me_updated = u_updated u\<rparr>)"

end
