(* ===== verification/AuthHandler.thy ===== *)
theory AuthHandler
  imports AuthService GoJSON
begin

text \<open>
  internal/handler of services/auth: the decoding of a body, the five endpoints (auth.go) and
  the routing table (router.go). A body is what the size limit and the JSON decoder make of it;
  the replies of routes the table does not name are chi's and have no model.
\<close>

section \<open>Bodies\<close>

datatype auth_body = BodyTooLarge | BodyMalformed | BodyJSON json

definition decodeJSON :: "(json \<Rightarrow> 'a option) \<Rightarrow> auth_body \<Rightarrow> 'b reply + 'a" where
  "decodeJSON decode body = (case body of
     BodyTooLarge \<Rightarrow> Inl (ErrorReply 413 ''invalid_request'' (lit ''request body is too large''))
   | BodyMalformed \<Rightarrow> Inl (ErrorReply 400 ''invalid_request'' (lit ''malformed JSON body''))
   | BodyJSON j \<Rightarrow> (case decode j of
       None \<Rightarrow> Inl (ErrorReply 400 ''invalid_request'' (lit ''malformed JSON body''))
     | Some v \<Rightarrow> Inr v))"

definition decode_register :: "json \<Rightarrow> register_request option" where
  "decode_register j =
     (case (dec_field (lit ''email'') dec_string [] j, dec_field (lit ''username'') dec_string [] j,
            dec_field (lit ''password'') dec_string [] j) of
        (Some e, Some u, Some p) \<Rightarrow> Some \<lparr>rr_email = e, rr_username = u, rr_password = p\<rparr>
      | _ \<Rightarrow> None)"

definition decode_login :: "json \<Rightarrow> login_request option" where
  "decode_login j =
     (case (dec_field (lit ''email'') dec_string [] j, dec_field (lit ''password'') dec_string [] j) of
        (Some e, Some p) \<Rightarrow> Some \<lparr>lr_email = e, lr_password = p\<rparr>
      | _ \<Rightarrow> None)"

definition decode_refresh :: "json \<Rightarrow> gostr option" where
  "decode_refresh j = dec_field (lit ''refresh_token'') dec_string [] j"

section \<open>The endpoints\<close>

definition internal_error :: "'b reply" where
  "internal_error = ErrorReply 500 ''internal_error'' (lit ''something went wrong'')"

definition handle_Register :: "auth_env \<Rightarrow> auth_body \<Rightarrow> udb \<Rightarrow> token_pair reply \<times> udb" where
  "handle_Register env body db =
     (case decodeJSON decode_register body of
        Inl r \<Rightarrow> (r, db)
      | Inr req \<Rightarrow>
          (case Register env req db of
             (Inr tokens, db') \<Rightarrow> (Reply 201 tokens, db')
           | (Inl (ErrInvalidInput rule), db') \<Rightarrow> (ErrorReply 400 ''invalid_request'' (InvalidInputMessage rule), db')
           | (Inl ErrDuplicateUser, db') \<Rightarrow> (ErrorReply 409 ''duplicate_user'' (lit ''email or username already exists''), db')
           | (Inl _, db') \<Rightarrow> (internal_error, db')))"

definition handle_Login :: "auth_env \<Rightarrow> auth_body \<Rightarrow> udb \<Rightarrow> token_pair reply" where
  "handle_Login env body db =
     (case decodeJSON decode_login body of
        Inl r \<Rightarrow> r
      | Inr req \<Rightarrow>
          (case fst (Login env req db) of
             Inr tokens \<Rightarrow> Reply 200 tokens
           | Inl e \<Rightarrow> if e = ErrInvalidCredentials
               then ErrorReply 401 ''invalid_credentials'' (lit ''invalid email or password'')
               else internal_error))"

definition handle_Me :: "auth_env \<Rightarrow> gostr option \<Rightarrow> udb \<Rightarrow> me_response reply" where
  "handle_Me env subject db =
     (case Option.bind subject (ae_uuid env) of
        None \<Rightarrow> writeUnauthorized
      | Some i \<Rightarrow>
          (case Me env i db of
             Inr profile \<Rightarrow> Reply 200 profile
           | Inl e \<Rightarrow> if e = ErrUserNotFound then writeUnauthorized else internal_error))"

definition handle_Refresh :: "auth_env \<Rightarrow> auth_body \<Rightarrow> udb \<Rightarrow> revoked \<Rightarrow> token_pair reply" where
  "handle_Refresh env body db rv =
     (case decodeJSON decode_refresh body of
        Inl r \<Rightarrow> r
      | Inr token \<Rightarrow>
          if token = [] then ErrorReply 400 ''invalid_request'' (lit ''refresh_token is required'')
          else (case Refresh env token db rv of
              Inr tokens \<Rightarrow> Reply 200 tokens
            | Inl e \<Rightarrow> if e = ErrTokenInvalid then writeUnauthorized else internal_error))"

definition handle_Logout :: "auth_env \<Rightarrow> auth_body \<Rightarrow> revoked \<Rightarrow> unit reply option \<times> revoked" where
  \<comment> \<open>\<open>None\<close> when the handler panics\<close>
  "handle_Logout env body rv =
     (case decodeJSON decode_refresh body of
        Inl r \<Rightarrow> (Some r, rv)
      | Inr token \<Rightarrow>
          if token = [] then (Some (ErrorReply 400 ''invalid_request'' (lit ''refresh_token is required'')), rv)
          else (case Logout env token rv of
              (LoggedOut, rv') \<Rightarrow> (Some (Reply 200 ()), rv')
            | (LogoutErr e, rv') \<Rightarrow> (Some (if e = ErrTokenInvalid then writeUnauthorized else internal_error), rv')
            | (LogoutPanic, rv') \<Rightarrow> (None, rv')))"

section \<open>The routing table\<close>

record auth_request =
  ar_method :: gostr
  ar_path :: gostr
  ar_auth :: gostr
  ar_body :: auth_body

datatype auth_answer = AuthHealthy | TokenReply "token_pair reply" | ProfileReply "me_response reply"
  | LogoutReply "unit reply" | AuthPanic | AuthUnrouted

definition NewRouter :: "auth_env \<Rightarrow> auth_request \<Rightarrow> udb \<times> revoked \<Rightarrow> auth_answer \<times> udb \<times> revoked" where
  "NewRouter env r = (\<lambda>(db, rv).
     if ar_method r = lit ''GET'' \<and> ar_path r = lit ''/healthz'' then (AuthHealthy, db, rv)
     else if ar_method r = lit ''POST'' \<and> ar_path r = lit ''/auth/register'' then
       (case handle_Register env (ar_body r) db of (a, db') \<Rightarrow> (TokenReply a, db', rv))
     else if ar_method r = lit ''POST'' \<and> ar_path r = lit ''/auth/login'' then
       (TokenReply (handle_Login env (ar_body r) db), db, rv)
     else if ar_method r = lit ''POST'' \<and> ar_path r = lit ''/auth/refresh'' then
       (TokenReply (handle_Refresh env (ar_body r) db rv), db, rv)
     else if ar_method r = lit ''POST'' \<and> ar_path r = lit ''/auth/logout'' then
       (case handle_Logout env (ar_body r) rv of
          (None, rv') \<Rightarrow> (AuthPanic, db, rv')
        | (Some a, rv') \<Rightarrow> (LogoutReply a, db, rv'))
     else if ar_method r = lit ''GET'' \<and> ar_path r = lit ''/auth/me'' then
       RequireAuth (ae_lib env) (ae_now env) (ae_secret env) (ar_auth r) (ProfileReply writeUnauthorized, db, rv)
         (\<lambda>subject. (ProfileReply (handle_Me env (Some subject) db), db, rv))
     else (AuthUnrouted, db, rv))"

end
