(* ===== verification/AuthProps.thy ===== *)
theory AuthProps
  imports AuthHandler
begin

text \<open>
  The auth service: what a registration lets through, the identities a reachable database
  holds, logging in after registering, and the revocation of a refresh token.
\<close>

section \<open>Registration rules\<close>

text \<open>A registration is accepted exactly when every rule holds of the normalized identity
  and the password as typed: the email parses to itself and is at most 254 bytes, the username
  is 3 to 30 of the permitted characters, the password has at least 15 characters and at most
  72 bytes, is not on the blocklist, contains neither the service's names nor the username nor
  the local part of the email, and is neither one repeated character nor a run of consecutive
  ones; what is stored is the trimmed lower-case form.\<close>

theorem registration_rules:
  "ValidateRegistration uc parse_address blocklist email username password = Inr (e, u) \<longleftrightarrow>
     e = to_lower uc (trim_space email) \<and> u = to_lower uc (trim_space username)
   \<and> parse_address e = Some e \<and> 0 < byte_len e \<and> byte_len e \<le> 254
   \<and> 3 \<le> length u \<and> length u \<le> 30 \<and> list_all username_rune u
   \<and> 15 \<le> length password \<and> byte_len password \<le> 72
   \<and> to_lower uc password \<notin> parseBlocklist uc blocklist
   \<and> list_all (\<lambda>term. \<not> (\<exists>before after. to_lower uc password = before @ term @ after)) (contextTerms e u)
   \<and> \<not> (\<exists>r. password = replicate (length password) r) \<and> \<not> arithmetic_run password"
proof -
  have email: "validateEmail parse_address e = None \<longleftrightarrow> parse_address e = Some e \<and> 0 < byte_len e \<and> byte_len e \<le> 254" for e
    by (auto simp: validateEmail_def auth_limits zero_less_iff_neq_zero split: option.splits if_splits)
  have username: "validateUsername u = None \<longleftrightarrow> 3 \<le> length u \<and> length u \<le> 30 \<and> list_all username_rune u" for u
    by (auto simp: validateUsername_def auth_limits)
  have terms: "list_ex (contains_str s) ts \<longleftrightarrow> \<not> list_all (\<lambda>term. \<not> (\<exists>before after. s = before @ term @ after)) ts" for s ts
    by (induction ts) (auto simp: contains_str_iff)
  have password: "validatePassword uc blocklist password e u = None \<longleftrightarrow> 15 \<le> length password \<and> byte_len password \<le> 72
      \<and> to_lower uc password \<notin> parseBlocklist uc blocklist
      \<and> list_all (\<lambda>term. \<not> (\<exists>before after. to_lower uc password = before @ term @ after)) (contextTerms e u)
      \<and> \<not> (\<exists>r. password = replicate (length password) r) \<and> \<not> arithmetic_run password" for e u
    by (auto simp: validatePassword_def checkBlocklist_def Let_def auth_limits terms isRepeatedRune_iff isSequential_iff)
  show ?thesis
    unfolding ValidateRegistration_Inr email username password NormalizeEmail_def NormalizeUsername_def by auto
qed

lemma descending_digits_pass: "\<not> isSequential (lit ''9876543210987654'')"
  by (simp add: lit_def Let_def)

section \<open>Identities\<close>

definition identities_ok :: "(gostr \<Rightarrow> gostr) \<Rightarrow> udb \<Rightarrow> bool" where
  \<comment> \<open>no two users share an identifier, an email or a username in any capitalisation, and every
    user has exactly one account, opened with the starting balance\<close>
  "identities_ok lower db \<longleftrightarrow>
     distinct (map u_id (users db)) \<and> distinct (map (\<lambda>u. lower (u_email u)) (users db))
   \<and> distinct (map (\<lambda>u. lower (u_username u)) (users db))
   \<and> user_accounts db = map (\<lambda>u. (u_id u, StartingBalance)) (users db)"

definition with_user :: "user \<Rightarrow> f64 \<Rightarrow> udb \<Rightarrow> udb" where
  "with_user u b db = \<lparr>users = users db @ [u], user_accounts = user_accounts db @ [(u_id u, b)], user_rows = Suc (user_rows db)\<rparr>"

definition fresh_user :: "(gostr \<Rightarrow> gostr) \<Rightarrow> user \<Rightarrow> udb \<Rightarrow> bool" where
  "fresh_user lower u db \<longleftrightarrow> u_id u \<notin> u_id ` set (users db)
     \<and> lower (u_email u) \<notin> (\<lambda>u. lower (u_email u)) ` set (users db)
     \<and> lower (u_username u) \<notin> (\<lambda>u. lower (u_username u)) ` set (users db)"

lemma CreateUserWithAccount_cases:
  assumes "CreateUserWithAccount env email username hash balance db = (res, db')"
  obtains "db' = db" "\<not> is_ok res"
  | u b where "db' = with_user u b db" "u_email u = email" "u_username u = username" "u_hash u = hash"
      "up_numeric env balance = Some b" "fresh_user (up_lower env) u db" "is_ok res \<Longrightarrow> res = Inr (u_id u)"
proof -
  let ?u = "\<lparr>u_id = up_uuid env (user_rows db), u_email = email, u_username = username, u_created = up_now env,
      u_updated = up_now env, u_hash = hash\<rparr>"
  consider (same) "db' = db" "\<not> is_ok res"
    | (new) b where "db' = with_user ?u b db" "up_numeric env balance = Some b" "fresh_user (up_lower env) ?u db"
        "is_ok res \<Longrightarrow> res = Inr (u_id ?u)"
    using assms
    by (cases db) (auto simp: CreateUserWithAccount_def insert_user_def insert_account_def Let_def with_user_def fresh_user_def
        split: if_splits sum.splits option.splits commit_outcome.splits)
  then show thesis
  proof cases
    case new
    then show ?thesis by (intro that(2) [of ?u b]) simp_all
  qed (rule that(1))
qed

lemma Register_cases:
  assumes "Register env req db = (res, db')"
  obtains "db' = db" "\<not> is_ok res"
  | u b where "db' = with_user u b db" "u_email u = NormalizeEmail (ae_upper env) (rr_email req)"
      "u_username u = NormalizeUsername (ae_upper env) (rr_username req)" "bc_hash (ae_bcrypt env) (rr_password req) = Inr (u_hash u)"
      "up_numeric (ae_pg env) StartingBalance = Some b" "fresh_user (up_lower (ae_pg env)) u db"
      "is_ok res \<Longrightarrow> res = issueTokenPair env (u_id u)"
proof (cases "ValidateRegistration (ae_upper env) (ae_address env) (ae_blocklist env) (rr_email req) (rr_username req) (rr_password req)")
  case (Inl rule)
  with assms have "db' = db \<and> \<not> is_ok res" by (auto simp: Register_def)
  with that(1) show ?thesis by blast
next
  case valid: (Inr eu)
  obtain e u where eu: "eu = (e, u)" by force
  with valid have norm: "e = NormalizeEmail (ae_upper env) (rr_email req)" "u = NormalizeUsername (ae_upper env) (rr_username req)"
    by (simp_all add: ValidateRegistration_Inr)
  show ?thesis
  proof (cases "bc_hash (ae_bcrypt env) (rr_password req)")
    case (Inl err)
    with assms valid eu have "db' = db \<and> \<not> is_ok res" by (auto simp: Register_def)
    with that(1) show ?thesis by blast
  next
    case (Inr h)
    obtain r1 where c: "CreateUserWithAccount (ae_pg env) e u h StartingBalance db = (r1, db')"
        "res = (case r1 of Inl x \<Rightarrow> Inl x | Inr i \<Rightarrow> issueTokenPair env i)"
      using assms valid eu Inr
      by (cases "CreateUserWithAccount (ae_pg env) e u h StartingBalance db") (auto simp: Register_def split: sum.splits)
    from c(1) show ?thesis
    proof (cases rule: CreateUserWithAccount_cases)
      case 1
      with c(2) that(1) show ?thesis by (cases r1) auto
    next
      case (2 w b)
      have "res = issueTokenPair env (u_id w)" if "is_ok res" using that c(2) 2(7) by (cases r1) auto
      with 2 Inr norm show ?thesis by (intro that(2) [of w b]) simp_all
    qed
  qed
qed

inductive auth_reachable :: "(gostr \<Rightarrow> gostr) \<Rightarrow> udb \<Rightarrow> bool" for lower where
  \<comment> \<open>the requests of any clients, one after the other\<close>
  start: "auth_reachable lower \<lparr>users = [], user_accounts = [], user_rows = 0\<rparr>"
| request: "auth_reachable lower db \<Longrightarrow> NewRouter env r (db, rv) = (answer, db', rv') \<Longrightarrow> up_lower (ae_pg env) = lower \<Longrightarrow>
    up_numeric (ae_pg env) StartingBalance = Some StartingBalance \<Longrightarrow> auth_reachable lower db'"

lemma NewRouter_db:
  assumes "NewRouter env r (db, rv) = (answer, db', rv')"
  shows "db' = db \<or> (\<exists>req res. Register env req db = (res, db'))"
  using assms
  by (auto simp: NewRouter_def handle_Register_def RequireAuth_def split: if_splits prod.splits sum.splits option.splits auth_err.splits)

lemma Register_identities:
  assumes "Register env req db = (res, db')" and "identities_ok (up_lower (ae_pg env)) db"
    and "up_numeric (ae_pg env) StartingBalance = Some StartingBalance"
  shows "identities_ok (up_lower (ae_pg env)) db'"
  using assms(1)
proof (cases rule: Register_cases)
  case 1
  then show ?thesis using assms(2) by simp
next
  case (2 u b)
  with assms(2,3) show ?thesis by (auto simp: identities_ok_def with_user_def fresh_user_def)
qed

text \<open>C11. In every reachable state of the auth service's tables no two users share an email or a
  username in any capitalisation, and every user has exactly one account, opened with the
  starting balance: no interleaving of requests, failed statement or lost commit leaves a
  duplicate or an unfunded user behind.\<close>

theorem identities_stay_unique:
  assumes "auth_reachable lower db"
  shows "identities_ok lower db"
  using assms
proof induction
  case start
  show ?case by (simp add: identities_ok_def)
next
  case (request db env r rv answer db' rv')
  then show ?case using NewRouter_db Register_identities by metis
qed

section \<open>A small deployment\<close>

definition demo_claims :: claims where
  "demo_claims = \<lparr>c_type = TokenTypeRefresh, c_id = [5], c_subject = [1], c_issued = None, c_expires = Some (3600 * second)\<rparr>"

definition demo_auth :: auth_env where
  "demo_auth = \<lparr>ae_upper = id, ae_address = Some, ae_blocklist = [],
     ae_bcrypt = \<lparr>bc_hash = Inr, bc_check = (=)\<rparr>, ae_dummy = [],
     ae_pg = \<lparr>up_fails = (\<lambda>_. False), up_commit = CommitOk, up_lower = to_lower id, up_numeric = Some, up_uuid = (\<lambda>n. n), up_now = 0\<rparr>,
     ae_rv = \<lparr>rv_get_fails = False, rv_set_fails = False, rv_life = (\<lambda>d. d div 1000000 * 1000000)\<rparr>,
     ae_lib = \<lparr>jl_sign = (\<lambda>_ _. Some [8]), jl_parse = (\<lambda>_ _ _. None), jl_numeric = id\<rparr>,
     ae_secret = [], ae_now = 0, ae_jti = (\<lambda>_. [5]), ae_uuid_text = (\<lambda>n. [n]), ae_uuid = (\<lambda>s. case s of [n] \<Rightarrow> Some n | _ \<Rightarrow> None)\<rparr>"

definition demo_request :: register_request where
  "demo_request = \<lparr>rr_email = lit ''A@b.co'', rr_username = lit ''bob'', rr_password = lit ''quiet-harbor-nine''\<rparr>"

definition demo_user :: user where
  "demo_user = \<lparr>u_id = 0, u_email = lit ''a@b.co'', u_username = lit ''bob'', u_created = 0, u_updated = 0, u_hash = lit ''quiet-harbor-nine''\<rparr>"

lemma demo_norm: "NormalizeEmail id (lit ''A@b.co'') = lit ''a@b.co''" "NormalizeEmail id (lit '' a@B.co'') = lit ''a@b.co''"
    "NormalizeUsername id (lit ''bob'') = lit ''bob''" "to_lower id (lit ''a@b.co'') = lit ''a@b.co''"
    "to_lower id (lit ''quiet-harbor-nine'') = lit ''quiet-harbor-nine''"
  by (simp_all add: NormalizeEmail_def NormalizeUsername_def to_lower_def lower_rune_def trim_space_def trim_right_def is_space_def lit_def)

lemma demo_password: "validatePassword id [] (lit ''quiet-harbor-nine'') (lit ''a@b.co'') (lit ''bob'') = None"
proof -
  have "contextTerms (lit ''a@b.co'') (lit ''bob'') = [lit ''quantsim'', lit ''trading'', lit ''bob'']"
    by (simp add: contextTerms_def serviceTerms_def minContextTerm_def emailLocalPart_def last_index_def lit_def)
  moreover have "parseBlocklist id [] = {}"
    by (simp add: parseBlocklist_def List.map_filter_simps blocklist_entry_def to_lower_def trim_space_def trim_right_def)
  moreover have "\<not> list_ex (contains_str (lit ''quiet-harbor-nine'')) [lit ''quantsim'', lit ''trading'', lit ''bob'']"
    by (simp add: lit_def has_prefix_def cut_prefix_def)
  moreover have "length (lit ''quiet-harbor-nine'') = 17" "byte_len (lit ''quiet-harbor-nine'') = 17"
    "\<not> isRepeatedRune (lit ''quiet-harbor-nine'')" "\<not> isSequential (lit ''quiet-harbor-nine'')"
    by (simp_all add: lit_def rune_len_def)
  ultimately show ?thesis
    by (auto simp: validatePassword_def checkBlocklist_def demo_norm auth_limits Let_def)
qed

lemma demo_registered:
  "Register demo_auth demo_request \<lparr>users = [], user_accounts = [], user_rows = 0\<rparr>
     = (Inr \<lparr>tp_access = [8], tp_refresh = [8], tp_expires_in = 900\<rparr>, \<lparr>users = [demo_user], user_accounts = [(0, StartingBalance)], user_rows = Suc 0\<rparr>)"
proof -
  have "ValidateRegistration id Some [] (lit ''A@b.co'') (lit ''bob'') (lit ''quiet-harbor-nine'') = Inr (lit ''a@b.co'', lit ''bob'')"
    unfolding ValidateRegistration_Inr demo_norm
    using demo_password by (simp add: validateEmail_def validateUsername_def auth_limits) (simp add: lit_def username_rune_def rune_len_def)
  then show ?thesis
    by (simp add: Register_def demo_auth_def demo_request_def demo_user_def CreateUserWithAccount_def insert_user_def insert_account_def
        issueTokenPair_def GenerateToken_def AccessTokenTTL_def second_def)
qed

theorem identities_stay_unique_witness:
  "identities_ok (to_lower id) \<lparr>users = [demo_user], user_accounts = [(0, StartingBalance)], user_rows = Suc 0\<rparr>"
proof (rule identities_stay_unique)
  let ?r = "\<lparr>ar_method = lit ''POST'', ar_path = lit ''/auth/register'', ar_auth = [],
     ar_body = BodyJSON (JObj [(lit ''email'', JStr (lit ''A@b.co'')), (lit ''username'', JStr (lit ''bob'')), (lit ''password'', JStr (lit ''quiet-harbor-nine''))])\<rparr>"
  have dec: "decode_register (JObj [(lit ''email'', JStr (lit ''A@b.co'')), (lit ''username'', JStr (lit ''bob'')), (lit ''password'', JStr (lit ''quiet-harbor-nine''))])
      = Some demo_request"
    by (simp add: decode_register_def demo_request_def dec_field_def dec_member_def names_field_def fold_rune_def lit_def dec_string_def)
  have post: "lit ''POST'' \<noteq> lit ''GET''" by (simp add: lit_def)
  have "NewRouter demo_auth ?r (\<lparr>users = [], user_accounts = [], user_rows = 0\<rparr>, Map.empty)
      = (TokenReply (Reply 201 \<lparr>tp_access = [8], tp_refresh = [8], tp_expires_in = 900\<rparr>),
         \<lparr>users = [demo_user], user_accounts = [(0, StartingBalance)], user_rows = Suc 0\<rparr>, Map.empty)"
    using post by (simp add: NewRouter_def handle_Register_def decodeJSON_def dec demo_registered)
  then show "auth_reachable (to_lower id) \<lparr>users = [demo_user], user_accounts = [(0, StartingBalance)], user_rows = Suc 0\<rparr>"
    by (rule auth_reachable.request [OF auth_reachable.start]) (simp_all add: demo_auth_def)
qed

section \<open>Logging in\<close>

text \<open>C25. Who has registered can log in: the email in any capitalisation and with any
  surrounding space, with the password of the registration, gives a token pair for the very user
  the registration issued its tokens for. Any other password and any email nobody registered are
  answered alike, after exactly one bcrypt comparison of the password each.\<close>

theorem registered_can_log_in:
  assumes "Register env req db = (Inr tokens, db')"
    and "\<forall>p h. bc_hash (ae_bcrypt env) p = Inr h \<longrightarrow> bc_check (ae_bcrypt env) h p"
    and "up_lower (ae_pg env) (NormalizeEmail (ae_upper env) (rr_email req)) = NormalizeEmail (ae_upper env) (rr_email req)"
    and "ae_bcrypt env' = ae_bcrypt env" and "up_lower (ae_pg env') = up_lower (ae_pg env)"
    and "\<not> up_fails (ae_pg env') SelectByEmail"
  shows "\<exists>u \<in> set (users db'). issueTokenPair env (u_id u) = Inr tokens
    \<and> bc_check (ae_bcrypt env) (u_hash u) (rr_password req)
    \<and> (\<forall>email password. NormalizeEmail (ae_upper env') email = NormalizeEmail (ae_upper env) (rr_email req) \<longrightarrow>
         Login env' \<lparr>lr_email = email, lr_password = password\<rparr> db' =
           (if bc_check (ae_bcrypt env) (u_hash u) password then issueTokenPair env' (u_id u) else Inl ErrInvalidCredentials, [(u_hash u, password)]))
    \<and> (\<forall>email password. NormalizeEmail (ae_upper env') email \<notin> (\<lambda>u. up_lower (ae_pg env) (u_email u)) ` set (users db') \<longrightarrow>
         Login env' \<lparr>lr_email = email, lr_password = password\<rparr> db' = (Inl ErrInvalidCredentials, [(ae_dummy env', password)]))"
  using assms(1)
proof (cases rule: Register_cases)
  case (2 u b)
  let ?E = "NormalizeEmail (ae_upper env) (rr_email req)"
  have found: "find (\<lambda>u. up_lower (ae_pg env) (u_email u) = ?E) (users db') = Some u"
  proof -
    have "find (\<lambda>u. up_lower (ae_pg env) (u_email u) = ?E) (users db) = None"
      using 2(2,6) assms(3) by (force simp: fresh_user_def find_None_iff)
    then show ?thesis using assms(3) by (simp add: 2(1,2) with_user_def find_snoc)
  qed
  have unknown: "find (\<lambda>u. up_lower (ae_pg env) (u_email u) = e) (users db') = None"
    if "e \<notin> (\<lambda>u. up_lower (ae_pg env) (u_email u)) ` set (users db')" for e
    using that by (auto simp: find_None_iff)
  have "u \<in> set (users db')" by (simp add: 2(1) with_user_def)
  moreover have "issueTokenPair env (u_id u) = Inr tokens" using 2(7) by simp
  moreover have "bc_check (ae_bcrypt env) (u_hash u) (rr_password req)" using assms(2) 2(4) by blast
  ultimately show ?thesis
    using assms(4-6) found unknown by (intro bexI [of _ u]) (auto simp: Login_def GetUserByEmail_def)
qed simp

theorem registered_can_log_in_witness:
  "Login demo_auth \<lparr>lr_email = lit '' a@B.co'', lr_password = lit ''quiet-harbor-nine''\<rparr>
       \<lparr>users = [demo_user], user_accounts = [(0, StartingBalance)], user_rows = Suc 0\<rparr>
     = (Inr \<lparr>tp_access = [8], tp_refresh = [8], tp_expires_in = 900\<rparr>, [(lit ''quiet-harbor-nine'', lit ''quiet-harbor-nine'')])"
proof -
  let ?db = "\<lparr>users = [demo_user], user_accounts = [(0, StartingBalance)], user_rows = Suc 0\<rparr>"
  have "\<exists>u \<in> set (users ?db). issueTokenPair demo_auth (u_id u) = Inr \<lparr>tp_access = [8], tp_refresh = [8], tp_expires_in = 900\<rparr>
    \<and> bc_check (ae_bcrypt demo_auth) (u_hash u) (rr_password demo_request)
    \<and> (\<forall>email password. NormalizeEmail (ae_upper demo_auth) email = NormalizeEmail (ae_upper demo_auth) (rr_email demo_request) \<longrightarrow>
         Login demo_auth \<lparr>lr_email = email, lr_password = password\<rparr> ?db =
           (if bc_check (ae_bcrypt demo_auth) (u_hash u) password then issueTokenPair demo_auth (u_id u) else Inl ErrInvalidCredentials, [(u_hash u, password)]))
    \<and> (\<forall>email password. NormalizeEmail (ae_upper demo_auth) email \<notin> (\<lambda>u. up_lower (ae_pg demo_auth) (u_email u)) ` set (users ?db) \<longrightarrow>
         Login demo_auth \<lparr>lr_email = email, lr_password = password\<rparr> ?db = (Inl ErrInvalidCredentials, [(ae_dummy demo_auth, password)]))"
    by (rule registered_can_log_in [OF demo_registered]) (simp_all add: demo_auth_def demo_request_def demo_norm)
  then obtain u where u: "u \<in> set (users ?db)" and pair: "issueTokenPair demo_auth (u_id u) = Inr \<lparr>tp_access = [8], tp_refresh = [8], tp_expires_in = 900\<rparr>"
    and login: "\<forall>email password. NormalizeEmail (ae_upper demo_auth) email = NormalizeEmail (ae_upper demo_auth) (rr_email demo_request) \<longrightarrow>
         Login demo_auth \<lparr>lr_email = email, lr_password = password\<rparr> ?db =
           (if bc_check (ae_bcrypt demo_auth) (u_hash u) password then issueTokenPair demo_auth (u_id u) else Inl ErrInvalidCredentials, [(u_hash u, password)])"
    by blast
  have "u_hash u = lit ''quiet-harbor-nine''" using u by (simp add: demo_user_def)
  moreover have "NormalizeEmail (ae_upper demo_auth) (lit '' a@B.co'') = NormalizeEmail (ae_upper demo_auth) (rr_email demo_request)"
    "bc_check (ae_bcrypt demo_auth) (lit ''quiet-harbor-nine'') (lit ''quiet-harbor-nine'')"
    by (simp_all add: demo_auth_def demo_request_def demo_norm)
  ultimately show ?thesis using login pair by simp
qed

section \<open>Logging out\<close>

definition logouts :: "(auth_env \<times> gostr) list \<Rightarrow> revoked \<Rightarrow> revoked" where
  \<comment> \<open>the store after a sequence of logouts, the only operation that writes to it\<close>
  "logouts calls rv = foldl (\<lambda>rv (env, token). snd (Logout env token rv)) rv calls"

definition keeps_for :: "rv_env \<Rightarrow> bool" where
  \<comment> \<open>an entry lives as long as it is asked to, to the millisecond\<close>
  "keeps_for env \<longleftrightarrow> (\<forall>d > 0. d - 10 ^ 6 < rv_life env d)"

lemma Logout_keeps:
  assumes "keeps_for (ae_rv env)" and "rv (revokedKey jti) = Some x" "e - 10 ^ 6 < x"
    and "\<forall>c. ValidateToken (ae_lib env) (ae_now env) (ae_secret env) token = Some c \<longrightarrow> c_id c = jti \<longrightarrow> c_expires c = Some e"
  shows "\<exists>y. snd (Logout env token rv) (revokedKey jti) = Some y \<and> e - 10 ^ 6 < y"
proof (cases "snd (Logout env token rv) (revokedKey jti) = rv (revokedKey jti)")
  case False
  then obtain c f where c: "ValidateToken (ae_lib env) (ae_now env) (ae_secret env) token = Some c" "c_expires c = Some f"
      "0 < f - ae_now env" "c_id c = jti" "snd (Logout env token rv) (revokedKey jti) = Some (ae_now env + rv_life (ae_rv env) (f - ae_now env))"
    by (auto simp: Logout_def Revoke_def Let_def revokedKey_def split: option.splits if_splits)
  then have "f = e" using assms(4) by simp
  with c assms(1) show ?thesis unfolding keeps_for_def by fastforce
qed (use assms(2,3) in auto)

lemma logouts_keep:
  assumes "\<forall>(env, token) \<in> set calls. keeps_for (ae_rv env)
      \<and> (\<forall>c. ValidateToken (ae_lib env) (ae_now env) (ae_secret env) token = Some c \<longrightarrow> c_id c = jti \<longrightarrow> c_expires c = Some e)"
    and "rv (revokedKey jti) = Some x" "e - 10 ^ 6 < x"
  shows "\<exists>y. logouts calls rv (revokedKey jti) = Some y \<and> e - 10 ^ 6 < y"
  using assms
proof (induction calls arbitrary: rv x)
  case (Cons call calls)
  obtain env token where call: "call = (env, token)" by force
  obtain y where "snd (Logout env token rv) (revokedKey jti) = Some y" "e - 10 ^ 6 < y"
    using Logout_keeps [where env = env and token = token and rv = rv and jti = jti and x = x and e = e] Cons.prems
    by (auto simp: call)
  then show ?case using Cons.IH [of "snd (Logout env token rv)" y] Cons.prems(1) by (simp add: logouts_def call)
qed (simp add: logouts_def)

text \<open>C5. Logging out ends a session: once a logout with a working store has answered success,
  its refresh token is refused at every later instant at which the store can be read, whatever
  logouts of other sessions come in between and wherever they fail, up to the last millisecond of
  the token's own life, for which the entry may be gone a moment early.\<close>

theorem logout_revokes:
  assumes "jwt_ok (ae_lib env)" and "Logout env token rv = (LoggedOut, rv')"
    and "\<not> rv_set_fails (ae_rv env)" and "keeps_for (ae_rv env)"
    and "ValidateToken (ae_lib env) (ae_now env) (ae_secret env) token = Some c" and "c_expires c = Some e"
    and "\<forall>(env2, token2) \<in> set between. keeps_for (ae_rv env2)
        \<and> (\<forall>c2. ValidateToken (ae_lib env2) (ae_now env2) (ae_secret env2) token2 = Some c2 \<longrightarrow> c_id c2 = c_id c \<longrightarrow> c_expires c2 = Some e)"
    and "ae_lib env3 = ae_lib env" "ae_secret env3 = ae_secret env" "\<not> rv_get_fails (ae_rv env3)"
    and "ae_now env3 \<notin> {e - 10 ^ 6 <..< e}"
  shows "Refresh env3 token db (logouts between rv') = Inl ErrTokenInvalid"
proof (cases "ValidateToken (ae_lib env) (ae_now env3) (ae_secret env) token")
  case None
  then show ?thesis by (simp add: Refresh_def assms(8,9))
next
  case (Some c')
  have c': "c' = c" using ValidateToken_Some [OF assms(1) assms(5)] Some by blast
  have later: "ae_now env3 < e" using ValidateToken_Some [OF assms(1) Some] assms(6) unfolding c' by blast
  have now: "ae_now env < e" using ValidateToken_Some [OF assms(1) assms(5)] assms(6) by blast
  then have "rv' (revokedKey (c_id c)) = Some (ae_now env + rv_life (ae_rv env) (e - ae_now env))"
    using assms(2,3,5,6) by (auto simp: Logout_def Revoke_def Let_def split: if_splits)
  moreover have "e - 10 ^ 6 < ae_now env + rv_life (ae_rv env) (e - ae_now env)"
  proof -
    have "e - ae_now env - 10 ^ 6 < rv_life (ae_rv env) (e - ae_now env)" using assms(4) now by (simp add: keeps_for_def)
    then show ?thesis by linarith
  qed
  ultimately obtain y where y: "logouts between rv' (revokedKey (c_id c)) = Some y" "e - 10 ^ 6 < y"
    using logouts_keep [OF assms(7)] by blast
  have "ae_now env3 < y" using y(2) later assms(11) by auto
  with y(1) assms(10) have "IsRevoked (ae_rv env3) (ae_now env3) (c_id c) (logouts between rv') = Some True"
    by (simp add: IsRevoked_def)
  then show ?thesis by (simp add: Refresh_def assms(8,9) Some c')
qed

definition demo_session :: "int \<Rightarrow> auth_env" where
  "demo_session now = demo_auth\<lparr>ae_lib := one_token [] demo_claims, ae_now := now\<rparr>"

theorem logout_revokes_witness:
  "Refresh (demo_session (9 * second)) [7] \<lparr>users = [], user_accounts = [], user_rows = 0\<rparr>
     (logouts [(demo_session (2 * second), [7])] (snd (Logout (demo_session second) [7] Map.empty))) = Inl ErrTokenInvalid"
proof -
  have env: "ae_lib (demo_session n) = one_token [] demo_claims" "ae_now (demo_session n) = n" "ae_secret (demo_session n) = []"
      "ae_rv (demo_session n) = \<lparr>rv_get_fails = False, rv_set_fails = False, rv_life = (\<lambda>d. d div 1000000 * 1000000)\<rparr>" for n
    by (simp_all add: demo_session_def demo_auth_def)
  have keeps: "keeps_for (ae_rv (demo_session n))" for n
    by (auto simp: keeps_for_def env)
  have valid: "ValidateToken (one_token [] demo_claims) n [] [7] = Some demo_claims" if "n < 3600 * second" for n
    by (rule one_token_valid) (use that in \<open>simp add: demo_claims_def\<close>)
  have v: "ValidateToken (one_token [] demo_claims) second [] [7] = Some demo_claims"
    by (rule valid) (simp add: second_def)
  have out: "Logout (demo_session second) [7] Map.empty = (LoggedOut, snd (Logout (demo_session second) [7] Map.empty))"
    using v by (simp add: Logout_def env Let_def) (simp add: demo_claims_def second_def)
  have same: "\<forall>c2. ValidateToken (one_token [] demo_claims) n [] [7] = Some c2 \<longrightarrow> c_expires c2 = Some (3600 * second)" for n
    by (auto simp: ValidateToken_def one_token_def demo_claims_def split: if_splits)
  show ?thesis
    by (rule logout_revokes [OF _ out, where c = demo_claims and e = "3600 * second"])
      (use v same keeps in \<open>auto simp: env one_token_ok demo_claims_def second_def\<close>)
qed

end
