(* ===== verification/GoDuration.thy ===== *)
theory GoDuration
  imports Gateway
begin

text \<open>
  \<open>time.ParseDuration\<close>: an optional sign, then numbers with a fraction and a unit. The total is
  kept in a \<open>uint64\<close>, the part behind a point is computed in \<open>float64\<close>. \<open>None\<close> is
  an error.
\<close>

definition is_digit :: "rune \<Rightarrow> bool" where
  "is_digit c \<longleftrightarrow> 48 \<le> c \<and> c \<le> 57"

fun leading_int :: "int \<Rightarrow> gostr \<Rightarrow> (int \<times> gostr) option" where
  "leading_int x [] = Some (x, [])"
| "leading_int x (c # s) =
     (if \<not> is_digit c then Some (x, c # s)
      else if x > 2 ^ 63 div 10 then None
      else let y = 10 * x + int c - 48 in if y > 2 ^ 63 then None else leading_int y s)"

fun leading_fraction :: "int \<Rightarrow> f64 \<Rightarrow> bool \<Rightarrow> gostr \<Rightarrow> int \<times> f64 \<times> gostr" where
  \<comment> \<open>once the digits are too many for the accumulator, the rest is skipped\<close>
  "leading_fraction x scale overflow [] = (x, scale, [])"
| "leading_fraction x scale overflow (c # s) =
     (if \<not> is_digit c then (x, scale, c # s)
      else if overflow then leading_fraction x scale True s
      else if x > (2 ^ 63 - 1) div 10 then leading_fraction x scale True s
      else let y = 10 * x + int c - 48 in
        if y > 2 ^ 63 then leading_fraction x scale True s else leading_fraction y (scale * FNum 10) False s)"

definition unitMap :: "gostr \<Rightarrow> int option" where
  "unitMap u = map_of [(lit ''ns'', 1), (lit ''us'', 1000), ([181, 115], 1000), ([956, 115], 1000), (lit ''ms'', 1000000),
     (lit ''s'', 1000000000), (lit ''m'', 60 * 1000000000), (lit ''h'', 3600 * 1000000000)] u"

definition in_unit :: "rune \<Rightarrow> bool" where
  "in_unit c \<longleftrightarrow> \<not> (c = 46 \<or> is_digit c)"

definition parse_fraction :: "gostr \<Rightarrow> int \<times> f64 \<times> gostr \<times> bool" where
  \<comment> \<open>the digits behind a point, their scale, what follows, and whether there were any\<close>
  "parse_fraction s = (case s of
     [] \<Rightarrow> (0, FNum 1, [], False)
   | c # r \<Rightarrow> if c = 46 then (case leading_fraction 0 (FNum 1) False r of (f, scale, r') \<Rightarrow> (f, scale, r', length r' \<noteq> length r))
       else (0, FNum 1, c # r, False))"

lemma leading_int_rest: "leading_int x s = Some (y, r) \<Longrightarrow> length r \<le> length s"
  by (induction x s rule: leading_int.induct) (auto simp: Let_def split: if_splits)

lemma leading_fraction_rest: "leading_fraction x scale ov s = (y, scale', r) \<Longrightarrow> length r \<le> length s"
  by (induction x scale ov s rule: leading_fraction.induct) (auto simp: Let_def split: if_splits)

lemma parse_fraction_rest: "parse_fraction s = (f, scale, r, post) \<Longrightarrow> length r \<le> length s"
  by (auto simp: parse_fraction_def split: list.splits if_splits prod.splits dest: leading_fraction_rest)

lemma unit_shortens: "takeWhile in_unit s \<noteq> [] \<Longrightarrow> length (dropWhile in_unit s) < length s"
  by (cases s) (auto simp: length_dropWhile_le le_imp_less_Suc split: if_splits)

lemma term_shortens:
  assumes "leading_int 0 s = Some (v, s1)" "(f, scale, s2, post) = parse_fraction s1" "takeWhile in_unit s2 \<noteq> []"
  shows "length (dropWhile in_unit s2) < length s"
  using leading_int_rest [OF assms(1)] parse_fraction_rest [OF assms(2) [symmetric]] unit_shortens [OF assms(3)] by simp

definition term_value :: "int \<Rightarrow> int \<Rightarrow> f64 \<Rightarrow> int \<Rightarrow> int option" where
  \<comment> \<open>a number with its unit in nanoseconds\<close>
  "term_value v f scale unit =
     (if v > 2 ^ 63 div unit then None
      else if f > 0 then
        let w = v * unit + to_int (fint f * (fint unit / scale)) in if w > 2 ^ 63 then None else Some w
      else Some (v * unit))"

function parse_terms :: "gostr \<Rightarrow> int \<Rightarrow> int option" where
  "parse_terms s d =
     (if s = [] then Some d
      else if \<not> (hd s = 46 \<or> is_digit (hd s)) then None
      else case leading_int 0 s of
        None \<Rightarrow> None
      | Some (v, s1) \<Rightarrow>
          (case parse_fraction s1 of (f, scale, s2, post) \<Rightarrow>
             if length s1 = length s \<and> \<not> post then None
             else if takeWhile in_unit s2 = [] then None
             else case Option.bind (unitMap (takeWhile in_unit s2)) (term_value v f scale) of
               None \<Rightarrow> None
             | Some w \<Rightarrow>
                 let d' = (d + w) mod 2 ^ 64 in if d' > 2 ^ 63 then None else parse_terms (dropWhile in_unit s2) d'))"
  by pat_completeness auto
termination by (relation "measure (\<lambda>(s, d). length s)") (auto intro: term_shortens)

declare parse_terms.simps [simp del]

definition ParseDuration :: "gostr \<Rightarrow> int option" where
  "ParseDuration s0 =
     (let neg = (s0 \<noteq> [] \<and> hd s0 = 45);
          s = (if s0 \<noteq> [] \<and> (hd s0 = 45 \<or> hd s0 = 43) then tl s0 else s0)
      in if s = lit ''0'' then Some 0
         else if s = [] then None
         else case parse_terms s 0 of
           None \<Rightarrow> None
         | Some d \<Rightarrow>
             if neg then Some (wrap64 (- d))
             else if d > 2 ^ 63 - 1 then None
             else Some d)"

lemma parse_terms_range: "parse_terms s d = Some r \<Longrightarrow> 0 \<le> d \<Longrightarrow> d \<le> 2 ^ 63 \<Longrightarrow> 0 \<le> r \<and> r \<le> 2 ^ 63"
proof (induction s d rule: parse_terms.induct)
  case (1 s d)
  show ?case
  proof (cases "s = []")
    case True
    then show ?thesis using "1.prems" by (simp add: parse_terms.simps)
  next
    case False
    obtain v s1 f scale s2 post w where e: "leading_int 0 s = Some (v, s1)" "parse_fraction s1 = (f, scale, s2, post)"
      "hd s = 46 \<or> is_digit (hd s)" "\<not> (length s1 = length s \<and> \<not> post)" "takeWhile in_unit s2 \<noteq> []"
      "Option.bind (unitMap (takeWhile in_unit s2)) (term_value v f scale) = Some w"
      "\<not> (d + w) mod 2 ^ 64 > 2 ^ 63" "parse_terms (dropWhile in_unit s2) ((d + w) mod 2 ^ 64) = Some r"
      using "1.prems"(1) False by (subst (asm) parse_terms.simps) (auto simp: Let_def split: if_splits option.splits prod.splits)
    have "0 \<le> (d + w) mod 2 ^ 64" by simp
    then show ?thesis
      using "1.IH" [OF False _ e(1) refl e(2) [symmetric] refl refl e(4) e(5) e(6) refl e(7) e(8)] e(3,7) by simp
  qed
qed

lemma ParseDuration_int64: "ParseDuration s = Some d \<Longrightarrow> int64 d"
  by (auto simp: ParseDuration_def Let_def wrap64_int64 split: if_splits option.splits dest: parse_terms_range)
    (auto simp: int64_def dest: parse_terms_range)

end
