(* ===== verification/GatewayBoot.thy ===== *)
theory GatewayBoot
  imports GoDuration "HOL-Library.Monad_Syntax"
begin

text \<open>
  cmd/server/main.go of services/gateway: the policy read from the environment, what stops the
  process before it listens, and the running process with the sweeps of its limiters: one request
  after the other (\<open>gateway_run\<close>), and with requests that wait for their answers (\<open>gateway_flow\<close>). An
  environment variable that is not set reads as the empty text. \<open>None\<close> is \<open>log.Fatal\<close>.
  \<open>url.Parse\<close> is an argument: it gives the scheme, the host and the path of an absolute URL.
\<close>

section \<open>The environment\<close>

type_synonym environment = "gostr \<Rightarrow> gostr"

definition envOrDefault :: "environment \<Rightarrow> gostr \<Rightarrow> gostr \<Rightarrow> gostr" where
  "envOrDefault getenv key fallback = (if getenv key \<noteq> [] then getenv key else fallback)"

record parsed_url =
  pu_scheme :: gostr
  pu_host :: gostr
  pu_path :: gostr

definition mustParseURL :: "(gostr \<Rightarrow> parsed_url option) \<Rightarrow> gostr \<Rightarrow> parsed_url option" where
  "mustParseURL url_parse raw = (case url_parse raw of
     None \<Rightarrow> None
   | Some u \<Rightarrow> if pu_scheme u = [] \<or> pu_host u = [] then None else Some u)"

definition mustParsePositiveInt :: "gostr \<Rightarrow> int option" where
  "mustParsePositiveInt raw = (case Atoi raw of (v, ok) \<Rightarrow> if \<not> ok then None else if v \<le> 0 then None else Some v)"

definition mustParsePositiveDuration :: "gostr \<Rightarrow> int option" where
  "mustParsePositiveDuration raw = (case ParseDuration raw of
     None \<Rightarrow> None
   | Some d \<Rightarrow> if d \<le> 0 then None else Some d)"

definition mustParseTrustedProxies :: "('a, 'p) netip \<Rightarrow> gostr \<Rightarrow> 'p list option" where
  "mustParseTrustedProxies ni raw = ParseTrustedProxies ni raw"

section \<open>The policy\<close>

definition loginBackoffBase :: int where "loginBackoffBase = 60 * second_ns"
definition evictInterval :: int where "evictInterval = 5 * 60 * second_ns"
definition defaultAllowedOrigin :: gostr where "defaultAllowedOrigin = lit ''http://localhost:5173''"
definition maxLoginBodyBytes :: int where "maxLoginBodyBytes = MaxBodyBytes"

definition rateLimitConfig :: "('a, 'p) netip \<Rightarrow> environment \<Rightarrow> 'p rate_limit_config option" where
  "rateLimitConfig ni getenv =
     (if \<not> envOrDefault getenv (lit ''RATE_LIMIT_ENABLED'') (lit ''true'') \<noteq> lit ''false'' then
        Some \<lparr>rl_enabled = False, rl_ip_limit = 0, rl_ip_window = 0, rl_trusted = [], rl_backoff = None, rl_max_login = 0\<rparr>
      else do {
        trusted \<leftarrow> mustParseTrustedProxies ni (getenv (lit ''TRUSTED_PROXIES''));
        ipLimit \<leftarrow> mustParsePositiveInt (envOrDefault getenv (lit ''RATE_LIMIT_IP_REQUESTS'') (lit ''100''));
        ipWindow \<leftarrow> mustParsePositiveDuration (envOrDefault getenv (lit ''RATE_LIMIT_IP_WINDOW'') (lit ''15m''));
        loginFailures \<leftarrow> mustParsePositiveInt (envOrDefault getenv (lit ''RATE_LIMIT_LOGIN_FAILURES'') (lit ''5''));
        maxBackoff \<leftarrow> mustParsePositiveDuration (envOrDefault getenv (lit ''RATE_LIMIT_LOGIN_MAX_BACKOFF'') (lit ''15m''));
        Some \<lparr>rl_enabled = True, rl_ip_limit = ipLimit, rl_ip_window = ipWindow, rl_trusted = trusted,
          rl_backoff = Some \<lparr>FreeFailures = wrap64 (loginFailures - 1), BaseDelay = loginBackoffBase, MaxDelay = maxBackoff\<rparr>,
          rl_max_login = maxLoginBodyBytes\<rparr>
      })"

section \<open>The process\<close>

record ('a, 'p) gateway_libs =
  gl_url :: "gostr \<Rightarrow> parsed_url option"
  gl_netip :: "('a, 'p) netip"
  gl_jwt :: jwt_lib
  gl_parse :: "nat list \<Rightarrow> json option"
  gl_lower :: "rune \<Rightarrow> rune"
  gl_known :: "gostr \<Rightarrow> bool"

text \<open>What answers the requests sent to a target is known only when they are sent, so the router
  of the process takes it.\<close>

type_synonym network = "parsed_url \<Rightarrow> greq \<Rightarrow> gresp option"

record ('a, 'p) gateway_process =
  gp_addr :: gostr
  gp_router :: "network \<Rightarrow> ('a, 'p) gateway_env"
  gp_store_sweep :: "int option"
  gp_backoff_sweep :: "int option"

definition gateway_main :: "('a, 'p) gateway_libs \<Rightarrow> environment \<Rightarrow> ('a, 'p) gateway_process option" where
  \<comment> \<open>the process at the call of \<open>ListenAndServe\<close>, with the intervals of its sweeps\<close>
  "gateway_main libs getenv =
     (let jwtSecret = getenv (lit ''JWT_SECRET'') in
      if jwtSecret = [] then None
      else if \<not> ValidateSecret (utf8 jwtSecret) then None
      else do {
        authURL \<leftarrow> mustParseURL (gl_url libs) (envOrDefault getenv (lit ''AUTH_SERVICE_URL'') (lit ''http://localhost:8081''));
        marketDataURL \<leftarrow> mustParseURL (gl_url libs) (envOrDefault getenv (lit ''MARKET_DATA_SERVICE_URL'') (lit ''http://localhost:8082''));
        tradingURL \<leftarrow> mustParseURL (gl_url libs) (envOrDefault getenv (lit ''TRADING_ENGINE_SERVICE_URL'') (lit ''http://localhost:8083''));
        backtestingURL \<leftarrow> mustParseURL (gl_url libs) (envOrDefault getenv (lit ''BACKTESTING_SERVICE_URL'') (lit ''http://localhost:8084''));
        insightsURL \<leftarrow> mustParseURL (gl_url libs) (envOrDefault getenv (lit ''INSIGHTS_SERVICE_URL'') (lit ''http://localhost:8085''));
        rateLimit \<leftarrow> rateLimitConfig (gl_netip libs) getenv;
        Some \<lparr>gp_addr = envOrDefault getenv (lit ''BIND_ADDR'') (lit ''127.0.0.1'') @ lit '':'' @ envOrDefault getenv (lit ''PORT'') (lit ''8080''),
          gp_router = (\<lambda>net. \<lparr>ge_netip = gl_netip libs, ge_jwt = gl_jwt libs, ge_secret = utf8 jwtSecret, ge_parse = gl_parse libs,
            ge_lower = gl_lower libs, ge_known = gl_known libs,
            ge_backend = (\<lambda>svc. net (case svc of AuthService \<Rightarrow> authURL | MarketData \<Rightarrow> marketDataURL | TradingEngine \<Rightarrow> tradingURL
              | Backtesting \<Rightarrow> backtestingURL | AIInsights \<Rightarrow> insightsURL)),
            ge_origin = envOrDefault getenv (lit ''CORS_ALLOWED_ORIGIN'') defaultAllowedOrigin, ge_rate = rateLimit\<rparr>),
          gp_store_sweep = (if rl_enabled rateLimit then Some (rl_ip_window rateLimit) else None),
          gp_backoff_sweep = (if rl_enabled rateLimit \<and> rl_backoff rateLimit \<noteq> None then Some evictInterval else None)\<rparr>
      })"

text \<open>What happens to the process after it started to listen: a request, with what its backend
  would answer, or a tick of one of the two sweeps, which \<open>Run\<close> of the store and of the backoff
  start. The tickers may be late, so a tick may come at any time.\<close>

datatype gateway_event = Arrives network greq | StoreTick | BackoffTick

definition gateway_step :: "('a, 'p) gateway_process \<Rightarrow> instant \<Rightarrow> gateway_event \<Rightarrow> gstate \<Rightarrow> gstate" where
  "gateway_step gw now ev s = (case ev of
     Arrives net r \<Rightarrow> snd (NewRouter (gp_router gw net) now r s)
   | StoreTick \<Rightarrow> (case gp_store_sweep gw of None \<Rightarrow> s | Some _ \<Rightarrow> s\<lparr>gs_store := EvictStale now (gs_store s)\<rparr>)
   | BackoffTick \<Rightarrow>
       (case (gp_backoff_sweep gw, rl_backoff (ge_rate (gp_router gw (\<lambda>_ _. None)))) of
          (Some _, Some cfg) \<Rightarrow> s\<lparr>gs_backoff := Backoff_EvictStale cfg now (gs_backoff s)\<rparr>
        | _ \<Rightarrow> s))"

fun gateway_run :: "('a, 'p) gateway_process \<Rightarrow> (instant \<times> gateway_event) list \<Rightarrow> gstate \<Rightarrow> gstate" where
  "gateway_run gw [] s = s"
| "gateway_run gw ((now, ev) # evs) s = gateway_run gw evs (gateway_step gw now ev s)"

text \<open>The server handles requests concurrently. A request enters: it is refused or forwarded, in
  one step, as the limiters lock around each of their calls and nothing else of a request is shared.
  Later the answer to the i-th forwarded request comes, with 502 for the status when the service
  could not be reached.\<close>

datatype flow_event = Enters greq | Answered nat int | SweepsStore | SweepsBackoff

definition flow_step :: "('a, 'p) gateway_process \<Rightarrow> instant \<Rightarrow> flow_event \<Rightarrow> gstate \<Rightarrow> gstate" where
  "flow_step gw now ev s = (let env = gp_router gw (\<lambda>_ _. None) in case ev of
     Enters r \<Rightarrow> snd (router_waiting env now r s)
   | Answered i status \<Rightarrow>
       if i < length (gs_forwarded s) then login_answered env (gs_forwarded s ! i) status s else s
   | SweepsStore \<Rightarrow> gateway_step gw now StoreTick s
   | SweepsBackoff \<Rightarrow> gateway_step gw now BackoffTick s)"

fun gateway_flow :: "('a, 'p) gateway_process \<Rightarrow> (instant \<times> flow_event) list \<Rightarrow> gstate \<Rightarrow> gstate" where
  "gateway_flow gw [] s = s"
| "gateway_flow gw ((now, ev) # evs) s = gateway_flow gw evs (flow_step gw now ev s)"

definition gateway_start :: gstate where
  "gateway_start = \<lparr>gs_store = NewMemoryStore, gs_backoff = NewBackoff, gs_forwarded = []\<rparr>"

end
