(* ===== verification/GatewayBootFacts.thy ===== *)
theory GatewayBootFacts
  imports GatewayBoot GatewayFacts
begin

text \<open>
  A gateway that listens has the policy its environment states; the counters of the addresses
  over a run of requests and sweeps.
\<close>

section \<open>What a process that listens has\<close>

abbreviation policy :: "('a, 'p) gateway_process \<Rightarrow> 'p rate_limit_config" where
  "policy gw \<equiv> ge_rate (gp_router gw (\<lambda>_ _. None))"

lemma main_listens:
  assumes "gateway_main libs getenv = Some gw"
  shows "rateLimitConfig (gl_netip libs) getenv = Some (policy gw)"
    "ge_rate (gp_router gw net) = policy gw" "ge_netip (gp_router gw net) = gl_netip libs"
    "ge_parse (gp_router gw net) = gl_parse libs" "ge_lower (gp_router gw net) = gl_lower libs"
    "ge_secret (gp_router gw net) = utf8 (getenv (lit ''JWT_SECRET''))" "32 \<le> length (ge_secret (gp_router gw net))"
    "gp_store_sweep gw = (if rl_enabled (policy gw) then Some (rl_ip_window (policy gw)) else None)"
    "gp_backoff_sweep gw = (if rl_enabled (policy gw) \<and> rl_backoff (policy gw) \<noteq> None then Some evictInterval else None)"
  using assms
  by (auto simp: gateway_main_def Let_def ValidateSecret_def MinSecretLength_def not_less split: if_splits bind_splits)

lemma positive_int: "mustParsePositiveInt raw = Some v \<Longrightarrow> Atoi raw = (v, True) \<and> 1 \<le> v \<and> v \<le> max_int"
  by (auto simp: mustParsePositiveInt_def Atoi_def Let_def clamp_def max_int_def min_int_def split: if_splits prod.splits option.splits)

lemma positive_duration: "mustParsePositiveDuration raw = Some d \<Longrightarrow> ParseDuration raw = Some d \<and> 1 \<le> d \<and> d \<le> max_int"
  using ParseDuration_int64 [of raw d] by (auto simp: mustParsePositiveDuration_def int64_def max_int_def split: if_splits option.splits)

definition env_failures :: "environment \<Rightarrow> int" where
  "env_failures getenv = fst (Atoi (envOrDefault getenv (lit ''RATE_LIMIT_LOGIN_FAILURES'') (lit ''5'')))"

definition env_requests :: "environment \<Rightarrow> int" where
  "env_requests getenv = fst (Atoi (envOrDefault getenv (lit ''RATE_LIMIT_IP_REQUESTS'') (lit ''100'')))"

definition env_window :: "environment \<Rightarrow> int option" where
  "env_window getenv = ParseDuration (envOrDefault getenv (lit ''RATE_LIMIT_IP_WINDOW'') (lit ''15m''))"

definition env_max_backoff :: "environment \<Rightarrow> int option" where
  "env_max_backoff getenv = ParseDuration (envOrDefault getenv (lit ''RATE_LIMIT_LOGIN_MAX_BACKOFF'') (lit ''15m''))"

lemma limits_on:
  assumes "getenv (lit ''RATE_LIMIT_ENABLED'') \<noteq> lit ''false''" "rateLimitConfig ni getenv = Some rl"
  shows "rl_enabled rl" "rl_ip_limit rl = env_requests getenv" "1 \<le> env_requests getenv" "env_requests getenv \<le> max_int"
    "env_window getenv = Some (rl_ip_window rl)" "1 \<le> rl_ip_window rl" "rl_ip_window rl \<le> max_int"
    "\<exists>cap. env_max_backoff getenv = Some cap \<and> 1 \<le> cap \<and> rl_backoff rl = Some \<lparr>FreeFailures = env_failures getenv - 1, BaseDelay = loginBackoffBase, MaxDelay = cap\<rparr>"
    "1 \<le> env_failures getenv" "rl_max_login rl = MaxBodyBytes"
proof -
  have "lit ''true'' \<noteq> lit ''false''" by (simp add: lit_def)
  then have on: "envOrDefault getenv (lit ''RATE_LIMIT_ENABLED'') (lit ''true'') \<noteq> lit ''false''" using assms(1) by (simp add: envOrDefault_def)
  have w: "wrap64 (v - 1) = v - 1" if "1 \<le> v" "v \<le> max_int" for v using that by (intro wrap64_id) (simp add: int64_def max_int_def)
  show "rl_enabled rl" "rl_ip_limit rl = env_requests getenv" "1 \<le> env_requests getenv" "env_requests getenv \<le> max_int"
    "env_window getenv = Some (rl_ip_window rl)" "1 \<le> rl_ip_window rl" "rl_ip_window rl \<le> max_int"
    "\<exists>cap. env_max_backoff getenv = Some cap \<and> 1 \<le> cap \<and> rl_backoff rl = Some \<lparr>FreeFailures = env_failures getenv - 1, BaseDelay = loginBackoffBase, MaxDelay = cap\<rparr>"
    "1 \<le> env_failures getenv" "rl_max_login rl = MaxBodyBytes"
    using assms(2) on
    by (auto simp: rateLimitConfig_def env_failures_def env_requests_def env_window_def env_max_backoff_def maxLoginBodyBytes_def w
        split: bind_splits dest!: positive_int positive_duration)
qed

section \<open>A cap below the base delay\<close>

text \<open>A cap that is shorter than the base delay makes the cap the base delay.\<close>

definition capped :: "backoff_config \<Rightarrow> backoff_config" where
  "capped cfg = cfg\<lparr>BaseDelay := min (BaseDelay cfg) (MaxDelay cfg)\<rparr>"

lemma capped_sel [simp]: "FreeFailures (capped cfg) = FreeFailures cfg" "MaxDelay (capped cfg) = MaxDelay cfg"
    "BaseDelay (capped cfg) = min (BaseDelay cfg) (MaxDelay cfg)"
  by (simp_all add: capped_def)

lemma double_until_ge: "cap \<le> d \<Longrightarrow> double_until cap n d = d"
  by (cases n) simp_all

lemma Delay_capped: "Delay failures (capped cfg) = Delay failures cfg"
  by (cases "MaxDelay cfg \<le> BaseDelay cfg") (simp_all add: Delay_def Let_def double_until_ge min_def)

lemma stale_capped: "stale (capped cfg) = stale cfg"
  by (simp add: stale_def fun_eq_iff)

lemma Attempt_capped: "Attempt (capped cfg) = Attempt cfg"
  unfolding Attempt_def Delay_capped stale_capped ..

lemma Evict_capped: "Backoff_EvictStale (capped cfg) = Backoff_EvictStale cfg"
  by (simp add: Backoff_EvictStale_def fun_eq_iff stale_capped)

section \<open>The counters of the addresses over a run\<close>

definition auth_forward :: "gstate \<Rightarrow> gstate \<Rightarrow> bool" where
  \<comment> \<open>the step forwarded a request to the auth service\<close>
  "auth_forward s s' \<longleftrightarrow> length (gs_forwarded s) < length (gs_forwarded s') \<and> fst (last (gs_forwarded s')) = AuthService"

definition ip_counted :: "('a, 'p) gateway_env \<Rightarrow> instant \<Rightarrow> gostr \<Rightarrow> gstate \<Rightarrow> gstate \<Rightarrow> bool" where
  \<comment> \<open>a step that reaches the auth service was let through by the store\<close>
  "ip_counted env now k s s' \<longleftrightarrow> gs_store s' = gs_store s \<and> \<not> auth_forward s s'
     \<or> (\<exists>res. Allow now k (rl_ip_limit (ge_rate env)) (rl_ip_window (ge_rate env)) (gs_store s) = (res, gs_store s')
          \<and> (auth_forward s s' \<longrightarrow> Allowed res))"

interpretation sto: step_relation "\<lambda>s s'. gs_store s' = gs_store s"
  by unfold_locales simp

lemma store_Proxy: "steps (\<lambda>s s'. gs_store s' = gs_store s) Q (Proxy backend svc)"
  by (rule stepsI) (auto simp: Proxy_def Let_def split: option.splits)

lemma store_login: "steps (\<lambda>s s'. gs_store s' = gs_store s) Q (login_throttle env now (Proxy backend svc))"
proof (rule stepsI)
  fix r h s resp s'
  assume run: "login_throttle env now (Proxy backend svc) r h s = (resp, s')"
  have p: "gs_store (snd (Proxy backend svc r h s1)) = gs_store s1" for s1
    by (simp add: Proxy_def Let_def split: option.split)
  have "gs_store (snd (RateLimitLoginByAccount parse uc now cfg m (Proxy backend svc) r h s)) = gs_store s" for parse uc cfg m
  proof (cases "Attempt cfg now (loginEmail parse uc m (g_body r)) (gs_backoff s)")
    case (Pair res b1)
    then show ?thesis using p [of s] p [of "s\<lparr>gs_backoff := b1\<rparr>"]
      by (cases "Proxy backend svc r h (s\<lparr>gs_backoff := b1\<rparr>)") (simp add: RateLimitLoginByAccount_def Let_def)
  qed
  then show "gs_store s' = gs_store s"
    using run p [of s] by (simp add: login_throttle_def prod_eq_iff split: option.splits if_splits) metis+
qed

lemma ip_throttle_counted:
  assumes "rl_enabled (ge_rate env)" "ip_throttle env now next r h s = (resp, s')"
    and "steps (\<lambda>s s'. gs_store s' = gs_store s) (\<lambda>_. True) next"
  shows "ip_counted env now (clientIP (ge_netip env) (rl_trusted (ge_rate env)) r) s s'"
proof -
  let ?k = "clientIP (ge_netip env) (rl_trusted (ge_rate env)) r"
  obtain res st where a: "Allow now ?k (rl_ip_limit (ge_rate env)) (rl_ip_window (ge_rate env)) (gs_store s) = (res, st)" by fastforce
  show ?thesis
  proof (cases "Allowed res")
    case True
    then have "next r h (s\<lparr>gs_store := st\<rparr>) = (resp, s')" using assms(1,2) a by (simp add: ip_throttle_def RateLimitByIP_def)
    from stepsD [OF assms(3) this] show ?thesis using a True by (auto simp: ip_counted_def)
  next
    case False
    then have "s' = s\<lparr>gs_store := st\<rparr>" using assms(1,2) a by (simp add: ip_throttle_def RateLimitByIP_def)
    then show ?thesis using a by (auto simp: ip_counted_def auth_forward_def)
  qed
qed

lemma routed_counted:
  assumes "rl_enabled (ge_rate env)" "routed env now r h s = (resp, s')"
  shows "ip_counted env now (clientIP (ge_netip env) (rl_trusted (ge_rate env)) r) s s'"
  using routed_cases [OF assms(2)]
proof (elim disjE exE conjE)
  assume "s' = s" then show ?thesis by (simp add: ip_counted_def auth_forward_def)
next
  fix svc
  assume svc: "svc \<noteq> AuthService"
    and run: "Authenticated (ge_jwt env) now (ge_secret env) (InjectUserID (BufferBody (Proxy (ge_backend env) svc))) r h s = (resp, s')"
  have "gs_store s' = gs_store s"
    using stepsD [OF sto.steps_Authenticated [OF sto.steps_InjectUserID [OF sto.steps_BufferBody [OF store_Proxy]]] run, of "\<lambda>_. True"] by simp
  moreover have "\<not> auth_forward s s'"
    using forwardsD [OF forwards_Authenticated [OF forwards_InjectUserID [OF forwards_BufferBody [OF forwards_Proxy]]] run] svc
    by (auto simp: auth_forward_def)
  ultimately show ?thesis by (simp add: ip_counted_def)
qed (auto intro: ip_throttle_counted [OF assms(1)] sto.steps_BufferBody store_Proxy store_login)

lemma clientIP_keeps: "clientIP ni trusted (r\<lparr>g_headers := hdel UserIDHeader (g_headers r)\<rparr>) = clientIP ni trusted r"
    "clientIP ni trusted (r\<lparr>g_body := b\<rparr>) = clientIP ni trusted r"
  using header_names by (simp_all add: clientIP_def Let_def hget_def hdel_def)

lemma CORS_cases: "snd (CORS allowed next r h s) = s \<or> (\<exists>h'. CORS allowed next r h s = next r h' s)"
  by (simp add: CORS_def Let_def) blast

lemma LimitBody_cases: "snd (LimitBody limit next r h s) = s \<or> LimitBody limit next r h s = next (r\<lparr>g_body := MaxBytes limit (g_body r)\<rparr>) h s"
  by (simp add: LimitBody_def)

lemma router_counted:
  assumes "rl_enabled (ge_rate env)"
  shows "ip_counted env now (clientIP (ge_netip env) (rl_trusted (ge_rate env)) r) s (snd (NewRouter env now r s))"
proof -
  define r0 where "r0 = r\<lparr>g_headers := hdel UserIDHeader (g_headers r)\<rparr>"
  consider "snd (NewRouter env now r s) = s"
    | h0 where "snd (NewRouter env now r s) = snd (routed env now (r0\<lparr>g_body := MaxBytes MaxBodyBytes (g_body r0)\<rparr>) h0 s)"
    unfolding NewRouter_def StripUserID_def r0_def [symmetric]
    using CORS_cases [of "ge_origin env" "LimitBody MaxBodyBytes (routed env now)" r0 "\<lambda>_. None" s]
      LimitBody_cases [of MaxBodyBytes "routed env now" r0 _ s] by metis
  then show ?thesis
  proof cases
    case 2
    let ?r = "r0\<lparr>g_body := MaxBytes MaxBodyBytes (g_body r0)\<rparr>"
    have "ip_counted env now (clientIP (ge_netip env) (rl_trusted (ge_rate env)) ?r) s (snd (routed env now ?r h0 s))"
      by (rule routed_counted [OF assms]) (rule prod.collapse [symmetric])
    then show ?thesis by (simp add: 2 clientIP_keeps r0_def)
  qed (simp add: ip_counted_def auth_forward_def)
qed

definition from_address :: "('a, 'p) gateway_process \<Rightarrow> gostr \<Rightarrow> gateway_event \<Rightarrow> bool" where
  "from_address gw k ev = (case ev of
     Arrives net r \<Rightarrow> clientIP (ge_netip (gp_router gw net)) (rl_trusted (policy gw)) r = k | _ \<Rightarrow> False)"

fun auth_passes :: "('a, 'p) gateway_process \<Rightarrow> gostr \<Rightarrow> instant \<Rightarrow> instant \<Rightarrow> (instant \<times> gateway_event) list \<Rightarrow> gstate \<Rightarrow> nat" where
  \<comment> \<open>the requests from one address that reached the auth service from \<open>t\<close> to before \<open>u\<close>\<close>
  "auth_passes gw k t u [] s = 0"
| "auth_passes gw k t u ((now, ev) # evs) s =
     (let s' = gateway_step gw now ev s in
      (if from_address gw k ev \<and> t \<le> now \<and> now < u \<and> auth_forward s s' then 1 else 0) + auth_passes gw k t u evs s')"

lemma step_projects:
  assumes main: "gateway_main libs getenv = Some gw" and on: "rl_enabled (policy gw)"
  shows "\<exists>es. (\<forall>x \<in> set es. fst x = now) \<and> length es \<le> 1 \<and> one_policy k (rl_ip_limit (policy gw)) (rl_ip_window (policy gw)) es
    \<and> gs_store (gateway_step gw now ev s) = final_state Allow EvictStale es (gs_store s)
    \<and> (if from_address gw k ev \<and> t \<le> now \<and> now < u \<and> auth_forward s (gateway_step gw now ev s) then 1 else 0)
      \<le> passes k t u (admitted Allow EvictStale es (gs_store s))"
proof (cases ev)
  case (Arrives net r)
  let ?env = "gp_router gw net"
  let ?k = "clientIP (ge_netip ?env) (rl_trusted (policy gw)) r"
  have pol: "ge_rate ?env = policy gw" by (rule main_listens(2) [OF main])
  have step: "gateway_step gw now ev s = snd (NewRouter ?env now r s)" by (simp add: gateway_step_def Arrives)
  have "ip_counted ?env now ?k s (gateway_step gw now ev s)"
    using router_counted [of ?env now r s] on unfolding step pol by simp
  then consider "gs_store (gateway_step gw now ev s) = gs_store s" "\<not> auth_forward s (gateway_step gw now ev s)"
    | res where "Allow now ?k (rl_ip_limit (policy gw)) (rl_ip_window (policy gw)) (gs_store s) = (res, gs_store (gateway_step gw now ev s))"
        "auth_forward s (gateway_step gw now ev s) \<longrightarrow> Allowed res"
    unfolding ip_counted_def pol by blast
  then show ?thesis
  proof cases
    case 1
    then show ?thesis by (intro exI [of _ "[]"]) (simp add: one_policy_def)
  next
    case 2
    then show ?thesis
      by (intro exI [of _ "[(now, Call ?k (rl_ip_limit (policy gw)) (rl_ip_window (policy gw)))]"])
        (simp add: one_policy_def from_address_def Arrives)
  qed
next
  case StoreTick
  then show ?thesis using on main_listens(8) [OF main]
    by (intro exI [of _ "[(now, Sweep)]"]) (simp add: gateway_step_def one_policy_def from_address_def)
next
  case BackoffTick
  then show ?thesis
    by (intro exI [of _ "[]"]) (simp add: gateway_step_def one_policy_def from_address_def split: option.split)
qed

lemma admitted_append: "admitted allow evict (a @ b) s = admitted allow evict a s @ admitted allow evict b (final_state allow evict a s)"
  by (induction allow evict a s rule: admitted.induct) (auto split: prod.split)

lemma run_projects:
  assumes main: "gateway_main libs getenv = Some gw" and on: "rl_enabled (policy gw)"
  shows "sorted (map fst evs) \<Longrightarrow> \<exists>es. sorted (map fst es) \<and> (\<forall>x \<in> set es. fst x \<in> set (map fst evs))
    \<and> one_policy k (rl_ip_limit (policy gw)) (rl_ip_window (policy gw)) es
    \<and> auth_passes gw k t u evs s \<le> passes k t u (admitted Allow EvictStale es (gs_store s))"
proof (induction evs arbitrary: s)
  case Nil
  show ?case by (intro exI [of _ "[]"]) (simp add: one_policy_def)
next
  case (Cons e evs)
  obtain now ev where e: "e = (now, ev)" by (cases e)
  obtain e1 where e1: "\<forall>x \<in> set e1. fst x = now" "length e1 \<le> 1" "one_policy k (rl_ip_limit (policy gw)) (rl_ip_window (policy gw)) e1"
      "gs_store (gateway_step gw now ev s) = final_state Allow EvictStale e1 (gs_store s)"
      "(if from_address gw k ev \<and> t \<le> now \<and> now < u \<and> auth_forward s (gateway_step gw now ev s) then 1 else 0)
        \<le> passes k t u (admitted Allow EvictStale e1 (gs_store s))"
    using step_projects [OF main on] by blast
  obtain e2 where e2: "sorted (map fst e2)" "\<forall>x \<in> set e2. fst x \<in> set (map fst evs)" "one_policy k (rl_ip_limit (policy gw)) (rl_ip_window (policy gw)) e2"
      "auth_passes gw k t u evs (gateway_step gw now ev s) \<le> passes k t u (admitted Allow EvictStale e2 (gs_store (gateway_step gw now ev s)))"
    using Cons.IH [of "gateway_step gw now ev s"] Cons.prems by (simp only: list.map sorted_simps) blast
  have "sorted (map fst e1)" using e1(2) by (cases e1) auto
  moreover have "\<forall>x \<in> set (map fst evs). now \<le> x" using Cons.prems e by auto
  ultimately have "sorted (map fst (e1 @ e2))" using e1(1) e2(1,2) by (fastforce simp: sorted_append)
  moreover have "\<forall>x \<in> set (e1 @ e2). fst x \<in> set (map fst (e # evs))" using e1(1) e2(2) e by auto
  moreover have "one_policy k (rl_ip_limit (policy gw)) (rl_ip_window (policy gw)) (e1 @ e2)"
    using e1(3) e2(3) by (auto simp: one_policy_def)
  moreover have "auth_passes gw k t u (e # evs) s \<le> passes k t u (admitted Allow EvictStale (e1 @ e2) (gs_store s))"
    using e1(4,5) e2(4) by (simp add: e Let_def admitted_append)
  ultimately show ?case by blast
qed

end
