(* ===== verification/LoginFlow.thy ===== *)
theory LoginFlow
  imports AuthHandler GatewayBootFacts
begin

text \<open>
  Logins in flight: the gateway with requests that wait for their answers while others come and
  go. What one step does to the throttle of an account, the number of failures it can have
  counted, and how a login is read on both sides, by the gateway for its key and by the auth
  service for the account it checks.
\<close>

section \<open>A login on both sides\<close>

definition login_of :: "(nat list \<Rightarrow> json option) \<Rightarrow> greq \<Rightarrow> login_request option" where
  \<comment> \<open>the login the auth service makes of a request: its route, its method, its decoder\<close>
  "login_of parse out =
     (if g_method out = lit ''POST'' \<and> g_path out = lit ''/auth/login'' then
        case ReadAll (g_body out) of ReadOk buf \<Rightarrow> Option.bind (parse buf) decode_login | _ \<Rightarrow> None
      else None)"

definition auth_reads :: "(nat list \<Rightarrow> json option) \<Rightarrow> greq \<Rightarrow> auth_request" where
  \<comment> \<open>a forwarded request as the auth service meets it\<close>
  "auth_reads parse out = \<lparr>ar_method = g_method out, ar_path = g_path out, ar_auth = hget (g_headers out) (lit ''authorization''),
     ar_body = (case ReadAll (g_body out) of
         ReadOk buf \<Rightarrow> (case parse buf of None \<Rightarrow> BodyMalformed | Some j \<Rightarrow> BodyJSON j)
       | ReadTooLarge \<Rightarrow> BodyTooLarge | ReadFailed \<Rightarrow> BodyMalformed)\<rparr>"

text \<open>The modelled auth service answers a request to the login route with what \<open>Login\<close> says of the
  login read from it, and never with tokens when there is none.\<close>

lemma login_route:
  assumes "g_path out = lit ''/auth/login''"
  shows "case login_of parse out of
     Some req \<Rightarrow> fst (AuthHandler.NewRouter env (auth_reads parse out) (db, rv)) = TokenReply (case fst (Login env req db) of
         Inr tokens \<Rightarrow> Reply 200 tokens
       | Inl e \<Rightarrow> if e = ErrInvalidCredentials then ErrorReply 401 ''invalid_credentials'' (lit ''invalid email or password'') else internal_error)
   | None \<Rightarrow> fst (AuthHandler.NewRouter env (auth_reads parse out) (db, rv)) \<noteq> TokenReply (Reply 200 tokens)"
proof -
  have paths: "lit ''/auth/login'' \<noteq> lit ''/healthz''" "lit ''/auth/login'' \<noteq> lit ''/auth/register''" "lit ''/auth/login'' \<noteq> lit ''/auth/refresh''"
    "lit ''/auth/login'' \<noteq> lit ''/auth/logout''" "lit ''/auth/login'' \<noteq> lit ''/auth/me''" by (simp_all add: lit_def)
  show ?thesis using assms paths
    by (auto simp: login_of_def auth_reads_def AuthHandler.NewRouter_def handle_Login_def decodeJSON_def
        split: option.split read_result.split sum.split)
qed

definition account_of :: "('a, 'p) gateway_process \<Rightarrow> service \<times> greq \<Rightarrow> gostr option" where
  \<comment> \<open>the address \<open>Login\<close> of the auth service looks up for a forwarded request\<close>
  "account_of gw = (\<lambda>(svc, out). let env = gp_router gw (\<lambda>_ _. None) in
     if svc = AuthService then map_option (\<lambda>req. NormalizeEmail (ge_lower env) (lr_email req)) (login_of (ge_parse env) out) else None)"

definition guess_at :: "('a, 'p) gateway_process \<Rightarrow> gostr \<Rightarrow> service \<times> greq \<Rightarrow> bool" where
  \<comment> \<open>a forwarded login whose password the auth service compares for the account\<close>
  "guess_at gw k fwd \<longleftrightarrow> account_of gw fwd = Some k"

definition keyed :: "('a, 'p) gateway_env \<Rightarrow> gostr \<Rightarrow> service \<times> greq \<Rightarrow> bool" where
  \<comment> \<open>a forwarded request that the throttle counts under a key\<close>
  "keyed env k = (\<lambda>(svc, out). svc = AuthService \<and> g_path out = lit ''/auth/login''
     \<and> loginEmail (ge_parse env) (ge_lower env) (rl_max_login (ge_rate env)) (g_body out) = k)"

definition whole_body :: "service \<times> greq \<Rightarrow> bool" where
  "whole_body fwd \<longleftrightarrow> (\<exists>bytes. g_body (snd fwd) = Stream bytes False \<and> length bytes \<le> 65536)"

text \<open>The gateway reads a login as the auth service does: what is a guess at an account is counted
  under that account.\<close>

lemma guess_keyed:
  assumes "guess_at gw k fwd" "whole_body fwd" "rl_max_login (ge_rate (gp_router gw (\<lambda>_ _. None))) = MaxBodyBytes"
  shows "keyed (gp_router gw (\<lambda>_ _. None)) k fwd"
  using assms
  by (auto simp: guess_at_def account_of_def login_of_def keyed_def whole_body_def loginEmail_def decode_login_def NormalizeEmail_def
      MaxBodyBytes_def Let_def split: if_splits prod.splits option.splits bind_splits)

section \<open>The throttle under one step\<close>

definition throttled :: "('a, 'p) gateway_env \<Rightarrow> backoff_config \<Rightarrow> gostr \<Rightarrow> instant \<Rightarrow> int \<Rightarrow> gstate \<Rightarrow> gstate \<Rightarrow> bool" where
  \<comment> \<open>what is forwarded under the key on the way is paid for out of the budget, but for what was given back\<close>
  "throttled env cfg k t refund s s' \<longleftrightarrow>
     (distinct (map fst (gs_backoff s)) \<and> attempt_ok t (map_of (gs_backoff s) k) \<longrightarrow>
        distinct (map fst (gs_backoff s')) \<and> attempt_ok t (map_of (gs_backoff s') k)
      \<and> (\<exists>fs. gs_forwarded s' = gs_forwarded s @ fs
          \<and> int (length (filter (keyed env k) fs)) + guess_budget cfg t (map_of (gs_backoff s') k)
             \<le> guess_budget cfg t (map_of (gs_backoff s) k) + refund))"

lemma throttled_trans: "throttled env cfg k t b s s' \<Longrightarrow> throttled env cfg k t c s' s'' \<Longrightarrow> throttled env cfg k t (b + c) s s''"
  unfolding throttled_def by fastforce

lemma throttled_same: "gs_backoff s' = gs_backoff s \<Longrightarrow> gs_forwarded s' = gs_forwarded s \<Longrightarrow> throttled env cfg k t 0 s s'"
  by (simp add: throttled_def)

lemma throttled_store [simp]: "throttled env cfg k t b (s\<lparr>gs_store := st\<rparr>) s' = throttled env cfg k t b s s'"
  by (simp add: throttled_def)

interpretation thr: storeless_relation "throttled env cfg k t 0"
  by unfold_locales (simp_all add: throttled_same)

lemma throttled_Proxy: "(svc = AuthService \<Longrightarrow> \<not> Q (lit ''/auth/login'')) \<Longrightarrow> steps (throttled env cfg k t 0) Q (Proxy backend svc)"
  by (rule stepsI) (auto simp: Proxy_def Let_def throttled_def keyed_def split: option.splits)

lemma throttled_waiting:
  assumes env: "rl_enabled (ge_rate env)" "rl_backoff (ge_rate env) = Some cfg0" "Attempt cfg0 = Attempt cfg" and k: "k \<noteq> []"
    and sane: "sane_config cfg" and now: "t \<le> now" "now < t + BaseDelay cfg"
  shows "steps (throttled env cfg k t 0) (\<lambda>p. p = lit ''/auth/login'') (login_waiting env now (Proxy (ge_backend env) AuthService))"
proof (rule stepsI)
  fix r h s resp s'
  assume path: "g_path r = lit ''/auth/login''" and run: "login_waiting env now (Proxy (ge_backend env) AuthService) r h s = (resp, s')"
  define key where "key = loginEmail (ge_parse env) (ge_lower env) (rl_max_login (ge_rate env)) (g_body r)"
  have here: "keyed env j (AuthService, proxy_rewrite r) \<longleftrightarrow> j = key" for j
    using path by (auto simp: keyed_def key_def)
  have proxied: "gs_backoff u' = gs_backoff u \<and> gs_forwarded u' = gs_forwarded u @ [(AuthService, proxy_rewrite r)]"
    if "Proxy (ge_backend env) AuthService r h u = (rs, u')" for u u' rs
    using that by (auto simp: Proxy_def Let_def split: option.splits)
  show "throttled env cfg k t 0 s s'"
  proof (cases "key = []")
    case True
    then have "Proxy (ge_backend env) AuthService r h s = (resp, s')"
      using run env by (simp add: login_waiting_def LoginWaiting_def key_def [symmetric])
    from proxied [OF this] show ?thesis using True k here by (auto simp: throttled_def)
  next
    case False
    obtain res b1 where a: "Attempt cfg now key (gs_backoff s) = (res, b1)" by fastforce
    obtain rs u where p: "Proxy (ge_backend env) AuthService r h (s\<lparr>gs_backoff := b1\<rparr>) = (rs, u)" by fastforce
    have s': "s' = (if \<not> Allowed res then s\<lparr>gs_backoff := b1\<rparr> else u)"
      using run env False a p by (auto simp: login_waiting_def LoginWaiting_def key_def [symmetric] split: if_splits)
    note pr = proxied [OF p]
    have dst: "distinct (map fst b1)" if "distinct (map fst (gs_backoff s))" using Attempt_distinct [OF that, of cfg now key] a by simp
    show ?thesis
    proof (cases "k = key")
      case True
      have "attempt_ok t (map_of b1 k) \<and> (if Allowed res then 1 else 0) + guess_budget cfg t (map_of b1 k) \<le> guess_budget cfg t (map_of (gs_backoff s) k)"
        if "attempt_ok t (map_of (gs_backoff s) k)"
        using Attempt_entry [OF sane that now, of res b1] a True by simp
      then show ?thesis using dst pr here [of k] True unfolding s' throttled_def by auto
    next
      case False
      have "map_of b1 k = map_of (gs_backoff s) k" using Attempt_other [OF False, of cfg now "gs_backoff s"] a by simp
      then show ?thesis using dst pr here [of k] False unfolding s' throttled_def by auto
    qed
  qed
qed

lemma Undo_entry:
  assumes "attempt_ok t (map_of b k)" "distinct (map fst b)"
  shows "attempt_ok t (map_of (Undo k b) k) \<and> guess_budget cfg t (map_of (Undo k b) k) \<le> guess_budget cfg t (map_of b k) + 1"
proof (cases "map_of b k")
  case (Some a)
  have f: "1 \<le> at_failures a" "at_failures a \<le> 2 ^ 62" using assms(1) Some by (simp_all add: attempt_ok_def)
  then have "wrap64 (at_failures a - 1) = at_failures a - 1" by (intro wrap64_id) (simp add: int64_def)
  then show ?thesis using f assms(1) Some
    by (auto simp: Undo_def Let_def attempt_ok_def guess_budget_def update_conv' delete_conv')
qed (use assms in \<open>simp add: Undo_def\<close>)

text \<open>The answer to a request that is counted under the key: 401 leaves the count, 200 would delete
  it, and every other status gives one back.\<close>

lemma throttled_answered:
  assumes "keyed env k fwd \<Longrightarrow> status \<noteq> 200"
  shows "throttled env cfg k t (if keyed env k fwd \<and> status \<noteq> 401 then 1 else 0) s (login_answered env fwd status s)"
proof -
  obtain svc out where fwd: "fwd = (svc, out)" by (cases fwd)
  define key where "key = loginEmail (ge_parse env) (ge_lower env) (rl_max_login (ge_rate env)) (g_body out)"
  have here: "keyed env k fwd \<longleftrightarrow> svc = AuthService \<and> g_path out = lit ''/auth/login'' \<and> key = k"
    by (simp add: keyed_def fwd key_def)
  have "login_answered env fwd status s = s \<or> svc = AuthService \<and> g_path out = lit ''/auth/login''
      \<and> login_answered env fwd status s = LoginAnswered key status s"
    by (simp add: login_answered_def fwd Let_def key_def)
  then consider "login_answered env fwd status s = s"
    | "svc = AuthService" "g_path out = lit ''/auth/login''" "login_answered env fwd status s = LoginAnswered key status s"
    by blast
  then show ?thesis
  proof cases
    case 1
    then show ?thesis by (simp add: throttled_def)
  next
    case 2
    have other: "map_of (Succeed key b) k = map_of b k" "map_of (Undo key b) k = map_of b k" if "key \<noteq> k" for b
      using that by (simp_all add: Succeed_def delete_conv' Undo_other)
    show ?thesis
    proof (cases "key = k")
      case True
      then show ?thesis using 2 here assms Undo_entry [of t "gs_backoff s" k cfg] Undo_distinct [of "gs_backoff s" k]
        by (auto simp: throttled_def LoginAnswered_def)
    next
      case False
      then show ?thesis using 2 here other Undo_distinct [of "gs_backoff s" key]
        by (auto simp: throttled_def LoginAnswered_def Succeed_def distinct_delete)
    qed
  qed
qed

section \<open>The failures a key can have\<close>

text \<open>The number of failures of a key is at most the number of events since the start.\<close>

definition counted :: "nat \<Rightarrow> backoff \<Rightarrow> bool" where
  "counted n b \<longleftrightarrow> distinct (map fst b) \<and> (\<forall>key a. map_of b key = Some a \<longrightarrow> 1 \<le> at_failures a \<and> at_failures a \<le> int n)"

definition counts :: "gstate \<Rightarrow> gstate \<Rightarrow> bool" where
  "counts s s' \<longleftrightarrow> (\<forall>n < 2 ^ 62. counted n (gs_backoff s) \<longrightarrow> counted (Suc n) (gs_backoff s'))"

lemma counted_mono: "counted n b \<Longrightarrow> counted (Suc n) b"
  by (force simp: counted_def)

interpretation cnt: storeless_relation counts
  by unfold_locales (simp_all add: counts_def counted_mono)

lemma Attempt_outcomes: "snd (Attempt cfg now key b) \<in> {b, AList.update key \<lparr>at_failures = 1, at_last = now\<rparr> b}
    \<union> (case map_of b key of None \<Rightarrow> {} | Some a \<Rightarrow> {AList.update key \<lparr>at_failures = wrap64 (at_failures a + 1), at_last = now\<rparr> b})"
  by (simp add: Attempt_def Let_def split: option.split)

lemma counted_update:
  "counted n b \<Longrightarrow> 1 \<le> at_failures a \<Longrightarrow> at_failures a \<le> int n \<Longrightarrow> counted n (AList.update key a b)"
  by (auto simp: counted_def update_conv' distinct_update split: if_splits)

lemma counted_Attempt:
  assumes c: "counted n b" and n: "n < 2 ^ 62" shows "counted (Suc n) (snd (Attempt cfg now key b))"
proof (cases "map_of b key")
  case None
  then show ?thesis
    using Attempt_outcomes [of cfg now key b] counted_mono [OF c] counted_update [OF counted_mono [OF c], of "\<lparr>at_failures = 1, at_last = now\<rparr>" key]
    by auto
next
  case (Some a)
  have "int n < 2 ^ 62" using n by (metis of_nat_less_iff of_nat_numeral of_nat_power)
  moreover have a: "1 \<le> at_failures a" "at_failures a \<le> int n" using c Some by (auto simp: counted_def)
  ultimately have "wrap64 (at_failures a + 1) = at_failures a + 1" by (intro wrap64_id) (simp add: int64_def)
  then show ?thesis
    using Attempt_outcomes [of cfg now key b] counted_mono [OF c] counted_update [OF counted_mono [OF c], of "\<lparr>at_failures = 1, at_last = now\<rparr>" key]
      counted_update [OF counted_mono [OF c], of "\<lparr>at_failures = at_failures a + 1, at_last = now\<rparr>" key] a Some
    by auto
qed

lemma counted_Succeed: "counted n b \<Longrightarrow> counted n (Succeed key b)"
  by (auto simp: counted_def Succeed_def distinct_delete delete_conv' split: if_splits)

lemma counted_Undo:
  assumes "counted n b" "n \<le> 2 ^ 62" shows "counted n (Undo key b)"
proof (cases "map_of b key")
  case (Some a)
  have f: "1 \<le> at_failures a" "at_failures a \<le> int n" using assms(1) Some by (force simp: counted_def)+
  have "int n \<le> 2 ^ 62" using assms(2) by (metis of_nat_le_iff of_nat_numeral of_nat_power)
  then have "wrap64 (at_failures a - 1) = at_failures a - 1" using f by (intro wrap64_id) (simp add: int64_def)
  then show ?thesis using assms(1) f Some Undo_distinct [of b key]
    by (force simp: counted_def Undo_def Let_def distinct_delete delete_conv' update_conv' split: if_splits)
qed (use assms in \<open>simp add: Undo_def\<close>)

lemma counts_Proxy: "steps counts Q (Proxy backend svc)"
  by (rule stepsI) (auto simp: Proxy_def Let_def counts_def counted_mono split: option.splits)

lemma counts_waiting: "steps counts Q (login_waiting env now (Proxy backend svc))"
proof (rule stepsI)
  fix r h s resp s'
  assume run: "login_waiting env now (Proxy backend svc) r h s = (resp, s')"
  have p: "gs_backoff (snd (Proxy backend svc r h s1)) = gs_backoff s1" for s1
    by (simp add: Proxy_def Let_def split: option.split)
  have "gs_backoff s' = gs_backoff s \<or> (\<exists>cfg key. gs_backoff s' = snd (Attempt cfg now key (gs_backoff s)))"
    using run p [of s] p [of "s\<lparr>gs_backoff := snd (Attempt cfg now key (gs_backoff s))\<rparr>" for cfg key]
    by (fastforce simp: login_waiting_def LoginWaiting_def Let_def prod_eq_iff split: option.splits if_splits prod.splits)
  then show "counts s s'" using counted_Attempt counted_mono by (auto simp: counts_def)
qed

lemma counted_Evict: "counted n b \<Longrightarrow> counted n (Backoff_EvictStale cfg now b)"
  by (auto simp: counted_def Backoff_EvictStale_def distinct_filter_keys map_of_filter_key split: option.splits if_splits)

lemma counts_answered: "counts s (login_answered env fwd status s)"
  by (auto simp: login_answered_def LoginAnswered_def Let_def counts_def counted_mono counted_Succeed counted_Undo split: prod.split)

lemma counts_step: "counts s (flow_step gw now ev s)"
proof (cases ev)
  case (Enters r)
  show ?thesis unfolding flow_step_def Enters Let_def flow_event.case
    by (rule cnt.steps_router_waiting [OF counts_waiting counts_Proxy counts_Proxy])
next
  case (Answered i status)
  then show ?thesis by (simp add: flow_step_def Let_def counts_answered cnt.step_refl)
qed (auto simp: flow_step_def gateway_step_def counts_def counted_mono counted_Evict split: option.split)

lemma counted_flow: "counted n (gs_backoff s) \<Longrightarrow> n + length evs \<le> 2 ^ 62 \<Longrightarrow> counted (n + length evs) (gs_backoff (gateway_flow gw evs s))"
proof (induction evs arbitrary: n s)
  case (Cons e evs)
  obtain now ev where e: "e = (now, ev)" by (cases e)
  have "counted (Suc n) (gs_backoff (flow_step gw now ev s))"
    using counts_step [of s gw now ev] Cons.prems by (simp add: counts_def)
  then show ?case using Cons.IH [of "Suc n"] Cons.prems(2) by (simp add: e)
qed simp

lemma flow_attempt_ok:
  assumes "length earlier \<le> 10 ^ 18"
  shows "distinct (map fst (gs_backoff (gateway_flow gw earlier gateway_start)))"
    "attempt_ok t (map_of (gs_backoff (gateway_flow gw earlier gateway_start)) k)"
proof -
  have "(10::nat) ^ 18 < 2 ^ 62" by simp
  then have len: "length earlier < 2 ^ 62" using assms by (rule le_less_trans [rotated])
  have "counted 0 (gs_backoff gateway_start)" by (simp add: counted_def gateway_start_def NewBackoff_def)
  from counted_flow [OF this, of earlier gw] len
  have c: "counted (length earlier) (gs_backoff (gateway_flow gw earlier gateway_start))" by simp
  have "int (length earlier) < 2 ^ 62" using len by (metis of_nat_less_iff of_nat_numeral of_nat_power)
  then show "distinct (map fst (gs_backoff (gateway_flow gw earlier gateway_start)))"
    "attempt_ok t (map_of (gs_backoff (gateway_flow gw earlier gateway_start)) k)"
    using c by (fastforce simp: counted_def attempt_ok_def split: option.split)+
qed

section \<open>A stretch of a run\<close>

lemma gateway_flow_append: "gateway_flow gw (a @ b) s = gateway_flow gw b (gateway_flow gw a s)"
  by (induction a arbitrary: s) auto

lemma answered_forwarded [simp]: "gs_forwarded (login_answered env fwd status s) = gs_forwarded s"
  by (simp add: login_answered_def LoginAnswered_def Let_def split: prod.split)

lemma step_forwards: "\<exists>fs. gs_forwarded (flow_step gw now ev s) = gs_forwarded s @ fs \<and> list_all whole_body fs"
proof (cases ev)
  case (Enters r)
  let ?env = "gp_router gw (\<lambda>_ _. None)"
  from forwards_router [of ?env now r s "fst (router_waiting ?env now r s)" "snd (router_waiting ?env now r s)"] show ?thesis
    by (auto simp: flow_step_def Let_def Enters forwarded_whole_def whole_body_def)
qed (auto simp: flow_step_def gateway_step_def Let_def split: option.split)

lemma flow_forwards: "\<exists>fs. gs_forwarded (gateway_flow gw evs s) = gs_forwarded s @ fs \<and> list_all whole_body fs"
proof (induction evs arbitrary: s)
  case (Cons e evs)
  obtain now ev where e: "e = (now, ev)" by (cases e)
  obtain f1 where "gs_forwarded (flow_step gw now ev s) = gs_forwarded s @ f1" "list_all whole_body f1"
    using step_forwards by blast
  moreover obtain f2 where "gs_forwarded (gateway_flow gw evs (flow_step gw now ev s)) = gs_forwarded (flow_step gw now ev s) @ f2"
      "list_all whole_body f2"
    using Cons.IH by blast
  ultimately show ?case by (intro exI [of _ "f1 @ f2"]) (simp add: e)
qed simp

definition answers :: "(instant \<times> flow_event) list \<Rightarrow> (nat \<times> int) list" where
  "answers evs = List.map_filter (\<lambda>(_, ev). case ev of Answered i status \<Rightarrow> Some (i, status) | _ \<Rightarrow> None) evs"

lemma answers_simps [simp]:
  "answers [] = []" "answers ((now, Answered i status) # evs) = (i, status) # answers evs"
  "answers ((now, Enters r) # evs) = answers evs" "answers ((now, SweepsStore) # evs) = answers evs"
  "answers ((now, SweepsBackoff) # evs) = answers evs"
  by (simp_all add: answers_def List.map_filter_simps)

definition gives_back :: "('a, 'p) gateway_env \<Rightarrow> gostr \<Rightarrow> (service \<times> greq) list \<Rightarrow> nat \<times> int \<Rightarrow> bool" where
  "gives_back env k F = (\<lambda>(i, status). i < length F \<and> keyed env k (F ! i) \<and> status \<noteq> 401)"

lemma throttled_more: "throttled env cfg k t b s s' \<Longrightarrow> b \<le> c \<Longrightarrow> throttled env cfg k t c s s'"
  unfolding throttled_def by fastforce

lemma throttled_step:
  assumes main: "gateway_main libs getenv = Some gw" and on: "rl_enabled (policy gw)" "rl_backoff (policy gw) = Some cfg"
    and k: "k \<noteq> []" and sane: "sane_config (capped cfg)" and now: "t \<le> now" "now < t + BaseDelay (capped cfg)"
    and F: "F = gs_forwarded s @ rest"
    and refused: "list_all (\<lambda>(i, status). i < length F \<and> keyed (gp_router gw (\<lambda>_ _. None)) k (F ! i) \<longrightarrow> status \<noteq> 200) (answers [(now, ev)])"
  shows "throttled (gp_router gw (\<lambda>_ _. None)) (capped cfg) k t
    (int (length (filter (gives_back (gp_router gw (\<lambda>_ _. None)) k F) (answers [(now, ev)])))) s (flow_step gw now ev s)"
proof (cases ev)
  case (Enters r)
  let ?env = "gp_router gw (\<lambda>_ _. None)"
  have "throttled ?env (capped cfg) k t 0 s (snd (router_waiting ?env now r s))"
    by (intro thr.steps_router_waiting throttled_waiting [OF on Attempt_capped [symmetric] k sane now] throttled_Proxy) simp_all
  then show ?thesis by (simp add: flow_step_def Let_def Enters)
next
  case (Answered i status)
  show ?thesis
  proof (cases "i < length (gs_forwarded s)")
    case True
    let ?env = "gp_router gw (\<lambda>_ _. None)"
    have i: "F ! i = gs_forwarded s ! i" "i < length F" using True by (simp_all add: F nth_append)
    then have count: "int (length (filter (gives_back ?env k F) (answers [(now, ev)])))
        = (if keyed ?env k (gs_forwarded s ! i) \<and> status \<noteq> 401 then 1 else 0)"
      by (simp add: Answered gives_back_def)
    have step: "flow_step gw now ev s = login_answered ?env (gs_forwarded s ! i) status s"
      using True by (simp add: flow_step_def Let_def Answered)
    show ?thesis unfolding count step by (rule throttled_answered) (use refused i in \<open>simp add: Answered\<close>)
  next
    case False
    then have "flow_step gw now ev s = s" by (simp add: flow_step_def Let_def Answered)
    then show ?thesis by (simp only:) (rule throttled_more [OF throttled_same], simp_all)
  qed
next
  case SweepsStore
  then show ?thesis by (simp add: flow_step_def gateway_step_def throttled_same split: option.split)
next
  case SweepsBackoff
  let ?s = "s\<lparr>gs_backoff := Backoff_EvictStale (capped cfg) now (gs_backoff s)\<rparr>"
  have "throttled (gp_router gw (\<lambda>_ _. None)) (capped cfg) k t 0 s ?s"
    using Evict_entry [OF sane _ _ now(2), of "gs_backoff s" k]
    by (auto simp: throttled_def Backoff_EvictStale_def distinct_filter_keys)
  then show ?thesis using on main_listens(9) [OF main] by (simp add: flow_step_def gateway_step_def SweepsBackoff Evict_capped)
qed

lemma answers_Cons: "answers (e # evs) = answers [e] @ answers evs"
  by (cases e; cases "snd e") auto

lemma throttled_flow:
  assumes "gateway_main libs getenv = Some gw" "rl_enabled (policy gw)" "rl_backoff (policy gw) = Some cfg" "k \<noteq> []" "sane_config (capped cfg)"
  shows "list_all (\<lambda>(now, ev). t \<le> now \<and> now < t + BaseDelay (capped cfg)) evs \<Longrightarrow> F = gs_forwarded (gateway_flow gw evs s) @ rest
    \<Longrightarrow> list_all (\<lambda>(i, status). i < length F \<and> keyed (gp_router gw (\<lambda>_ _. None)) k (F ! i) \<longrightarrow> status \<noteq> 200) (answers evs)
    \<Longrightarrow> throttled (gp_router gw (\<lambda>_ _. None)) (capped cfg) k t
         (int (length (filter (gives_back (gp_router gw (\<lambda>_ _. None)) k F) (answers evs)))) s (gateway_flow gw evs s)"
proof (induction evs arbitrary: s)
  case (Cons e evs)
  obtain now ev where e: "e = (now, ev)" by (cases e)
  let ?s = "flow_step gw now ev s"
  obtain f1 f2 where f: "gs_forwarded ?s = gs_forwarded s @ f1" "gs_forwarded (gateway_flow gw evs ?s) = gs_forwarded ?s @ f2"
    using step_forwards flow_forwards by metis
  note a = answers_Cons [of e evs]
  have "throttled (gp_router gw (\<lambda>_ _. None)) (capped cfg) k t
      (int (length (filter (gives_back (gp_router gw (\<lambda>_ _. None)) k F) (answers [(now, ev)])))) s ?s"
    using Cons.prems f e a by (intro throttled_step [OF assms, where rest = "f1 @ f2 @ rest"]) (simp_all add: list_all_append)
  moreover have "throttled (gp_router gw (\<lambda>_ _. None)) (capped cfg) k t
      (int (length (filter (gives_back (gp_router gw (\<lambda>_ _. None)) k F) (answers evs)))) ?s (gateway_flow gw evs ?s)"
    using Cons.prems e a by (intro Cons.IH) (simp_all add: list_all_append)
  ultimately show ?case using throttled_trans unfolding e gateway_flow.simps a [unfolded e] filter_append length_append of_nat_add by blast
qed (simp add: throttled_same)

section \<open>Answers and what they give back\<close>

definition unread :: "('a, 'p) gateway_process \<Rightarrow> service \<times> greq \<Rightarrow> bool" where
  \<comment> \<open>a request to the login route that the auth service does not read as a login\<close>
  "unread gw fwd \<longleftrightarrow> fst fwd = AuthService \<and> g_path (snd fwd) = lit ''/auth/login'' \<and> account_of gw fwd = None"

definition verdicts :: "('a, 'p) gateway_process \<Rightarrow> gostr \<Rightarrow> (service \<times> greq) list \<Rightarrow> (nat \<times> int) list \<Rightarrow> bool" where
  \<comment> \<open>every request is answered at most once, a guess at the account with 401, and a request that is
    not read as a login is not answered as a login that succeeded\<close>
  "verdicts gw k F rs \<longleftrightarrow> distinct (map fst rs) \<and> list_all (\<lambda>(i, status). i < length F \<longrightarrow>
     (guess_at gw k (F ! i) \<longrightarrow> status = 401) \<and> (unread gw (F ! i) \<longrightarrow> status \<noteq> 200)) rs"

definition late_answers :: "('a, 'p) gateway_process \<Rightarrow> nat \<Rightarrow> (service \<times> greq) list \<Rightarrow> (nat \<times> int) list \<Rightarrow> nat" where
  \<comment> \<open>the answers to unread requests from before the n-th\<close>
  "late_answers gw n F rs = length (filter (\<lambda>(i, status). i < n \<and> unread gw (F ! i) \<and> status \<noteq> 401) rs)"

lemma keyed_cases:
  assumes "keyed (gp_router gw (\<lambda>_ _. None)) k fwd" "whole_body fwd" "rl_max_login (ge_rate (gp_router gw (\<lambda>_ _. None))) = MaxBodyBytes"
  shows "guess_at gw k fwd \<or> unread gw fwd"
proof (cases "account_of gw fwd")
  case None
  then show ?thesis using assms(1) by (auto simp: unread_def keyed_def)
next
  case (Some j)
  then have "keyed (gp_router gw (\<lambda>_ _. None)) j fwd" using guess_keyed [OF _ assms(2,3), of j] by (simp add: guess_at_def)
  then have "j = k" using assms(1) by (auto simp: keyed_def)
  then show ?thesis using Some by (simp add: guess_at_def)
qed

lemma keyed_refused:
  assumes v: "verdicts gw k F rs" and whole: "list_all whole_body F"
    and max: "rl_max_login (ge_rate (gp_router gw (\<lambda>_ _. None))) = MaxBodyBytes"
  shows "list_all (\<lambda>(i, status). i < length F \<and> keyed (gp_router gw (\<lambda>_ _. None)) k (F ! i) \<longrightarrow> status \<noteq> 200) rs"
  unfolding list_all_iff
proof (clarify)
  fix i assume i: "(i, 200) \<in> set rs" "i < length F" "keyed (gp_router gw (\<lambda>_ _. None)) k (F ! i)"
  have "guess_at gw k (F ! i) \<or> unread gw (F ! i)"
    using keyed_cases [OF i(3) _ max] whole i(2) by (simp add: list_all_length)
  then show False using v i(1,2) by (auto simp: verdicts_def list_all_iff)
qed

lemma drop_count: "length (filter p (drop n F)) = card {i. n \<le> i \<and> i < length F \<and> p (F ! i)}"
proof -
  have "{i. n \<le> i \<and> i < length F \<and> p (F ! i)} = (\<lambda>i. n + i) ` {i. i < length (drop n F) \<and> p (drop n F ! i)}"
  proof (intro equalityI subsetI)
    fix i assume "i \<in> {i. n \<le> i \<and> i < length F \<and> p (F ! i)}"
    then show "i \<in> (\<lambda>i. n + i) ` {i. i < length (drop n F) \<and> p (drop n F ! i)}"
      by (intro image_eqI [of _ _ "i - n"]) auto
  qed auto
  then show ?thesis by (simp add: length_filter_conv_card card_image inj_on_def)
qed

lemma given_back_within:
  assumes v: "verdicts gw k F rs" and whole: "list_all whole_body F"
    and max: "rl_max_login (ge_rate (gp_router gw (\<lambda>_ _. None))) = MaxBodyBytes"
  shows "length (filter (gives_back (gp_router gw (\<lambda>_ _. None)) k F) rs)
    \<le> late_answers gw n F rs + length (filter (\<lambda>fwd. keyed (gp_router gw (\<lambda>_ _. None)) k fwd \<and> \<not> guess_at gw k fwd) (drop n F))"
proof -
  let ?env = "gp_router gw (\<lambda>_ _. None)"
  let ?refund = "gives_back ?env k F"
  have given: "unread gw (F ! i) \<and> \<not> guess_at gw k (F ! i) \<and> i < length F \<and> keyed ?env k (F ! i) \<and> status \<noteq> 401"
    if "(i, status) \<in> set rs" "?refund (i, status)" for i status
  proof -
    have i: "i < length F" "keyed ?env k (F ! i)" "status \<noteq> 401" using that(2) by (simp_all add: gives_back_def)
    then have "\<not> guess_at gw k (F ! i)" using v that(1) by (auto simp: verdicts_def list_all_iff)
    then show ?thesis using keyed_cases [OF i(2) _ max] whole i by (simp add: list_all_length)
  qed
  define old where "old = filter (\<lambda>x. fst x < n) (filter ?refund rs)"
  define young where "young = filter (\<lambda>x. \<not> fst x < n) (filter ?refund rs)"
  have "length (filter ?refund rs) = length old + length young"
    unfolding old_def young_def by (rule sum_length_filter_compl [symmetric])
  moreover have "length old \<le> late_answers gw n F rs"
  proof -
    have "old = filter ?refund (filter (\<lambda>(i, status). i < n \<and> unread gw (F ! i) \<and> status \<noteq> 401) rs)"
      unfolding old_def filter_filter by (rule filter_cong [OF refl]) (use given in auto)
    then show ?thesis unfolding late_answers_def by (simp only: length_filter_le)
  qed
  moreover have "length young \<le> length (filter (\<lambda>fwd. keyed ?env k fwd \<and> \<not> guess_at gw k fwd) (drop n F))"
  proof -
    have "distinct (map fst young)"
      using v by (simp add: young_def verdicts_def distinct_map_filter)
    then have "length young = card (set (map fst young))" by (metis distinct_card length_map)
    also have "\<dots> \<le> card {i. n \<le> i \<and> i < length F \<and> keyed ?env k (F ! i) \<and> \<not> guess_at gw k (F ! i)}"
      by (rule card_mono) (use given in \<open>auto simp: young_def\<close>)
    finally show ?thesis by (simp add: drop_count)
  qed
  ultimately show ?thesis by linarith
qed

lemma keyed_split: "(\<And>x. x \<in> set xs \<Longrightarrow> g x \<Longrightarrow> p x) \<Longrightarrow> length (filter p xs) = length (filter g xs) + length (filter (\<lambda>x. p x \<and> \<not> g x) xs)"
  by (induction xs) auto

section \<open>One request after the other\<close>

text \<open>The router that handles a request in one step is the flow in which every answer comes at once.\<close>

definition settled :: "('a, 'p) gateway_env \<Rightarrow> (service \<Rightarrow> greq \<Rightarrow> gresp option) \<Rightarrow> gstate \<Rightarrow> gstate \<Rightarrow> gstate" where
  \<comment> \<open>the state after the answer to what was forwarded, if anything was\<close>
  "settled env backend s s' =
     (if length (gs_forwarded s') = length (gs_forwarded s) then s'
      else case last (gs_forwarded s') of (svc, out) \<Rightarrow>
        login_answered env (svc, out) (case backend svc out of None \<Rightarrow> 502 | Some resp \<Rightarrow> r_status resp) s')"

definition settles :: "('a, 'p) gateway_env \<Rightarrow> (service \<Rightarrow> greq \<Rightarrow> gresp option) \<Rightarrow> (gostr \<Rightarrow> bool) \<Rightarrow> handler \<Rightarrow> handler \<Rightarrow> bool" where
  "settles env backend Q whole waiting \<longleftrightarrow>
     (\<forall>r h s. Q (g_path r) \<longrightarrow> snd (whole r h s) = settled env backend s (snd (waiting r h s)))"

lemma settles_Proxy:
  assumes "\<And>p. Q p \<Longrightarrow> svc \<noteq> AuthService \<or> p \<noteq> lit ''/auth/login''"
  shows "settles env backend Q (Proxy backend svc) (Proxy other svc)"
  using assms by (auto simp: settles_def settled_def Proxy_def Let_def login_answered_def split: option.split)

lemma settles_login:
  assumes "env' = env\<lparr>ge_backend := backend\<rparr>"
  shows "settles env backend (\<lambda>p. p = lit ''/auth/login'') (login_throttle env' now (Proxy backend AuthService)) (login_waiting env now (Proxy other AuthService))"
  unfolding settles_def
proof (intro allI impI)
  fix r :: greq and h s
  assume p: "g_path r = lit ''/auth/login''"
  let ?key = "loginEmail (ge_parse env) (ge_lower env) (rl_max_login (ge_rate env)) (g_body r)"
  show "snd (login_throttle env' now (Proxy backend AuthService) r h s)
      = settled env backend s (snd (login_waiting env now (Proxy other AuthService) r h s))"
  proof (cases "rl_enabled (ge_rate env) \<and> rl_backoff (ge_rate env) \<noteq> None \<and> ?key \<noteq> []")
    case True
    then obtain cfg where cfg: "rl_backoff (ge_rate env) = Some cfg" by blast
    obtain res b1 where a: "Attempt cfg now ?key (gs_backoff s) = (res, b1)" by fastforce
    show ?thesis using p True cfg a
      by (auto simp: assms login_throttle_def login_waiting_def RateLimitLoginByAccount_def LoginWaiting_def Let_def Proxy_def
          settled_def login_answered_def LoginAnswered_def write_error_def split: option.split)
  next
    case False
    then have "login_throttle env' now (Proxy backend AuthService) r h s = Proxy backend AuthService r h s"
        "login_waiting env now (Proxy other AuthService) r h s = Proxy other AuthService r h s"
      by (auto simp: assms login_throttle_def login_waiting_def RateLimitLoginByAccount_def LoginWaiting_def Let_def split: option.split)
    then show ?thesis using False p
      by (auto simp: Proxy_def Let_def settled_def login_answered_def split: option.split)
  qed
qed

lemma settled_same [simp]: "settled env backend s s = s"
  by (simp add: settled_def)

lemma settled_store_same [simp]: "settled env backend s (s\<lparr>gs_store := st\<rparr>) = s\<lparr>gs_store := st\<rparr>"
  by (simp add: settled_def)

lemma settled_store: "settled env backend (s\<lparr>gs_store := st\<rparr>) s' = settled env backend s s'"
  by (simp add: settled_def)

lemma settles_BufferBody: "settles env backend Q a b \<Longrightarrow> settles env backend Q (BufferBody a) (BufferBody b)"
  by (auto simp: settles_def BufferBody_def split: read_result.split)

lemma settles_InjectUserID: "settles env backend Q a b \<Longrightarrow> settles env backend Q (InjectUserID a) (InjectUserID b)"
  by (auto simp: settles_def InjectUserID_def split: option.split)

lemma settles_Authenticated: "settles env backend Q a b \<Longrightarrow> settles env backend Q (Authenticated lib now secret a) (Authenticated lib now secret b)"
  by (auto simp: settles_def Authenticated_def RequireAuth_def split: option.split)

lemma settles_LimitBody: "settles env backend Q a b \<Longrightarrow> settles env backend Q (LimitBody limit a) (LimitBody limit b)"
  by (auto simp: settles_def LimitBody_def)

lemma settles_CORS: "settles env backend Q a b \<Longrightarrow> settles env backend Q (CORS allowed a) (CORS allowed b)"
  by (auto simp: settles_def CORS_def Let_def)

lemma settles_StripUserID: "settles env backend Q a b \<Longrightarrow> settles env backend Q (StripUserID a) (StripUserID b)"
  by (auto simp: settles_def StripUserID_def)

lemma settles_ip_throttle:
  "settles env backend Q a b \<Longrightarrow> settles env backend Q (ip_throttle (env\<lparr>ge_backend := be\<rparr>) now a) (ip_throttle env now b)"
  by (auto simp: settles_def ip_throttle_def RateLimitByIP_def Let_def settled_store split: prod.split)

lemma settlesD: "settles env backend Q a b \<Longrightarrow> Q (g_path r) \<Longrightarrow> snd (a r h s) = settled env backend s (snd (b r h s))"
  by (simp add: settles_def)

lemma settles_routed: "settles env backend (\<lambda>_. True) (routed (env\<lparr>ge_backend := backend\<rparr>) now) (routed_by (login_waiting env now) env now)"
  unfolding settles_def
proof (intro allI impI)
  fix r :: greq and h s
  let ?env = "env\<lparr>ge_backend := backend\<rparr>"
  note login = settlesD [OF settles_ip_throttle [OF settles_BufferBody [OF settles_login [OF refl]]]]
    and other = settlesD [OF settles_ip_throttle [OF settles_BufferBody [OF settles_Proxy [of "\<lambda>p. p \<noteq> lit ''/auth/login''"]]]]
    and protected = settlesD [OF settles_Authenticated [OF settles_InjectUserID [OF settles_BufferBody [OF settles_Proxy [of "\<lambda>_. True"]]]]]
  show "snd (routed ?env now r h s) = settled env backend s (snd (routed_by (login_waiting env now) env now r h s))"
  proof (cases "route_of (g_path r)")
    case AuthLogin
    then have "g_path r = lit ''/auth/login''" using route_of_login by simp
    then show ?thesis using AuthLogin by (simp add: routed_def routed_by_def) (intro impI login, simp)
  next
    case AuthRoute
    then have "g_path r \<noteq> lit ''/auth/login''" using route_of_login [of "g_path r"] by auto
    then show ?thesis using AuthRoute by (simp add: routed_def routed_by_def) (intro impI other, simp_all)
  next
    case (Protected svc)
    then show ?thesis using route_of_protected [OF Protected]
      by (simp add: routed_def routed_by_def) (intro impI protected, simp_all)
  qed (simp_all add: routed_def routed_by_def)
qed

lemma run_is_flow:
  assumes "gateway_main libs getenv = Some gw"
  shows "gateway_step gw now (Arrives net r) s = settled (gp_router gw (\<lambda>_ _. None)) (ge_backend (gp_router gw net)) s (flow_step gw now (Enters r) s)"
proof -
  let ?env = "gp_router gw (\<lambda>_ _. None)" and ?be = "ge_backend (gp_router gw net)"
  have env: "gp_router gw net = ?env\<lparr>ge_backend := ?be\<rparr>"
    using assms by (auto simp: gateway_main_def Let_def split: if_splits bind_splits)
  have "settles ?env ?be (\<lambda>_. True) (StripUserID (CORS (ge_origin ?env) (LimitBody MaxBodyBytes (routed (?env\<lparr>ge_backend := ?be\<rparr>) now))))
      (StripUserID (CORS (ge_origin ?env) (LimitBody MaxBodyBytes (routed_by (login_waiting ?env now) ?env now))))"
    by (intro settles_StripUserID settles_CORS settles_LimitBody settles_routed)
  from settlesD [OF this, of r "\<lambda>_. None" s]
  have "snd (Gateway.NewRouter (?env\<lparr>ge_backend := ?be\<rparr>) now r s) = settled ?env ?be s (snd (router_waiting ?env now r s))"
    by (simp add: Gateway.NewRouter_def router_waiting_def)
  then show ?thesis by (simp add: gateway_step_def flow_step_def Let_def flip: env)
qed

end
