(* ===== verification/GatewayBootProps.thy ===== *)
theory GatewayBootProps
  imports GatewayBootFacts LoginFlow GatewayProps
begin

text \<open>
  What the environment of the gateway promises about every run of a process that listens, with
  the sweeps of its limiters at any time and, for guesses at an account, with requests in flight.
\<close>

section \<open>The login throttle\<close>

text \<open>C13. Password guessing is bounded end to end, by what the environment says, however many
  requests are in flight at once. In a gateway that started to listen, whatever happened since,
  consider any stretch shorter than a minute and than RATE_LIMIT_LOGIN_MAX_BACKOFF, in which requests
  enter, answers come back in any order, and the limiters are swept. While the auth service refuses
  every login of an account, at most RATE_LIMIT_LOGIN_FAILURES forwarded requests are logins that the
  auth service, with its own route, decoder and normalization, checks against that account, whatever
  their spelling, their addresses and the other traffic; one more only for each answer to a request
  from before the stretch that auth could not read as a login. The flow is
  the program's own: the router that handles a request in one step is the flow that settles the
  answer to what it forwarded at once.\<close>

theorem booted_gateway_bounds_guesses:
  assumes "gateway_main libs getenv = Some gw" and "getenv (lit ''RATE_LIMIT_ENABLED'') \<noteq> lit ''false''"
    and "env_failures getenv \<le> 2 ^ 61" and "env_max_backoff getenv = Some cap" and "cap \<le> 2 ^ 62"
    and "k \<noteq> []" and "length earlier \<le> 10 ^ 18"
    and "list_all (\<lambda>(now, ev). t \<le> now \<and> now < t + min (60 * second_ns) cap) burst"
    and "n = length (gs_forwarded (gateway_flow gw earlier gateway_start))"
    and "F = gs_forwarded (gateway_flow gw (earlier @ burst) gateway_start)"
    and "verdicts gw k F (answers burst)"
  shows "int (length (filter (guess_at gw k) (drop n F))) \<le> env_failures getenv + int (late_answers gw n F (answers burst))
    \<and> (\<forall>now net r s. gateway_step gw now (Arrives net r) s =
         settled (gp_router gw (\<lambda>_ _. None)) (ge_backend (gp_router gw net)) s (flow_step gw now (Enters r) s))"
proof -
  note rl = limits_on [OF assms(2) main_listens(1) [OF assms(1)]]
  let ?env = "gp_router gw (\<lambda>_ _. None)"
  define cfg where "cfg = \<lparr>FreeFailures = env_failures getenv - 1, BaseDelay = loginBackoffBase, MaxDelay = cap\<rparr>"
  have cfg: "rl_backoff (policy gw) = Some cfg" "1 \<le> cap" using rl(8) assms(4) by (auto simp: cfg_def)
  have sane: "sane_config (capped cfg)"
    using rl(9) assms(3,5) cfg(2) by (simp add: sane_config_def cfg_def loginBackoffBase_def second_ns_def)
  let ?s = "gateway_flow gw earlier gateway_start"
  obtain f0 fs where F: "gs_forwarded ?s = f0" "F = f0 @ fs" "list_all whole_body F"
    using flow_forwards [of gw burst ?s] flow_forwards [of gw "earlier @ burst" gateway_start]
    unfolding assms(10) by (auto simp: gateway_flow_append gateway_start_def)
  then have new: "drop n F = fs" using assms(9) by simp
  note ok = flow_attempt_ok(1) [OF assms(7), where gw = gw] flow_attempt_ok(2) [OF assms(7), where gw = gw and t = t and k = k]
  have refused: "list_all (\<lambda>(i, status). i < length F \<and> keyed ?env k (F ! i) \<longrightarrow> status \<noteq> 200) (answers burst)"
    by (rule keyed_refused [OF assms(11) F(3) rl(10)])
  have "throttled ?env (capped cfg) k t (int (length (filter (gives_back ?env k F) (answers burst)))) ?s (gateway_flow gw burst ?s)"
    using assms(8,10) refused
    by (intro throttled_flow [OF assms(1) rl(1) cfg(1) assms(6) sane, where rest = "[]"])
      (simp_all add: cfg_def loginBackoffBase_def gateway_flow_append)
  then have "int (length (filter (keyed ?env k) fs)) + guess_budget (capped cfg) t (map_of (gs_backoff (gateway_flow gw burst ?s)) k)
      \<le> guess_budget (capped cfg) t (map_of (gs_backoff ?s) k) + int (length (filter (gives_back ?env k F) (answers burst)))"
    using ok F(1,2) assms(10) by (auto simp: throttled_def gateway_flow_append)
  moreover have "0 \<le> guess_budget (capped cfg) t (map_of (gs_backoff (gateway_flow gw burst ?s)) k)"
    using rl(9) by (auto simp: guess_budget_def cfg_def split: option.split)
  moreover have "guess_budget (capped cfg) t (map_of (gs_backoff ?s) k) \<le> env_failures getenv"
    using guess_budget_le [OF ok(2) sane] by (simp add: cfg_def)
  moreover note given_back_within [OF assms(11) F(3) rl(10), of n, unfolded new]
  moreover have "length (filter (keyed ?env k) fs)
      = length (filter (guess_at gw k) fs) + length (filter (\<lambda>fwd. keyed ?env k fwd \<and> \<not> guess_at gw k fwd) fs)"
    using guess_keyed [OF _ _ rl(10), of k] F by (intro keyed_split) (simp add: list_all_iff)
  ultimately have "int (length (filter (guess_at gw k) fs)) \<le> env_failures getenv + int (late_answers gw n F (answers burst))"
    by linarith
  then show ?thesis using run_is_flow [OF assms(1)] unfolding new by blast
qed

definition demo_libs :: "(gostr, gostr) gateway_libs" where
  "demo_libs = \<lparr>gl_url = (\<lambda>raw. Some \<lparr>pu_scheme = lit ''http'', pu_host = raw, pu_path = []\<rparr>), gl_netip = demo_netip,
     gl_jwt = ge_jwt demo_gateway, gl_parse = ge_parse demo_gateway, gl_lower = id, gl_known = (\<lambda>_. True)\<rparr>"

definition demo_environment :: environment where
  \<comment> \<open>a signing secret and nothing else\<close>
  "demo_environment = (\<lambda>name. if name = lit ''JWT_SECRET'' then replicate 32 97 else [])"

lemma demo_unset: "demo_environment (lit ''RATE_LIMIT_ENABLED'') = []" "demo_environment (lit ''TRUSTED_PROXIES'') = []"
    "demo_environment (lit ''RATE_LIMIT_LOGIN_FAILURES'') = []" "demo_environment (lit ''RATE_LIMIT_LOGIN_MAX_BACKOFF'') = []"
    "demo_environment (lit ''RATE_LIMIT_IP_REQUESTS'') = []" "demo_environment (lit ''RATE_LIMIT_IP_WINDOW'') = []"
    "demo_environment (lit ''JWT_SECRET'') = replicate 32 97"
  by (simp_all add: demo_environment_def lit_def)

lemma demo_on: "demo_environment (lit ''RATE_LIMIT_ENABLED'') \<noteq> lit ''false''"
  by (simp add: demo_unset) (simp add: lit_def)

lemma five: "Atoi (lit ''5'') = (5, True)" and hundred: "Atoi (lit ''100'') = (100, True)"
  by code_simp+

lemma quarter_hour: "ParseDuration (lit ''15m'') = Some (900 * second_ns)"
proof -
  have "takeWhile in_unit (lit ''m'') = lit ''m''" "dropWhile in_unit (lit ''m'') = []"
    by (simp_all add: lit_def in_unit_def is_digit_def)
  moreover have "leading_int 0 (lit ''15m'') = Some (15, lit ''m'')" by (simp add: lit_def is_digit_def)
  moreover have "parse_fraction (lit ''m'') = (0, FNum 1, lit ''m'', False)" by (simp add: parse_fraction_def lit_def)
  moreover have "unitMap (lit ''m'') = Some 60000000000" by (simp add: unitMap_def lit_def)
  ultimately have "parse_terms (lit ''15m'') 0 = Some (900 * second_ns)"
    by (subst parse_terms.simps) (simp add: term_value_def second_ns_def parse_terms.simps [of "[]"] lit_def is_digit_def)
  then show ?thesis by (simp add: ParseDuration_def lit_def Let_def second_ns_def)
qed

lemma demo_policy: "rateLimitConfig demo_netip demo_environment = Some \<lparr>rl_enabled = True, rl_ip_limit = 100, rl_ip_window = 900 * second_ns,
    rl_trusted = [], rl_backoff = Some \<lparr>FreeFailures = 4, BaseDelay = 60 * second_ns, MaxDelay = 900 * second_ns\<rparr>, rl_max_login = 65536\<rparr>"
proof -
  have "ParseTrustedProxies demo_netip [] = Some []" by (simp add: ParseTrustedProxies_def trim_space_def trim_right_def)
  moreover have "wrap64 4 = 4" by (simp add: wrap64_id int64_def)
  moreover have "lit ''true'' \<noteq> lit ''false''" by (simp add: lit_def)
  ultimately show ?thesis
    by (simp add: rateLimitConfig_def envOrDefault_def demo_unset mustParseTrustedProxies_def mustParsePositiveInt_def five hundred
        mustParsePositiveDuration_def quarter_hour second_ns_def maxLoginBodyBytes_def MaxBodyBytes_def loginBackoffBase_def)
qed

lemma demo_listens_with: "\<exists>gw. gateway_main (demo_libs\<lparr>gl_jwt := lib\<rparr>) demo_environment = Some gw"
proof -
  have "mustParseURL (gl_url demo_libs) raw = (if raw = [] then None else Some \<lparr>pu_scheme = lit ''http'', pu_host = raw, pu_path = []\<rparr>)" for raw
    by (simp add: mustParseURL_def demo_libs_def lit_def)
  moreover have "envOrDefault demo_environment key (lit (c # cs)) \<noteq> []" for key c cs by (simp add: envOrDefault_def lit_def)
  moreover have "length (utf8 (replicate 32 (97::rune))) = 32" by (simp add: utf8_def utf8_rune_def numeral_eq_Suc)
  moreover have "gl_netip demo_libs = demo_netip" by (simp add: demo_libs_def)
  ultimately show ?thesis
    by (simp add: gateway_main_def Let_def demo_unset ValidateSecret_def MinSecretLength_def demo_policy)
qed

lemma demo_listens: "\<exists>gw. gateway_main demo_libs demo_environment = Some gw"
  using demo_listens_with [of "gl_jwt demo_libs"] by simp

definition demo_network :: network where
  "demo_network = (\<lambda>_ _. Some \<lparr>r_status = 401, r_headers = (\<lambda>_. None), r_body = Raw []\<rparr>)"

theorem booted_gateway_bounds_guesses_witness:
  "\<exists>gw. gateway_main demo_libs demo_environment = Some gw
    \<and> length (filter (guess_at gw [97]) (gs_forwarded (gateway_flow gw
        (map (\<lambda>i. (int i, Enters demo_login)) [0..<50] @ map (\<lambda>i. (50, Answered i 401)) [0..<50]) gateway_start))) \<le> 5"
proof -
  obtain gw where gw: "gateway_main demo_libs demo_environment = Some gw" using demo_listens by blast
  have f: "env_failures demo_environment = 5" "env_max_backoff demo_environment = Some (900 * second_ns)"
    by (simp_all add: env_failures_def env_max_backoff_def envOrDefault_def demo_unset five quarter_hour)
  let ?burst = "map (\<lambda>i. (int i, Enters demo_login)) [0..<50] @ map (\<lambda>i. (50, Answered i 401)) [0..<50]"
  have a: "answers ?burst = map (\<lambda>i. (i, 401)) [0..<50]"
    by (simp add: answers_def List.map_filter_def comp_def)
  have v: "verdicts gw [97] F (answers ?burst)" "late_answers gw n F (answers ?burst) = 0" for n F
    unfolding a by (simp_all add: verdicts_def late_answers_def list_all_iff comp_def filter_empty_conv)
  have "int (length (filter (guess_at gw [97]) (drop (length (gs_forwarded (gateway_flow gw [] gateway_start)))
      (gs_forwarded (gateway_flow gw ([] @ ?burst) gateway_start))))) \<le> env_failures demo_environment
    + int (late_answers gw (length (gs_forwarded (gateway_flow gw [] gateway_start)))
        (gs_forwarded (gateway_flow gw ([] @ ?burst) gateway_start)) (answers ?burst))"
    by (rule conjunct1 [OF booted_gateway_bounds_guesses [OF gw demo_on _ f(2) _ _ _ _ refl refl, where t = 0]])
      (use v in \<open>auto simp: f second_ns_def list_all_iff\<close>)
  then show ?thesis using gw by (simp add: f v gateway_start_def)
qed

section \<open>The counters of the addresses\<close>

text \<open>C29. No address gets more than its share of the auth service: in a gateway that started to
  listen, from its start on and in any stretch as long as RATE_LIMIT_IP_WINDOW, at most twice
  RATE_LIMIT_IP_REQUESTS requests of one client address reach the auth service, whatever the other
  traffic and the sweeps in between, and however the backends answer.\<close>

theorem booted_gateway_bounds_addresses:
  assumes "gateway_main libs getenv = Some gw" and "getenv (lit ''RATE_LIMIT_ENABLED'') \<noteq> lit ''false''"
    and "env_window getenv = Some window" and "sorted (map fst evs)"
  shows "int (auth_passes gw k t (t + window) evs gateway_start) \<le> 2 * env_requests getenv"
proof -
  note rl = limits_on [OF assms(2) main_listens(1) [OF assms(1)]]
  have w: "rl_ip_window (policy gw) = window" using rl(5) assms(3) by simp
  obtain es where es: "sorted (map fst es)" "one_policy k (env_requests getenv) window es"
      "auth_passes gw k t (t + window) evs gateway_start \<le> passes k t (t + window) (admitted Allow EvictStale es NewMemoryStore)"
    using run_projects [OF assms(1) rl(1) assms(4), of k t "t + window" gateway_start] unfolding rl(2) w
    by (auto simp: gateway_start_def)
  have "int (passes k t (t + window) (admitted Allow EvictStale es NewMemoryStore)) \<le> 2 * env_requests getenv"
    using ms.passes_bound [OF rl(3,4) _ _ ms_good_new ms_entry_new es(1,2)] rl(6,7) unfolding w by blast
  then show ?thesis using es(3) by linarith
qed

theorem booted_gateway_bounds_addresses_witness:
  "\<exists>gw. gateway_main demo_libs demo_environment = Some gw
    \<and> auth_passes gw (lit ''10.0.0.1'') 0 (900 * second_ns)
        (map (\<lambda>n. (int n, Arrives demo_network demo_login)) [0..<500]) gateway_start \<le> 200"
proof -
  obtain gw where gw: "gateway_main demo_libs demo_environment = Some gw" using demo_listens by blast
  have e: "env_requests demo_environment = 100" "env_window demo_environment = Some (900 * second_ns)"
    by (simp_all add: env_requests_def env_window_def envOrDefault_def demo_unset hundred quarter_hour)
  have "sorted (map fst (map (\<lambda>n. (int n, Arrives demo_network demo_login)) [0..<500]))"
    by (simp add: comp_def sorted_map)
  from booted_gateway_bounds_addresses [OF gw demo_on e(2) this, of "lit ''10.0.0.1''" 0] show ?thesis
    using gw by (simp add: e)
qed

end
