(* ===== verification/Llm.thy ===== *)
theory Llm
  imports Narrative
begin

text \<open>
  services/ai-insights, internal/llm: the prompt for one report (prompt.go) and the call of the
  model (client.go). The SDK is outside the repository: an argument says how its call ends. So is
  the digit generation of \<open>strconv.FormatFloat\<close> with format \<open>g\<close> and the shortest
  precision, the argument \<open>fmt\<close>.
\<close>

section \<open>The prompt\<close>

definition systemPrompt :: gostr where \<open>
  systemPrompt =
     lit ''You explain a paper-trading simulator's portfolio analysis to the person who owns it. They are learning to ''
     @ lit ''trade and the account is simulated.'' @ [10]
     @ [10]
     @ lit ''You will be given a report and a list of placeholders. Write three short paragraphs, one per section: risk, ''
     @ lit ''benchmarking, behavior. Two to four sentences each.'' @ [10]
     @ [10]
     @ lit ''THE ONE RULE THAT MATTERS: you must never write a figure. Every number, date, ticker and quantity must appear ''
     @ lit ''as a placeholder token copied exactly from the list you are given, in braces, like {risk.max_drawdown_pct}. ''
     @ lit ''The system replaces each token with the real value.'' @ [10]
     @ [10]
     @ lit ''This means, without exception:'' @ [10]
     @ lit ''- Write no digits at all. Not in a number, not in a date, not in a ticker.'' @ [10]
     @ lit ''- Write no spelled-out numbers or quantities either. This includes small ones: not "one", not "two", not ''
     @ lit ''"three", not "both", and not "half", "a third", "double" or "a dozen". This is the rule drafts fail most ''
     @ lit ''often. If you want to say how many trades there were, write {behavior.trade_count}. If you want to say how ''
     @ lit ''many holdings there are, write {risk.position_count}. If there is no placeholder for the count you want, name ''
     @ lit ''the things instead of counting them: write "{benchmarking.SPY.sharpe} for SPY and {benchmarking.QQQ.sharpe} ''
     @ lit ''for QQQ" rather than "all three are negative", and "your holdings" rather than "your three holdings". Words ''
     @ lit ''that imply a count are covered by this too: no "a couple", no "a pair", no "a dozen".'' @ [10]
     @ lit ''- Write no units. No percent signs, no dollar signs, no "percent", no "dollars". The unit is supplied with ''
     @ lit ''the figure.'' @ [10]
     @ lit ''- Use only placeholders from the list. If a figure you want is not on the list, write the sentence without it.'' @ [10]
     @ [10]
     @ lit ''A draft that breaks any of these is discarded unread, so there is no benefit to guessing at a number.'' @ [10]
     @ [10]
     @ lit ''WHAT TO WRITE: explain what a figure means, rather than restating it. "Concentration this high means a single ''
     @ lit ''holding moves the whole account" tells the reader something; "your concentration is {risk.concentration_hhi}" ''
     @ lit ''does not. Prefer plain language and define any term you use.'' @ [10]
     @ [10]
     @ lit ''Be neutral. Do not congratulate, encourage, reassure or soften. A portfolio that lost money should read as a ''
     @ lit ''portfolio that lost money.'' @ [10]
     @ [10]
     @ lit ''Give no advice. Do not tell the reader to buy, sell, hold, reduce, diversify or rebalance anything, and make ''
     @ lit ''no claim about what any price or return will do next. Describe and explain only.'' @ [10]
     @ [10]
     @ lit ''If a section is marked unavailable, omit it entirely rather than writing around it.'' @ [10]
     @ [10]
     @ lit ''Reply with a JSON object and nothing else, with the keys "risk", "benchmarking" and "behavior", each a single ''
     @ lit ''string. Omit the key for any unavailable section.''\<close>

definition describe :: "(f64 \<Rightarrow> gostr) \<Rightarrow> figure \<Rightarrow> gostr" where
  "describe fmt v = (case fg_kind v of
     KindPercent \<Rightarrow> fmt (fg_num v) @ lit '' (a percentage)''
   | KindSignedPercent \<Rightarrow> fmt (fg_num v) @ lit '' (a percentage)''
   | KindRatio \<Rightarrow> fmt (fg_num v) @ lit '' (a ratio)''
   | KindIndex \<Rightarrow> fmt (fg_num v) @ lit '' (a concentration index; higher means more concentrated)''
   | KindMoney \<Rightarrow> fmt (fg_num v) @ lit '' (an amount of money)''
   | KindQuantity \<Rightarrow> fmt (fg_num v) @ lit '' (a number of shares)''
   | KindCount \<Rightarrow> fmt (fg_num v) @ lit '' (a count)''
   | KindDate \<Rightarrow> fg_text v @ lit '' (a calendar date)''
   | KindSymbol \<Rightarrow> fg_text v @ lit '' (a ticker symbol)'')"

definition section_line :: "gostr \<times> section_state \<times> gostr \<Rightarrow> gostr" where
  "section_line = (\<lambda>(name, state, reason).
     if state = StateOK then lit ''- '' @ name @ lit '': available'' @ [10]
     else lit ''- '' @ name @ lit '': UNAVAILABLE ('' @ (if reason = [] then lit ''not enough data'' else reason)
       @ lit '') -- omit this section'' @ [10])"

definition token_line :: "(f64 \<Rightarrow> gostr) \<Rightarrow> vocabulary \<Rightarrow> gostr \<Rightarrow> gostr" where
  \<comment> \<open>the name is one of the map's keys\<close>
  "token_line fmt vocab name = (case map_of vocab name of
     None \<Rightarrow> []
   | Some v \<Rightarrow> lit ''{'' @ name @ lit ''} = '' @ describe fmt v @ [10])"

definition BuildPrompt :: "(f64 \<Rightarrow> gostr) \<Rightarrow> portfolio_insights \<Rightarrow> vocabulary \<Rightarrow> prompt" where
  "BuildPrompt fmt r vocab =
     \<lparr>pm_system = systemPrompt,
      pm_user = lit ''SECTIONS'' @ [10]
        @ concat (map section_line
            [(lit ''risk'', rs_state (pi_risk r), lit (rs_reason (pi_risk r))),
             (lit ''benchmarking'', bs_state (pi_benchmarking r), lit (bs_reason (pi_benchmarking r))),
             (lit ''behavior'', hs_state (pi_behavior r), lit (hs_reason (pi_behavior r)))])
        @ [10] @ lit ''PLACEHOLDERS YOU MAY USE, WITH THEIR CURRENT VALUES'' @ [10]
        @ lit ''Values are shown so you can judge what is worth saying. Copy the token, never the value.'' @ [10]
        @ concat (map (token_line fmt vocab) (sort (map fst vocab)))\<rparr>"

section \<open>The call\<close>

text \<open>The SDK returns an error, with whether the deadline of the call has passed and the status when
  the API answered, or a message: whether it is a refusal, and its blocks, of which only the
  text blocks have a text.\<close>

datatype sdk_result = SdkError bool "int option" | SdkMessage bool "gostr option list"

definition classify :: "bool \<Rightarrow> int option \<Rightarrow> llm_err" where
  "classify expired status =
     (if expired then ErrTimeout
      else case status of
        None \<Rightarrow> ErrUpstream
      | Some code \<Rightarrow> if code = 429 then ErrRateLimited else if code = 408 \<or> code = 504 then ErrTimeout else ErrUpstream)"

definition Draft :: "sdk_result \<Rightarrow> llm_err + gostr" where
  "Draft res = (case res of
     SdkError expired status \<Rightarrow> Inl (classify expired status)
   | SdkMessage refusal blocks \<Rightarrow>
       if refusal then Inl ErrRefused
       else Inr (concat (map (\<lambda>b. case b of None \<Rightarrow> [] | Some t \<Rightarrow> t) blocks)))"

definition NewClient :: "(nat \<Rightarrow> prompt \<Rightarrow> sdk_result) \<Rightarrow> (gostr \<Rightarrow> json option) \<Rightarrow> (rune \<Rightarrow> bool) \<Rightarrow> gen_env" where
  \<comment> \<open>\<open>sdk\<close> answers the n-th attempt of a generation\<close>
  "NewClient sdk parse_json printables = \<lparr>ge_draft = (\<lambda>i p. Draft (sdk i p)), ge_parse = parse_json, ge_print = printables\<rparr>"

end
