(* ===== verification/LlmProps.thy ===== *)
theory LlmProps
  imports Llm NarrativeProps
begin

text \<open>
  The prompt offers the model exactly the placeholders its drafts are checked against, and a call
  that fails is final.
\<close>

section \<open>Reading the prompt\<close>

definition no_brace :: "gostr \<Rightarrow> bool" where
  "no_brace s \<longleftrightarrow> list_all (\<lambda>r. \<not> brace r) s"

lemma no_brace_append [simp]: "no_brace (a @ b) \<longleftrightarrow> no_brace a \<and> no_brace b"
  by (auto simp: no_brace_def)

lemma no_brace_Cons [simp]: "no_brace (r # s) \<longleftrightarrow> \<not> brace r \<and> no_brace s"
  by (simp add: no_brace_def)

lemma no_brace_Nil [simp]: "no_brace []"
  by (simp add: no_brace_def)

lemma pieces_plain: "no_brace s \<Longrightarrow> tokens_of (pieces (s @ rest)) = tokens_of (pieces rest)"
  by (induction s) (auto simp: no_brace_def brace_def)

lemma pieces_token: "no_brace b \<Longrightarrow> tokens_of (pieces (123 # b @ 125 # rest)) = b # tokens_of (pieces rest)"
proof -
  assume b: "no_brace b"
  have "takeWhile (\<lambda>r. \<not> brace r) (b @ 125 # rest) = b"
    using b by (simp add: takeWhile_append no_brace_def list_all_iff brace_def)
  then have "take_token (b @ 125 # rest) = Some (b, rest)" by (simp add: take_token_def Let_def)
  then show ?thesis by simp
qed

lemma section_line_plain: "no_brace (fst sec) \<Longrightarrow> no_brace (snd (snd sec)) \<Longrightarrow> no_brace (section_line sec)"
  by (cases sec) (simp add: section_line_def lit_def brace_def)

section \<open>The tokens of a report\<close>

definition token_ok :: "gostr \<times> figure \<Rightarrow> bool" where
  "token_ok kv \<longleftrightarrow> no_brace (fst kv) \<and> no_brace (fg_text (snd kv))"

lemma safe_no_brace: "safeName s \<Longrightarrow> no_brace s"
  by (auto simp: safeName_def safe_rune_def no_brace_def list_all_iff brace_def)

lemma token_ok_num: "no_brace k \<Longrightarrow> token_ok (k, num kd n)"
  by (simp add: token_ok_def num_def)

lemma token_ok_text: "no_brace k \<Longrightarrow> no_brace s \<Longrightarrow> token_ok (k, text_figure kd s)"
  by (simp add: token_ok_def text_figure_def)

lemma put_all_ok: "list_all token_ok kvs \<Longrightarrow> list_all token_ok out \<Longrightarrow> list_all token_ok (put_all kvs out)"
proof (induction kvs arbitrary: out)
  case (Cons kv kvs)
  have "list_all token_ok (AList.update k v out)" if "token_ok (k, v)" "list_all token_ok out" for k v
    using that by (induction out) (auto simp: token_ok_def)
  then show ?case using Cons by (simp add: put_all_def put_def)
qed (simp add: put_all_def)

lemma put_all_distinct: "distinct (map fst out) \<Longrightarrow> distinct (map fst (put_all kvs out))"
  by (induction kvs arbitrary: out) (simp_all add: put_all_def put_def distinct_update)

lemma placeholders_ok:
  assumes "no_brace (pi_as_of r)" "no_brace (pi_start r)"
  shows "list_all token_ok (Placeholders r)"
proof -
  note k = token_ok_num token_ok_text safe_no_brace lit_def brace_def
  have w: "list_all token_ok (window_tokens r)" using assms by (simp add: window_tokens_def k)
  have p: "list_all token_ok (concat (map position_tokens ps))" for ps
    by (induction ps) (simp_all add: position_tokens_def k)
  have b: "list_all token_ok (concat (map benchmark_tokens bs))" for bs
    by (induction bs) (simp_all add: benchmark_tokens_def k)
  have f: "list_all token_ok (concat (map finding_tokens fs))" for fs
    by (induction fs) (simp_all add: finding_tokens_def k)
  have "list_all token_ok (risk_tokens s)" for s using p by (simp add: risk_tokens_def k split: option.splits)
  moreover have "list_all token_ok (benchmarking_tokens s)" for s using b by (simp add: benchmarking_tokens_def k)
  moreover have "list_all token_ok (behavior_tokens s)" for s using f by (simp add: behavior_tokens_def k)
  ultimately show ?thesis unfolding Placeholders_def using w by (intro put_all_ok) simp_all
qed

lemma date_no_brace: "date_ok s \<Longrightarrow> no_brace s"
proof -
  have d: "digit c \<noteq> None \<Longrightarrow> \<not> brace c" for c by (auto simp: digit_def brace_def split: if_splits)
  have v: "digits_value s acc \<noteq> None \<Longrightarrow> no_brace s" for s acc
    by (induction s arbitrary: acc) (auto simp: d split: option.splits)
  have "no_brace s" if "parse_date s \<noteq> None"
    using that
  proof (cases s rule: parse_date.cases)
    case (1 a b c e h1 f g h2 i j)
    then have "h1 = 45" "h2 = 45" "digits_value [a, b, c, e] 0 \<noteq> None" "digits_value [f, g] 0 \<noteq> None" "digits_value [i, j] 0 \<noteq> None"
      using that by (auto simp del: digits_value.simps split: if_splits option.splits)
    then show ?thesis
      using v [of "[a, b, c, e]" 0] v [of "[f, g]" 0] v [of "[i, j]" 0] 1 by (simp add: brace_def del: digits_value.simps)
  qed simp_all
  then show "date_ok s \<Longrightarrow> no_brace s" by (auto simp: date_ok_def)
qed

lemma describe_plain: "no_brace (fmt (fg_num v)) \<Longrightarrow> no_brace (fg_text v) \<Longrightarrow> no_brace (describe fmt v)"
  by (simp add: describe_def lit_def brace_def split: kind.split)

lemma token_lines:
  assumes "list_all token_ok vocab" "\<And>x. no_brace (fmt x)" "set names \<subseteq> set (map fst vocab)"
  shows "tokens_of (pieces (concat (map (token_line fmt vocab) names))) = names"
  using assms(3)
proof (induction names)
  case (Cons name names)
  then obtain v where v: "map_of vocab name = Some v" using map_of_eq_None_iff [of vocab name] by fastforce
  then have ok: "no_brace name" "no_brace (fg_text v)" using assms(1) map_of_SomeD [OF v] by (auto simp: list_all_iff token_ok_def)
  have "no_brace (lit '' = '' @ describe fmt v @ [10])" using describe_plain [OF assms(2) ok(2)] by (simp add: lit_def brace_def)
  from pieces_plain [OF this] have "tokens_of (pieces (concat (map (token_line fmt vocab) (name # names)))) = name # tokens_of (pieces (concat (map (token_line fmt vocab) names)))"
    using pieces_token [OF ok(1)] by (simp add: token_line_def v lit_def)
  then show ?case using Cons by simp
qed simp

text \<open>C40. The tokens advertised are the tokens substituted: read with the pattern that reads the
  drafts, the prompt offers exactly the placeholders of the report, each once and sorted, and
  whatever order the map of the vocabulary is iterated in, the prompt is the same.\<close>

theorem prompt_advertises_the_vocabulary:
  assumes "date_ok (pi_as_of r)" "date_ok (pi_start r)" and "\<And>x. no_brace (fmt x)"
    and "no_brace (lit (rs_reason (pi_risk r)))" "no_brace (lit (bs_reason (pi_benchmarking r)))" "no_brace (lit (hs_reason (pi_behavior r)))"
    and "mset vocab = mset (Placeholders r)"
  shows "tokens_of (pieces (pm_user (BuildPrompt fmt r vocab))) = sort (map fst (Placeholders r))
    \<and> distinct (map fst (Placeholders r)) \<and> BuildPrompt fmt r vocab = BuildPrompt fmt r (Placeholders r)"
proof -
  have d: "distinct (map fst (Placeholders r))" by (simp add: Placeholders_def put_all_distinct)
  have "mset (map fst vocab) = mset (map fst (Placeholders r))" using assms(7) by simp
  then have n: "sort (map fst vocab) = sort (map fst (Placeholders r))" by (intro properties_for_sort) simp_all
  have "distinct (map fst vocab)" using \<open>mset (map fst vocab) = _\<close> d by (metis mset_eq_imp_distinct_iff)
  then have m: "map_of vocab = map_of (Placeholders r)" using d assms(7) by (intro map_of_eqI) (auto dest: mset_eq_setD)
  then have e: "BuildPrompt fmt r vocab = BuildPrompt fmt r (Placeholders r)" by (simp add: BuildPrompt_def n token_line_def [abs_def])
  have plain: "no_brace (concat (map section_line
            [(lit ''risk'', rs_state (pi_risk r), lit (rs_reason (pi_risk r))),
             (lit ''benchmarking'', bs_state (pi_benchmarking r), lit (bs_reason (pi_benchmarking r))),
             (lit ''behavior'', hs_state (pi_behavior r), lit (hs_reason (pi_behavior r)))]))"
    using assms(4-6) by (simp add: section_line_plain lit_def brace_def)
  have head: "no_brace (lit ''SECTIONS'' @ [10])" "no_brace ([10] @ lit ''PLACEHOLDERS YOU MAY USE, WITH THEIR CURRENT VALUES'' @ [10]
        @ lit ''Values are shown so you can judge what is worth saying. Copy the token, never the value.'' @ [10])"
    by (simp_all add: lit_def brace_def)
  have "tokens_of (pieces (pm_user (BuildPrompt fmt r (Placeholders r))))
      = tokens_of (pieces (concat (map (token_line fmt (Placeholders r)) (sort (map fst (Placeholders r))))))"
    using pieces_plain [OF head(1)] pieces_plain [OF plain] pieces_plain [OF head(2)] by (simp add: BuildPrompt_def)
  also have "\<dots> = sort (map fst (Placeholders r))"
    using placeholders_ok [OF date_no_brace [OF assms(1)] date_no_brace [OF assms(2)]] assms(3) by (intro token_lines) simp_all
  finally show ?thesis using e d by simp
qed

theorem prompt_advertises_the_vocabulary_witness:
  "tokens_of (pieces (pm_user (BuildPrompt (\<lambda>_. [49]) demo_report (rev (Placeholders demo_report))))) =
    sort (map fst (Placeholders demo_report))"
proof -
  have "no_brace (lit (rs_reason (pi_risk demo_report)))" "no_brace (lit (bs_reason (pi_benchmarking demo_report)))"
    "no_brace (lit (hs_reason (pi_behavior demo_report)))"
    by (simp_all add: demo_report_def insufficientData_def insufficient_risk_def insufficient_benchmarking_def lit_def brace_def)
  then show ?thesis by (intro prompt_advertises_the_vocabulary [THEN conjunct1, OF demo_dates]) (simp_all add: brace_def)
qed

section \<open>A failed call\<close>

text \<open>A call that fails ends the generation whatever the next one would answer, and is reported by
  its own reason; a refusal is a failure although it is a message.\<close>

lemma failed_call_is_final:
  assumes "Draft (sdk 0 p) = Inl e" "vocab \<noteq> []"
  shows "Generate (NewClient sdk parse_json printables) p vocab = Inl (ErrDraft e)"
  using assms by (simp add: Generate_def NewClient_def)

lemma call_reasons:
  "narrativeReason (ErrDraft (classify True status)) = TimedOut"
  "narrativeReason (ErrDraft (classify False (Some 429))) = RateLimited"
  "narrativeReason (ErrDraft (classify False (Some 504))) = TimedOut"
  "narrativeReason (ErrDraft (classify False None)) = Upstream"
  "Draft (SdkMessage True blocks) = Inl ErrRefused" "narrativeReason (ErrDraft ErrRefused) = Refused"
  by (simp_all add: classify_def narrativeReason_def Draft_def)

text \<open>A draft that is refused because it states a figure is quoted, in the log and in the next prompt,
  with its figure.\<close>

lemma rejected_draft_has_a_figure:
  "Validate (lit ''Up 4'') vocab = Some demo_rejection \<and> list_ex ascii_digit (rj_fragment demo_rejection)"
  using demo_rejected [of vocab] by (simp add: demo_rejection_def lit_def ascii_digit_def)

end
