(* ===== verification/BacktestRouter.thy ===== *)
theory BacktestRouter
  imports BacktestProps PkgAuth
begin

text \<open>
  The routing table of services/backtesting (internal/handler/router.go). The three endpoints
  stand behind \<open>RequireAuth\<close>, which a group applies to its own routes only; what chi answers
  to a path or a method without a route has no model.
\<close>

record backtest_api =
  ba_upper :: "rune \<Rightarrow> rune"
  ba_history :: history_client
  ba_sched :: "gostr list \<Rightarrow> nat list"
  ba_pg :: bt_pg
  ba_uuid :: "gostr \<Rightarrow> uuid option"

record backtest_request =
  br_method :: gostr
  br_path :: gostr
  br_auth :: gostr
  br_body :: "run_backtest_request option"

datatype backtest_answer = BacktestHealthy | RunReply "backtest_detail reply" | RunsReply "backtest list reply"
  | DetailReply "backtest_detail reply" | BacktestRefused "unit reply" | BacktestUnrouted

definition backtest_endpoint :: "backtest_api \<Rightarrow> backtest_request \<Rightarrow> bt_db \<Rightarrow> (gostr \<Rightarrow> backtest_answer \<times> bt_db) option" where
  \<comment> \<open>the route of a request in the group, as a function of the subject\<close>
  "backtest_endpoint api r db =
     (if br_path r = lit ''/backtests'' then
        (if br_method r = lit ''POST'' then Some (\<lambda>subject.
           case handle_run (ba_upper api) (ba_history api) (ba_sched api) (ba_pg api) (ba_uuid api) (Some subject) (br_body r) db of
             (a, db') \<Rightarrow> (RunReply a, db'))
         else if br_method r = lit ''GET'' then Some (\<lambda>subject. (RunsReply (handle_list (ba_pg api) (ba_uuid api) (Some subject) db), db))
         else None)
      else if br_method r \<noteq> lit ''GET'' then None
      else map_option (\<lambda>i subject. (DetailReply (handle_get (ba_pg api) (ba_uuid api) (Some subject) i db), db))
        (path_param (lit ''/backtests/'') (br_path r)))"

definition NewRouter :: "jwt_lib \<Rightarrow> instant \<Rightarrow> secret \<Rightarrow> backtest_api \<Rightarrow> backtest_request \<Rightarrow> bt_db \<Rightarrow> backtest_answer \<times> bt_db" where
  "NewRouter lib now secret api r db =
     (if br_method r = lit ''GET'' \<and> br_path r = lit ''/healthz'' then (BacktestHealthy, db)
      else case backtest_endpoint api r db of
        None \<Rightarrow> (BacktestUnrouted, db)
      | Some next \<Rightarrow> RequireAuth lib now secret (br_auth r) (BacktestRefused writeUnauthorized, db) next)"

section \<open>What a request can change\<close>

lemma SaveBacktest_appends:
  assumes "SaveBacktest env b ts db = (r, db')" "db' \<noteq> db"
  shows "\<exists>row frows. runs db' = runs db @ [row] \<and> b_user row = b_user b \<and> b_id row = bp_uuid env
    \<and> fills db' = fills db @ map (Pair (b_id row)) (List.enumerate 0 frows)"
proof -
  have row: "b_user row = b_user b \<and> b_id row = b_id b" if "store_run env b = Some row" for row and b :: backtest
    using that by (auto simp: store_run_def split: bind_splits)
  show ?thesis
    using assms row
    by (fastforce simp: SaveBacktest_def Let_def split: if_splits option.splits commit_outcome.splits)
qed

lemma RunBacktest_appends:
  assumes "RunBacktest uc history sched env user req db = (r, db')" "db' \<noteq> db"
  shows "\<exists>row frows. runs db' = runs db @ [row] \<and> b_user row = user \<and> b_id row = bp_uuid env
    \<and> fills db' = fills db @ map (Pair (b_id row)) (List.enumerate 0 frows)"
  using assms by (auto simp: RunBacktest_def split: sum.splits prod.splits dest!: SaveBacktest_appends)

lemma RunBacktest_saves:
  assumes "validateRequest uc req = Inr p" "fetchHistories history (sp_symbols p) (sched (sp_symbols p)) = Inr fetched"
    and "run_result p fetched = Inr (result, m)"
  shows "\<exists>b. snd (RunBacktest uc history sched env user req db) = snd (SaveBacktest env b (Trades result) db)"
proof -
  let ?b = "\<lparr>b_id = 0, b_user = user, b_symbols = sp_symbols p, b_strategy = Kind (sp_strategy p), b_params = Params (sp_strategy p),
    b_start = sp_start p, b_end = sp_end p, b_capital = sp_capital p, b_final_equity = FinalEquity result, b_metrics = m, b_created_at = 0\<rparr>"
  have "snd (RunBacktest uc history sched env user req db) = snd (SaveBacktest env ?b (Trades result) db)"
    unfolding RunBacktest_def assms sum_bind.simps prod.case sum.case by (auto split: prod.splits sum.splits)
  then show ?thesis by blast
qed

text \<open>C28. A request stores a run only with a valid access token and in the name of its subject: the
  tables are changed by nothing but a POST that RequireAuth let through, which appends one run of
  the token's user and the numbered fills of that run, and leaves every other run and fill as it
  was.\<close>

theorem backtests_act_for_their_subject:
  assumes "NewRouter lib now secret api r db = (a, db')" and "db' \<noteq> db"
  shows "\<exists>subject user row frows. authenticate lib now secret (br_auth r) = Some subject \<and> ba_uuid api subject = Some user
    \<and> br_method r = lit ''POST'' \<and> br_path r = lit ''/backtests''
    \<and> runs db' = runs db @ [row] \<and> b_user row = user \<and> b_id row = bp_uuid (ba_pg api)
    \<and> fills db' = fills db @ map (Pair (b_id row)) (List.enumerate 0 frows)"
proof -
  obtain subject nxt where s: "authenticate lib now secret (br_auth r) = Some subject" "backtest_endpoint api r db = Some nxt"
    "nxt subject = (a, db')"
    using assms by (auto simp: NewRouter_def RequireAuth_def split: if_splits option.splits)
  then obtain a' where p: "br_method r = lit ''POST''" "br_path r = lit ''/backtests''"
      "handle_run (ba_upper api) (ba_history api) (ba_sched api) (ba_pg api) (ba_uuid api) (Some subject) (br_body r) db = (a', db')"
    using assms(2) by (auto simp: backtest_endpoint_def split: if_splits prod.splits)
  then obtain user req res where u: "ba_uuid api subject = Some user"
      "RunBacktest (ba_upper api) (ba_history api) (ba_sched api) (ba_pg api) user req db = (res, db')"
    using assms(2) by (auto simp: handle_run_def userID_def split: option.splits prod.splits)
  from RunBacktest_appends [OF u(2) assms(2)] show ?thesis using s(1) p(1,2) u(1) by blast
qed

section \<open>A stored run\<close>

text \<open>One request of the user 7 for the symbol AAPL, to the demonstration database.\<close>

definition router_request :: backtest_request where
  "router_request = \<lparr>br_method = lit ''POST'', br_path = lit ''/backtests'', br_auth = lit ''Bearer '' @ [7],
     br_body = Some (demo_request\<lparr>rq_symbols := [lit ''AAPL'']\<rparr>)\<rparr>"

definition router_api :: backtest_api where
  "router_api = \<lparr>ba_upper = id, ba_history = (\<lambda>_. Inr demo_bars), ba_sched = (\<lambda>xs. [0..<length xs]), ba_pg = demo_env,
     ba_uuid = (\<lambda>s. if s = lit ''u'' then Some 7 else None)\<rparr>"

definition router_claims :: claims where
  "router_claims = \<lparr>c_type = TokenTypeAccess, c_id = [], c_subject = lit ''u'', c_issued = None, c_expires = Some 9\<rparr>"

lemma run_dates: "parse_date (lit ''2024-01-01'') = Some (go_date 2024 1 1)" "parse_date (lit ''2024-01-04'') = Some (go_date 2024 1 4)"
  "go_date 2024 1 1 < go_date 2024 1 4" by code_simp+

lemma demo_aligned: "length (snd (alignBars [(lit ''AAPL'', demo_bars)] (go_date 2024 1 1) (go_date 2024 1 4)) ! 0) = 4"
  by code_simp

lemma demo_aligned': "length (snd (alignBars [(lit ''AAPL'', demo_bars)] (go_date 2024 1 1) (go_date 2024 1 4))) = 1"
  by code_simp

lemma run_valid: "validateRequest id (demo_request\<lparr>rq_symbols := [lit ''AAPL'']\<rparr>) =
  Inr \<lparr>sp_symbols = [lit ''AAPL''], sp_strategy = demo_strategy, sp_start = go_date 2024 1 1, sp_end = go_date 2024 1 4, sp_capital = FNum 100\<rparr>"
proof -
  have n: "normalizeSymbols id [lit ''AAPL''] = Inr [lit ''AAPL'']" by code_simp
  show ?thesis unfolding validateRequest_def by (simp add: n demo_request_def run_dates demo_new f64_ops_def)
qed

lemma demo_columns: "column_opt (bp_numeric demo_env) p = Some p"
  by (cases p) (simp_all add: demo_env_def)

lemma demo_stores: "\<exists>row. store_run demo_env b = Some row" "\<exists>frows. store_fills demo_env ts = Some frows"
proof -
  show "\<exists>row. store_run demo_env b = Some row"
    by (simp add: store_run_def store_metrics_def demo_columns) (simp add: demo_env_def)
  have one: "\<exists>f. store_fill demo_env t = Some f" for t
    by (simp add: store_fill_def demo_columns) (simp add: demo_env_def)
  show "\<exists>frows. store_fills demo_env ts = Some frows"
    unfolding store_fills_def by (induction ts) (use one in \<open>fastforce split: option.splits\<close>)+
qed

lemma demo_saves: "\<exists>r db'. SaveBacktest demo_env b ts db = (r, db') \<and> runs db' \<noteq> runs db"
proof -
  obtain row frows where s: "store_run demo_env (b\<lparr>b_id := bp_uuid demo_env, b_created_at := bp_now demo_env\<rparr>) = Some row"
      "store_fills demo_env ts = Some frows"
    using demo_stores by blast
  show ?thesis by (simp add: SaveBacktest_def s) (simp add: demo_env_def)
qed

lemma demo_result: "\<exists>result m. run_result \<lparr>sp_symbols = [lit ''AAPL''], sp_strategy = demo_strategy, sp_start = go_date 2024 1 1,
    sp_end = go_date 2024 1 4, sp_capital = FNum 100\<rparr> [(lit ''AAPL'', demo_bars)] = Inr (result, m)"
proof -
  let ?a = "snd (alignBars [(lit ''AAPL'', demo_bars)] (go_date 2024 1 1) (go_date 2024 1 4))"
  have "?a \<noteq> []" "?a ! 0 \<noteq> []" using demo_aligned demo_aligned' by (metis length_0_conv zero_neq_numeral zero_neq_one)+
  moreover have "WarmupBars demo_strategy = 3" by code_simp
  ultimately show ?thesis using demo_aligned by (simp add: run_result_def split_beta Let_def)
qed

lemma demo_runs: "runs (snd (RunBacktest id (\<lambda>_. Inr demo_bars) (\<lambda>xs. [0..<length xs]) demo_env 7 (demo_request\<lparr>rq_symbols := [lit ''AAPL'']\<rparr>) db))
    \<noteq> runs db"
proof -
  have f: "fetchHistories (\<lambda>_. Inr demo_bars) [lit ''AAPL''] [0..<length [lit ''AAPL'']] = Inr [(lit ''AAPL'', demo_bars)]"
    by code_simp
  obtain result m where r: "run_result \<lparr>sp_symbols = [lit ''AAPL''], sp_strategy = demo_strategy, sp_start = go_date 2024 1 1,
    sp_end = go_date 2024 1 4, sp_capital = FNum 100\<rparr> [(lit ''AAPL'', demo_bars)] = Inr (result, m)"
    using demo_result by blast
  obtain b where "snd (RunBacktest id (\<lambda>_. Inr demo_bars) (\<lambda>xs. [0..<length xs]) demo_env 7 (demo_request\<lparr>rq_symbols := [lit ''AAPL'']\<rparr>) db)
      = snd (SaveBacktest demo_env b (Trades result) db)"
    using RunBacktest_saves [OF run_valid _ r, where sched = "\<lambda>xs. [0..<length xs]" and history = "\<lambda>_. Inr demo_bars"] f
    unfolding strategy_params.simps by blast
  then show ?thesis using demo_saves [of b "Trades result" db] by auto
qed

lemma router_path: "br_path router_request = lit ''/backtests''" "br_method router_request = lit ''POST''"
  by (simp_all add: router_request_def)

lemma router_authenticated: "authenticate (one_token [2] router_claims) 5 [2] (br_auth router_request) = Some (lit ''u'')"
proof -
  have "ValidateToken (one_token [2] router_claims) 5 [2] [7] = Some router_claims"
    by (rule one_token_valid) (simp add: router_claims_def)
  then show ?thesis by (simp add: authenticate_Some router_request_def) (auto simp: router_claims_def)
qed

lemma router_routed: "runs (snd (NewRouter (one_token [2] router_claims) 5 [2] router_api router_request db)) \<noteq> runs db"
proof -
  have ne: "lit ''POST'' \<noteq> lit ''GET''" by (simp add: lit_def)
  have "snd (NewRouter (one_token [2] router_claims) 5 [2] router_api router_request db)
    = snd (RunBacktest id (\<lambda>_. Inr demo_bars) (\<lambda>xs. [0..<length xs]) demo_env 7 (demo_request\<lparr>rq_symbols := [lit ''AAPL'']\<rparr>) db)"
    by (simp add: NewRouter_def backtest_endpoint_def router_path ne RequireAuth_def router_authenticated)
      (simp add: handle_run_def userID_def router_api_def router_request_def split_beta)
  then show ?thesis using demo_runs by simp
qed

theorem backtests_act_for_their_subject_witness:
  "\<exists>row. runs (snd (NewRouter (one_token [2] router_claims) 5 [2] router_api router_request \<lparr>runs = [], fills = []\<rparr>)) = [row] \<and> b_user row = 7"
proof -
  obtain a db' where n: "NewRouter (one_token [2] router_claims) 5 [2] router_api router_request \<lparr>runs = [], fills = []\<rparr> = (a, db')"
    by fastforce
  have "db' \<noteq> \<lparr>runs = [], fills = []\<rparr>" using router_routed [of "\<lparr>runs = [], fills = []\<rparr>"] unfolding n by auto
  from backtests_act_for_their_subject [OF n this] show ?thesis
    unfolding n by (auto simp: router_authenticated) (auto simp: router_api_def split: if_splits)
qed

end
