(* ===== verification/ServiceBoot.thy ===== *)
theory ServiceBoot
  imports GatewayBoot BacktestRouter TradingHandler AuthHandler Wire InsightsHandler Llm
begin

text \<open>
  cmd/server/main.go of auth, market-data, trading-engine, backtesting and ai-insights, the Redis
  client they share (pkg/redisclient) and the health check of their images
  (infra/docker/healthcheck). Each main is what the environment makes of it: \<open>None\<close> is
  \<open>log.Fatal\<close>, and a process that listens has an address, the options of its Redis client and
  a router. What a router meets outside the process when it serves one request (the clock, the
  databases, the answers of other services) is its first argument, a \<open>world\<close>.
\<close>

section \<open>The Redis client\<close>

record redis_options =
  ro_context_timeout :: bool
  ro_read :: int
  ro_write :: int
  ro_dial :: int

definition redis_Timeout :: int where "redis_Timeout = 500 * 1000000"

definition redisclient_New :: "redis_options \<Rightarrow> redis_options" where
  \<comment> \<open>the options \<open>redis.NewClient\<close> is given\<close>
  "redisclient_New opts =
     (let opts1 = opts\<lparr>ro_context_timeout := True\<rparr>;
          opts2 = (if ro_read opts1 = 0 then opts1\<lparr>ro_read := redis_Timeout\<rparr> else opts1);
          opts3 = (if ro_write opts2 = 0 then opts2\<lparr>ro_write := redis_Timeout\<rparr> else opts2)
      in if ro_dial opts3 = 0 then opts3\<lparr>ro_dial := redis_Timeout\<rparr> else opts3)"

section \<open>The health check\<close>

definition healthcheck_main :: "(gostr \<Rightarrow> unit http_exchange) \<Rightarrow> environment \<Rightarrow> int" where
  \<comment> \<open>the exit status; \<open>get\<close> is a GET within two seconds\<close>
  "healthcheck_main get getenv =
     (let port = getenv (lit ''PORT'') in
      if port = [] then 1
      else case get (lit ''http://127.0.0.1:'' @ port @ lit ''/healthz'') of
        ReqFailed \<Rightarrow> 1
      | NoAnswer \<Rightarrow> 1
      | Answer status body \<Rightarrow> if status \<noteq> 200 then 1 else 0)"

section \<open>Processes\<close>

text \<open>What the mains use of the libraries: whether pgxpool accepts a DSN and whether the database
  then answers a ping, \<open>redis.ParseURL\<close>, the JWT library and \<open>uuid.Parse\<close> with its inverse.\<close>

record boot_libs =
  bl_pool :: "gostr \<Rightarrow> bool"
  bl_ping :: "gostr \<Rightarrow> bool"
  bl_redis :: "gostr \<Rightarrow> redis_options option"
  bl_jwt :: jwt_lib
  bl_upper :: "rune \<Rightarrow> rune"
  bl_uuid :: "gostr \<Rightarrow> uuid option"
  bl_uuid_text :: "uuid \<Rightarrow> gostr"

record 'r service_process =
  sv_addr :: gostr
  sv_redis :: "redis_options option"
  sv_router :: 'r

definition secret_of :: "environment \<Rightarrow> secret option" where
  \<comment> \<open>the two checks of \<open>JWT_SECRET\<close>\<close>
  "secret_of getenv =
     (let jwtSecret = getenv (lit ''JWT_SECRET'') in
      if jwtSecret = [] then None
      else if \<not> ValidateSecret (utf8 jwtSecret) then None
      else Some (utf8 jwtSecret))"

definition required :: "environment \<Rightarrow> string \<Rightarrow> gostr option" where
  "required getenv key = (if getenv (lit key) = [] then None else Some (getenv (lit key)))"

definition guard_boot :: "bool \<Rightarrow> unit option" where
  "guard_boot ok = (if ok then Some () else None)"

definition addr_of :: "environment \<Rightarrow> string \<Rightarrow> gostr" where
  "addr_of getenv port = envOrDefault getenv (lit ''BIND_ADDR'') (lit ''127.0.0.1'') @ lit '':'' @ envOrDefault getenv (lit ''PORT'') (lit port)"

definition optional_redis :: "boot_libs \<Rightarrow> environment \<Rightarrow> redis_options option option" where
  \<comment> \<open>\<open>Some None\<close> when \<open>REDIS_URL\<close> is not set, which is a supported configuration\<close>
  "optional_redis libs getenv =
     (let redisURL = getenv (lit ''REDIS_URL'') in
      if redisURL \<noteq> [] then map_option (\<lambda>opts. Some (redisclient_New opts)) (bl_redis libs redisURL) else Some None)"

section \<open>auth\<close>

text \<open>The world of a request is the environment of the service but for its secret and its token
  library.\<close>

definition auth_main :: "boot_libs \<Rightarrow> environment
    \<Rightarrow> (auth_env \<Rightarrow> auth_request \<Rightarrow> udb \<times> revoked \<Rightarrow> auth_answer \<times> udb \<times> revoked) service_process option" where
  "auth_main libs getenv = do {
     databaseURL \<leftarrow> required getenv ''DATABASE_URL'';
     jwtSecret \<leftarrow> secret_of getenv;
     redisURL \<leftarrow> required getenv ''REDIS_URL'';
     _ \<leftarrow> guard_boot (bl_pool libs databaseURL);
     redisOpts \<leftarrow> bl_redis libs redisURL;
     Some \<lparr>sv_addr = addr_of getenv ''8081'', sv_redis = Some (redisclient_New redisOpts),
       sv_router = (\<lambda>world r s. AuthHandler.NewRouter (world\<lparr>ae_lib := bl_jwt libs, ae_secret := jwtSecret, ae_uuid := bl_uuid libs,
         ae_uuid_text := bl_uuid_text libs\<rparr>) r s)\<rparr>
   }"

section \<open>market-data\<close>

record 'r market_process = "'r service_process" +
  mk_credentials :: "gostr \<times> gostr"
  mk_poller :: "tick list \<Rightarrow> price_redis \<Rightarrow> price_redis"
  mk_interval :: int

definition market_main :: "boot_libs \<Rightarrow> environment
    \<Rightarrow> (market_env \<Rightarrow> market_request \<Rightarrow> mkt_bar list \<Rightarrow> price_redis \<Rightarrow> (market_answer \<times> mkt_bar list) option) market_process option" where
  "market_main libs getenv = do {
     databaseURL \<leftarrow> required getenv ''DATABASE_URL'';
     alpacaKey \<leftarrow> required getenv ''ALPACA_API_KEY'';
     alpacaSecret \<leftarrow> required getenv ''ALPACA_API_SECRET'';
     redisURL \<leftarrow> required getenv ''REDIS_URL'';
     _ \<leftarrow> guard_boot (bl_pool libs databaseURL);
     redisOpts \<leftarrow> bl_redis libs redisURL;
     Some \<lparr>sv_addr = addr_of getenv ''8082'', sv_redis = Some (redisclient_New redisOpts), sv_router = MarketData.NewRouter,
       mk_credentials = (alpacaKey, alpacaSecret), mk_poller = Run DefaultWatchlist, mk_interval = PollInterval\<rparr>
   }"

section \<open>trading-engine\<close>

text \<open>\<open>tw_price\<close> is the GET of a symbol's price at a base URL.\<close>

record trading_world =
  tw_now :: instant
  tw_pg :: "api_call \<Rightarrow> pg"
  tw_price :: "gostr \<Rightarrow> gostr \<Rightarrow> json http_exchange"
  tw_del_fails :: bool

definition trading_wiring :: "boot_libs \<Rightarrow> gostr \<Rightarrow> redis_options option \<Rightarrow> trading_world \<Rightarrow> (tdb, redis) trading_api" where
  "trading_wiring libs marketDataURL redisOpts world =
     \<lparr>ta_upper = bl_upper libs, ta_store = postgres_store (tw_pg world), ta_prices = trading_price (tw_price world marketDataURL),
      ta_inval = (case redisOpts of None \<Rightarrow> noopInvalidator | Some _ \<Rightarrow> redis_invalidate (bl_uuid_text libs) (tw_del_fails world)),
      ta_uuid = bl_uuid libs\<rparr>"

definition trading_main :: "boot_libs \<Rightarrow> environment
    \<Rightarrow> (trading_world \<Rightarrow> http_request \<Rightarrow> tdb \<Rightarrow> redis \<Rightarrow> trading_answer \<times> tdb \<times> redis) service_process option" where
  "trading_main libs getenv = do {
     databaseURL \<leftarrow> required getenv ''DATABASE_URL'';
     jwtSecret \<leftarrow> secret_of getenv;
     let marketDataURL = envOrDefault getenv (lit ''MARKET_DATA_SERVICE_URL'') (lit ''http://localhost:8082'');
     _ \<leftarrow> guard_boot (bl_pool libs databaseURL);
     _ \<leftarrow> guard_boot (bl_ping libs databaseURL);
     redisOpts \<leftarrow> optional_redis libs getenv;
     Some \<lparr>sv_addr = addr_of getenv ''8083'', sv_redis = redisOpts,
       sv_router = (\<lambda>world. TradingHandler.NewRouter (bl_jwt libs) (tw_now world) jwtSecret (trading_wiring libs marketDataURL redisOpts world))\<rparr>
   }"

section \<open>backtesting\<close>

text \<open>\<open>bw_history\<close> is the GET of a symbol's history with a limit at a base URL.\<close>

record backtest_world =
  bw_now :: instant
  bw_pg :: bt_pg
  bw_history :: "gostr \<Rightarrow> gostr \<Rightarrow> gostr \<Rightarrow> json http_exchange"
  bw_sched :: "gostr list \<Rightarrow> nat list"

definition backtest_wiring :: "boot_libs \<Rightarrow> gostr \<Rightarrow> backtest_world \<Rightarrow> backtest_api" where
  "backtest_wiring libs marketDataURL world =
     \<lparr>ba_upper = bl_upper libs, ba_history = backtest_history (bw_history world marketDataURL), ba_sched = bw_sched world,
      ba_pg = bw_pg world, ba_uuid = bl_uuid libs\<rparr>"

definition backtesting_main :: "boot_libs \<Rightarrow> environment
    \<Rightarrow> (backtest_world \<Rightarrow> backtest_request \<Rightarrow> bt_db \<Rightarrow> backtest_answer \<times> bt_db) service_process option" where
  "backtesting_main libs getenv = do {
     databaseURL \<leftarrow> required getenv ''DATABASE_URL'';
     jwtSecret \<leftarrow> secret_of getenv;
     let marketDataURL = envOrDefault getenv (lit ''MARKET_DATA_SERVICE_URL'') (lit ''http://localhost:8082'');
     _ \<leftarrow> guard_boot (bl_pool libs databaseURL);
     _ \<leftarrow> guard_boot (bl_ping libs databaseURL);
     Some \<lparr>sv_addr = addr_of getenv ''8084'', sv_redis = None,
       sv_router = (\<lambda>world. BacktestRouter.NewRouter (bl_jwt libs) (bw_now world) jwtSecret (backtest_wiring libs marketDataURL world))\<rparr>
   }"

section \<open>ai-insights\<close>

text \<open>\<open>iw_trading\<close> is a GET of trading-engine (base URL, path and query, Authorization header),
  \<open>iw_history\<close> one of market-data; \<open>iw_sdk\<close> answers the attempts of a model.\<close>

record insights_world =
  iw_now :: instant
  iw_redis :: redis_env
  iw_trading :: "gostr \<Rightarrow> gostr \<Rightarrow> gostr \<Rightarrow> json http_exchange"
  iw_history :: "gostr \<Rightarrow> gostr \<Rightarrow> gostr \<Rightarrow> json http_exchange"
  iw_sched :: "gostr list \<Rightarrow> nat list"
  iw_hash :: "portfolio_insights \<Rightarrow> gostr"
  iw_format :: "f64 \<Rightarrow> gostr"
  iw_sdk :: "gostr \<Rightarrow> gostr \<Rightarrow> nat \<Rightarrow> prompt \<Rightarrow> sdk_result"
  iw_json :: "gostr \<Rightarrow> json option"
  iw_print :: "rune \<Rightarrow> bool"

definition defaultModel :: gostr where "defaultModel = lit ''claude-opus-5''"

definition insights_upstreams :: "gostr \<Rightarrow> gostr \<Rightarrow> insights_world \<Rightarrow> insights_upstream" where
  "insights_upstreams tradingURL marketDataURL world =
     \<lparr>up_trades = (\<lambda>authorization. insights_trades (iw_trading world tradingURL (lit ''/trading/trades?limit='' @ tradeLimit) authorization)),
      up_portfolio = (\<lambda>authorization. insights_portfolio (iw_trading world tradingURL (lit ''/trading/portfolio'') authorization)),
      up_history = insights_history (iw_history world marketDataURL), up_sched = iw_sched world\<rparr>"

definition insights_wiring :: "boot_libs \<Rightarrow> environment \<Rightarrow> redis_options option \<Rightarrow> insights_world \<Rightarrow> (redis \<times> counters) insights_api" where
  "insights_wiring libs getenv redisOpts world =
     (let tradingURL = envOrDefault getenv (lit ''TRADING_ENGINE_SERVICE_URL'') (lit ''http://localhost:8083'');
          marketDataURL = envOrDefault getenv (lit ''MARKET_DATA_SERVICE_URL'') (lit ''http://localhost:8082'');
          model = envOrDefault getenv (lit ''ANTHROPIC_MODEL'') defaultModel;
          apiKey = getenv (lit ''ANTHROPIC_API_KEY'')
      in insights_main (bl_uuid libs) (bl_uuid_text libs) (case redisOpts of None \<Rightarrow> None | Some _ \<Rightarrow> Some (iw_redis world))
        (insights_upstreams tradingURL marketDataURL world) (iw_hash world) (BuildPrompt (iw_format world))
        (if apiKey \<noteq> [] then Some (NewClient (iw_sdk world apiKey model) (iw_json world) (iw_print world)) else None))"

definition ai_insights_main :: "boot_libs \<Rightarrow> environment
    \<Rightarrow> (insights_world \<Rightarrow> gostr \<Rightarrow> gostr \<Rightarrow> gostr \<Rightarrow> redis \<times> counters \<Rightarrow> insights_answer \<times> redis \<times> counters) service_process option" where
  "ai_insights_main libs getenv = do {
     jwtSecret \<leftarrow> secret_of getenv;
     redisOpts \<leftarrow> optional_redis libs getenv;
     Some \<lparr>sv_addr = addr_of getenv ''8085'', sv_redis = redisOpts,
       sv_router = (\<lambda>world. InsightsHandler.NewRouter (bl_jwt libs) jwtSecret (insights_wiring libs getenv redisOpts world) (iw_now world))\<rparr>
   }"

end
