(* ===== verification/SystemFacts.thy ===== *)
theory SystemFacts
  imports ServiceBoot GatewayBootFacts
begin

text \<open>
  The services together: what a session that auth opened is worth at the others, when the mains
  of all of them ran with one signing secret.
\<close>

section \<open>What every process starts with\<close>

lemma secret_of_strong: "secret_of getenv = Some secret \<Longrightarrow> 32 \<le> length secret"
  by (auto simp: secret_of_def ValidateSecret_def MinSecretLength_def Let_def not_less split: if_splits)

lemma redisclient_New_bounded:
  "ro_context_timeout (redisclient_New opts) \<and> ro_read (redisclient_New opts) \<noteq> 0 \<and> ro_write (redisclient_New opts) \<noteq> 0
    \<and> ro_dial (redisclient_New opts) \<noteq> 0"
  by (simp add: redisclient_New_def redis_Timeout_def Let_def)

lemma redis_calls_bounded:
  assumes "(\<exists>p. auth_main libs getenv = Some p \<and> sv_redis p = Some opts) \<or> (\<exists>p. trading_main libs getenv = Some p \<and> sv_redis p = Some opts)
    \<or> (\<exists>p. ai_insights_main libs getenv = Some p \<and> sv_redis p = Some opts)"
  shows "ro_context_timeout opts \<and> ro_read opts \<noteq> 0 \<and> ro_write opts \<noteq> 0 \<and> ro_dial opts \<noteq> 0"
  using assms redisclient_New_bounded
  by (auto simp: auth_main_def trading_main_def ai_insights_main_def optional_redis_def Let_def split: bind_splits if_splits)

lemma healthcheck_ok:
  "healthcheck_main get getenv = 0 \<longleftrightarrow> getenv (lit ''PORT'') \<noteq> []
    \<and> (\<exists>b. get (lit ''http://127.0.0.1:'' @ getenv (lit ''PORT'') @ lit ''/healthz'') = Answer 200 b)"
  by (simp add: healthcheck_main_def Let_def split: http_exchange.split)

section \<open>The tokens of a session\<close>

definition bearer :: "gostr \<Rightarrow> gostr" where
  "bearer token = lit ''Bearer '' @ token"

definition access_expiry :: "jwt_lib \<Rightarrow> instant \<Rightarrow> instant" where
  "access_expiry lib issued = jl_numeric lib (issued + AccessTokenTTL)"

lemma authenticate_bearer:
  "authenticate lib now secret (bearer token) =
    (if token = [] then None else case ValidateToken lib now secret token of None \<Rightarrow> None
     | Some c \<Rightarrow> if c_type c \<noteq> TokenTypeAccess then None else Some (c_subject c))"
proof -
  have "cut_prefix (lit ''Bearer '') (bearer token) = Some token" by (simp add: bearer_def cut_prefix_Some)
  then show ?thesis by (simp add: authenticate_def)
qed

lemma ValidateToken_generated:
  assumes "jwt_ok lib" "GenerateToken lib jti iat secret user ty ttl = Some t"
  shows "ValidateToken lib now secret t = Some c \<Longrightarrow> c_type c = ty \<and> c_subject c = user \<and> now < jl_numeric lib (iat + ttl)"
    and "now < jl_numeric lib (iat + ttl) \<Longrightarrow> \<exists>c. ValidateToken lib now secret t = Some c \<and> c_type c = ty \<and> c_subject c = user"
proof -
  have now: "jl_numeric lib (iat + ttl) - 1 < jl_numeric lib (iat + ttl)" by simp
  note signed = ValidateToken_Some [OF assms(1) ValidateToken_signed [OF assms now], THEN conjunct2, rule_format]
  show "c_type c = ty \<and> c_subject c = user \<and> now < jl_numeric lib (iat + ttl)" if c: "ValidateToken lib now secret t = Some c"
    using ValidateToken_Some [OF assms(1) c, THEN conjunct1, rule_format] unfolding signed [OF c] by simp
  show "\<exists>c. ValidateToken lib now secret t = Some c \<and> c_type c = ty \<and> c_subject c = user" if "now < jl_numeric lib (iat + ttl)"
    using ValidateToken_signed [OF assms that] by simp
qed

lemma issued_tokens:
  assumes "jwt_ok (ae_lib env)" "issueTokenPair env user = Inr tokens" "tp_access tokens \<noteq> []"
  shows "authenticate (ae_lib env) now (ae_secret env) (bearer (tp_access tokens)) =
      (if now < access_expiry (ae_lib env) (ae_now env) then Some (ae_uuid_text env user) else None)"
    and "authenticate (ae_lib env) now (ae_secret env) (bearer (tp_refresh tokens)) = None"
proof -
  obtain g1: "GenerateToken (ae_lib env) (ae_jti env True) (ae_now env) (ae_secret env) (ae_uuid_text env user) TokenTypeAccess AccessTokenTTL = Some (tp_access tokens)"
    and g2: "GenerateToken (ae_lib env) (ae_jti env False) (ae_now env) (ae_secret env) (ae_uuid_text env user) TokenTypeRefresh RefreshTokenTTL = Some (tp_refresh tokens)"
    using assms(2) by (auto simp: issueTokenPair_def split: option.splits)
  show "authenticate (ae_lib env) now (ae_secret env) (bearer (tp_access tokens)) =
      (if now < access_expiry (ae_lib env) (ae_now env) then Some (ae_uuid_text env user) else None)"
    using ValidateToken_generated [OF assms(1) g1, of now] assms(3)
    by (auto simp: authenticate_bearer access_expiry_def split: option.split)
  show "authenticate (ae_lib env) now (ae_secret env) (bearer (tp_refresh tokens)) = None"
    using ValidateToken_generated(1) [OF assms(1) g2, of now]
    by (auto simp: authenticate_bearer token_types split: option.split)
qed

section \<open>A gate\<close>

text \<open>What every engine does with the Authorization header of a read: it refuses, or it acts for a
  subject.\<close>

locale bearer_gate =
  fixes gate :: "jwt_lib \<Rightarrow> secret \<Rightarrow> instant \<Rightarrow> gostr \<Rightarrow> 'a" and refused :: 'a and acts :: "instant \<Rightarrow> gostr \<Rightarrow> gostr \<Rightarrow> 'a"
  assumes guarded: "gate lib secret now header =
    (case authenticate lib now secret header of None \<Rightarrow> refused | Some subject \<Rightarrow> acts now header subject)"
begin

lemma session:
  assumes "jwt_ok (ae_lib env)" "issueTokenPair env user = Inr tokens" "tp_access tokens \<noteq> []"
  shows "gate (ae_lib env) (ae_secret env) now (bearer (tp_access tokens)) =
      (if now < access_expiry (ae_lib env) (ae_now env) then acts now (bearer (tp_access tokens)) (ae_uuid_text env user) else refused)"
    and "gate (ae_lib env) (ae_secret env) now (bearer (tp_refresh tokens)) = refused"
  by (simp_all add: guarded issued_tokens [OF assms])

lemma stranger: "(\<And>token. header \<noteq> bearer token) \<Longrightarrow> gate lib secret now header = refused"
  by (auto simp: guarded authenticate_Some bearer_def split: option.split)

end

section \<open>The reads of a session\<close>

definition portfolio_read :: "gostr \<Rightarrow> http_request" where
  "portfolio_read header = \<lparr>hr_method = lit ''GET'', hr_path = lit ''/trading/portfolio'', hr_auth = header, hr_limit = [], hr_body = None\<rparr>"

definition runs_read :: "gostr \<Rightarrow> backtest_request" where
  "runs_read header = \<lparr>br_method = lit ''GET'', br_path = lit ''/backtests'', br_auth = header, br_body = None\<rparr>"

definition login_request :: "auth_body \<Rightarrow> auth_request" where
  "login_request body = \<lparr>ar_method = lit ''POST'', ar_path = lit ''/auth/login'', ar_auth = [], ar_body = body\<rparr>"

lemma trading_gate:
  "fst (TradingHandler.NewRouter lib now secret api (portfolio_read header) s c) =
    (case authenticate lib now secret header of None \<Rightarrow> RefusedReply writeUnauthorized
     | Some subject \<Rightarrow> PortfolioReply (handle_Portfolio api (Some subject) s))"
proof -
  have "cut_prefix (lit ''/trading/'') (lit ''/trading/portfolio'') = Some (lit ''portfolio'')" by code_simp
  moreover have "lit ''/trading/portfolio'' \<noteq> lit ''/healthz''" "lit ''GET'' \<noteq> lit ''POST''" "lit ''/trading/portfolio'' \<noteq> lit ''/trading/orders''"
    "lit ''/trading/portfolio'' \<noteq> lit ''/trading/trades''" "lit ''/trading/portfolio'' \<noteq> lit ''/trading/positions''"
    by (simp_all add: lit_def)
  ultimately show ?thesis
    by (auto simp: TradingHandler.NewRouter_def portfolio_read_def RequireAuth_def trading_endpoint_def split: option.split)
qed

lemma backtest_gate:
  "fst (BacktestRouter.NewRouter lib now secret api (runs_read header) db) =
    (case authenticate lib now secret header of None \<Rightarrow> BacktestRefused writeUnauthorized
     | Some subject \<Rightarrow> RunsReply (handle_list (ba_pg api) (ba_uuid api) (Some subject) db))"
proof -
  have "lit ''/backtests'' \<noteq> lit ''/healthz''" "lit ''GET'' \<noteq> lit ''POST''" by (simp_all add: lit_def)
  then show ?thesis
    by (auto simp: BacktestRouter.NewRouter_def runs_read_def RequireAuth_def backtest_endpoint_def split: option.split)
qed

lemma insights_gate:
  "fst (InsightsHandler.NewRouter lib secret api now (lit ''GET'') (lit ''/insights/portfolio'') header w) =
    (case authenticate lib now secret header of None \<Rightarrow> InsightsReply writeUnauthorized
     | Some subject \<Rightarrow> InsightsReply (fst (handle_PortfolioInsights api now (Some subject) header w)))"
proof -
  have "lit ''/insights/portfolio'' \<noteq> lit ''/healthz''" by (simp add: lit_def)
  then show ?thesis by (auto simp: InsightsHandler.NewRouter_def RequireAuth_def split: option.split prod.split)
qed

interpretation tg: bearer_gate "\<lambda>lib secret now header. fst (TradingHandler.NewRouter lib now secret (api now) (portfolio_read header) s c)"
    "RefusedReply writeUnauthorized" "\<lambda>now header subject. PortfolioReply (handle_Portfolio (api now) (Some subject) s)"
  by unfold_locales (rule trading_gate)

interpretation bg: bearer_gate "\<lambda>lib secret now header. fst (BacktestRouter.NewRouter lib now secret (api now) (runs_read header) db)"
    "BacktestRefused writeUnauthorized" "\<lambda>now header subject. RunsReply (handle_list (ba_pg (api now)) (ba_uuid (api now)) (Some subject) db)"
  by unfold_locales (rule backtest_gate)

interpretation ig: bearer_gate "\<lambda>lib secret now header. fst (InsightsHandler.NewRouter lib secret (api now) now (lit ''GET'') (lit ''/insights/portfolio'') header w)"
    "InsightsReply writeUnauthorized" "\<lambda>now header subject. InsightsReply (fst (handle_PortfolioInsights (api now) now (Some subject) header w))"
  by unfold_locales (rule insights_gate)

section \<open>The gateway in front\<close>

definition plain_get :: "gostr \<Rightarrow> gostr \<Rightarrow> gostr \<Rightarrow> greq" where
  \<comment> \<open>a GET with an Authorization header and nothing else\<close>
  "plain_get remote path header = \<lparr>g_method = lit ''GET'', g_path = path, g_host = [], g_remote = remote,
     g_headers = [lit ''authorization'' \<mapsto> [header]], g_length = 0, g_body = NoBody, g_user = None\<rparr>"

lemma route_protected: "route_of path = Protected svc \<Longrightarrow> svc \<noteq> AuthService"
  by (auto simp: route_of_def split: if_splits)

lemma rewritten_authorization:
  assumes "connection_tokens (g_headers r) = []"
  shows "g_headers (proxy_rewrite r) (lit ''authorization'') = g_headers r (lit ''authorization'')"
proof -
  have "lit ''authorization'' \<notin> set hop_headers" "lit ''authorization'' \<notin> set forwarding_headers"
    by (simp_all add: hop_headers_def forwarding_headers_def lit_def)
  moreover have "lit ''authorization'' \<noteq> lit ''x-real-ip''" "lit ''authorization'' \<noteq> lit ''x-forwarded-for''"
    "lit ''authorization'' \<noteq> lit ''x-forwarded-host''" "lit ''authorization'' \<noteq> lit ''x-forwarded-proto''"
    by (simp_all add: lit_def)
  ultimately show ?thesis
    by (simp add: proxy_rewrite_def Let_def set_forwarded_other)
      (simp add: hdel_def [of "lit ''x-real-ip''"] remove_hop_headers_def hdel_fold assms)
qed

lemma gateway_forwards:
  assumes "ge_known env (lit ''GET'')" "route_of path = Protected svc"
    and "authenticate (ge_jwt env) now (ge_secret env) header = Some subject" "subject \<noteq> []"
  shows "\<exists>out. gs_forwarded (snd (Gateway.NewRouter env now (plain_get remote path header) s)) = gs_forwarded s @ [(svc, out)]
    \<and> g_method out = lit ''GET'' \<and> g_path out = path \<and> g_headers out (lit ''authorization'') = Some [header]
    \<and> g_headers out UserIDHeader = Some [subject]"
proof -
  let ?h = "[lit ''authorization'' \<mapsto> [header], UserIDHeader \<mapsto> [subject]]"
  let ?r = "(plain_get remote path header)\<lparr>g_headers := ?h, g_body := Stream [] False, g_length := 0, g_user := Some subject\<rparr>"
  have names: "lit ''GET'' \<noteq> lit ''OPTIONS''" "hget [lit ''authorization'' \<mapsto> [header]] (lit ''authorization'') = header"
    by (simp_all add: lit_def hget_def)
  have drop: "hdel UserIDHeader [lit ''authorization'' \<mapsto> [header]] = [lit ''authorization'' \<mapsto> [header]]"
    using header_names(12) by (auto simp: hdel_def)
  have set: "hset UserIDHeader subject [lit ''authorization'' \<mapsto> [header]] = ?h" by (simp add: hset_def)
  have "lit ''authorization'' \<noteq> lit ''connection''" by (simp add: lit_def)
  then have tok: "connection_tokens ?h = []"
    using header_names(11) by (simp add: connection_tokens_def)
  have "gs_forwarded (snd (Gateway.NewRouter env now (plain_get remote path header) s)) = gs_forwarded s @ [(svc, proxy_rewrite ?r)]"
    using assms
    by (simp add: Gateway.NewRouter_def StripUserID_def CORS_def Let_def LimitBody_def routed_def routed_by_def plain_get_def names drop
        Authenticated_def RequireAuth_def InjectUserID_def BufferBody_def set Proxy_def MaxBodyBytes_def split: option.split)
  moreover have "g_headers (proxy_rewrite ?r) UserIDHeader = Some [subject]"
    using header_names by (simp only: rewritten_headers) (simp add: handed_on_def tok)
  moreover have "g_headers (proxy_rewrite ?r) (lit ''authorization'') = Some [header]"
    using header_names(12) by (subst rewritten_authorization) (simp_all add: tok)
  ultimately show ?thesis by (auto simp: plain_get_def)
qed

lemma gateway_refuses:
  assumes "ge_known env (lit ''GET'')" "route_of path = Protected svc"
    and "authenticate (ge_jwt env) now (ge_secret env) header = None"
  shows "gs_forwarded (snd (Gateway.NewRouter env now (plain_get remote path header) s)) = gs_forwarded s
    \<and> r_status (fst (Gateway.NewRouter env now (plain_get remote path header) s)) = 401"
proof -
  have names: "lit ''GET'' \<noteq> lit ''OPTIONS''" "hget [lit ''authorization'' \<mapsto> [header]] (lit ''authorization'') = header"
    by (simp_all add: lit_def hget_def)
  have drop: "hdel UserIDHeader [lit ''authorization'' \<mapsto> [header]] = [lit ''authorization'' \<mapsto> [header]]"
    using header_names(12) by (auto simp: hdel_def)
  show ?thesis
    using assms
    by (simp add: Gateway.NewRouter_def StripUserID_def CORS_def Let_def LimitBody_def routed_def routed_by_def plain_get_def names drop
        Authenticated_def RequireAuth_def MaxBodyBytes_def write_error_def)
qed

end
