(* ===== verification/SystemProps.thy ===== *)
theory SystemProps
  imports SystemFacts AuthProps GatewayBootProps
begin

text \<open>
  Properties of the deployment: auth and the three engines that gate their own routes, each as its
  main leaves it.
\<close>

section \<open>What a login issued\<close>

lemma login_issued:
  assumes "auth_main libs ea = Some au"
    and "fst (sv_router au w (login_request body) (db, rv)) = TokenReply (Reply 200 tokens)"
  shows "\<exists>j req u secret. body = BodyJSON j \<and> decode_login j = Some req
    \<and> GetUserByEmail (ae_pg w) (NormalizeEmail (ae_upper w) (lr_email req)) db = Inr u
    \<and> bc_check (ae_bcrypt w) (u_hash u) (lr_password req) \<and> secret_of ea = Some secret
    \<and> issueTokenPair (w\<lparr>ae_lib := bl_jwt libs, ae_secret := secret, ae_uuid := bl_uuid libs, ae_uuid_text := bl_uuid_text libs\<rparr>) (u_id u) = Inr tokens"
proof -
  obtain secret where s: "secret_of ea = Some secret" and
    au: "sv_router au = (\<lambda>world r s. AuthHandler.NewRouter (world\<lparr>ae_lib := bl_jwt libs, ae_secret := secret, ae_uuid := bl_uuid libs,
         ae_uuid_text := bl_uuid_text libs\<rparr>) r s)"
    using assms(1) by (auto simp: auth_main_def split: bind_splits)
  let ?env = "w\<lparr>ae_lib := bl_jwt libs, ae_secret := secret, ae_uuid := bl_uuid libs, ae_uuid_text := bl_uuid_text libs\<rparr>"
  have "lit ''POST'' \<noteq> lit ''GET''" "lit ''/auth/login'' \<noteq> lit ''/auth/register''" by (simp_all add: lit_def)
  then have h: "handle_Login ?env body db = Reply 200 tokens"
    using assms(2) by (simp add: au AuthHandler.NewRouter_def login_request_def)
  then obtain req where r: "decodeJSON decode_login body = (Inr req :: token_pair reply + login_request)" "fst (Login ?env req db) = Inr tokens"
    by (auto simp: handle_Login_def internal_error_def decodeJSON_def split: sum.splits if_splits auth_body.splits option.splits)
  from r(1) obtain j where "body = BodyJSON j" "decode_login j = Some req"
    by (auto simp: decodeJSON_def split: auth_body.splits option.splits)
  with r(2) s show ?thesis by (auto simp: Login_def split: sum.splits if_splits)
qed

text \<open>C12. A session acts as its user everywhere and only while it lives: a login that auth answered
  matched the password of a user, and with the one signing secret the services are started with, its
  access token reads that very user's portfolio, runs and report at trading-engine, backtesting and
  ai-insights until it expires and is refused from then on, while the refresh token of the pair is
  refused by all three at any time.\<close>

theorem session_acts_everywhere:
  assumes "auth_main libs ea = Some au" and "trading_main libs et = Some tr"
    and "backtesting_main libs eb = Some bt" and "ai_insights_main libs ei = Some ins"
    and "et (lit ''JWT_SECRET'') = ea (lit ''JWT_SECRET'')" and "eb (lit ''JWT_SECRET'') = ea (lit ''JWT_SECRET'')"
    and "ei (lit ''JWT_SECRET'') = ea (lit ''JWT_SECRET'')"
    and "jwt_ok (bl_jwt libs)" and "\<forall>u. bl_uuid libs (bl_uuid_text libs u) = Some u"
    and "fst (sv_router au w (login_request body) (db, rv)) = TokenReply (Reply 200 tokens)" and "tp_access tokens \<noteq> []"
  shows "\<exists>j req u. body = BodyJSON j \<and> decode_login j = Some req
    \<and> GetUserByEmail (ae_pg w) (NormalizeEmail (ae_upper w) (lr_email req)) db = Inr u
    \<and> bc_check (ae_bcrypt w) (u_hash u) (lr_password req)
    \<and> fst (sv_router tr wt (portfolio_read (bearer (tp_access tokens))) s c) =
        (if tw_now wt < access_expiry (bl_jwt libs) (ae_now w)
         then PortfolioReply (answer_result 200 (Portfolio (postgres_store (tw_pg wt))
           (trading_price (tw_price wt (envOrDefault et (lit ''MARKET_DATA_SERVICE_URL'') (lit ''http://localhost:8082'')))) (u_id u) s))
         else RefusedReply writeUnauthorized)
    \<and> fst (sv_router bt wb (runs_read (bearer (tp_access tokens))) runs_db) =
        (if bw_now wb < access_expiry (bl_jwt libs) (ae_now w)
         then RunsReply (handle_result 200 (ListBacktests (bw_pg wb) (u_id u) runs_db)) else BacktestRefused writeUnauthorized)
    \<and> fst (sv_router ins wi (lit ''GET'') (lit ''/insights/portfolio'') (bearer (tp_access tokens)) rd) =
        (if iw_now wi < access_expiry (bl_jwt libs) (ae_now w)
         then InsightsReply (fst (handle_PortfolioInsights (insights_wiring libs ei (sv_redis ins) wi) (iw_now wi)
           (Some (bl_uuid_text libs (u_id u))) (bearer (tp_access tokens)) rd))
         else InsightsReply writeUnauthorized)
    \<and> fst (sv_router tr wt (portfolio_read (bearer (tp_refresh tokens))) s c) = RefusedReply writeUnauthorized
    \<and> fst (sv_router bt wb (runs_read (bearer (tp_refresh tokens))) runs_db) = BacktestRefused writeUnauthorized
    \<and> fst (sv_router ins wi (lit ''GET'') (lit ''/insights/portfolio'') (bearer (tp_refresh tokens)) rd) = InsightsReply writeUnauthorized"
proof -
  obtain j req u secret where l: "body = BodyJSON j" "decode_login j = Some req"
      "GetUserByEmail (ae_pg w) (NormalizeEmail (ae_upper w) (lr_email req)) db = Inr u"
      "bc_check (ae_bcrypt w) (u_hash u) (lr_password req)" "secret_of ea = Some secret"
      "issueTokenPair (w\<lparr>ae_lib := bl_jwt libs, ae_secret := secret, ae_uuid := bl_uuid libs, ae_uuid_text := bl_uuid_text libs\<rparr>) (u_id u) = Inr tokens"
    using login_issued [OF assms(1,10)] by blast
  have secrets: "secret_of et = Some secret" "secret_of eb = Some secret" "secret_of ei = Some secret"
    using l(5) assms(5-7) by (simp_all add: secret_of_def)
  let ?env = "w\<lparr>ae_lib := bl_jwt libs, ae_secret := secret, ae_uuid := bl_uuid libs, ae_uuid_text := bl_uuid_text libs\<rparr>"
  have ok: "jwt_ok (ae_lib ?env)" using assms(8) by simp
  define tw where "tw = trading_wiring libs (envOrDefault et (lit ''MARKET_DATA_SERVICE_URL'') (lit ''http://localhost:8082'')) (sv_redis tr) wt"
  define bw where "bw = backtest_wiring libs (envOrDefault eb (lit ''MARKET_DATA_SERVICE_URL'') (lit ''http://localhost:8082'')) wb"
  have tr: "sv_router tr wt = TradingHandler.NewRouter (bl_jwt libs) (tw_now wt) secret tw"
    using assms(2) secrets(1) by (auto simp: trading_main_def tw_def Let_def split: bind_splits)
  have bt: "sv_router bt wb = BacktestRouter.NewRouter (bl_jwt libs) (bw_now wb) secret bw"
    using assms(3) secrets(2) by (auto simp: backtesting_main_def bw_def Let_def split: bind_splits)
  have ins: "sv_router ins wi = InsightsHandler.NewRouter (bl_jwt libs) secret (insights_wiring libs ei (sv_redis ins) wi) (iw_now wi)"
    using assms(4) secrets(3) by (auto simp: ai_insights_main_def split: bind_splits)
  have acts: "handle_Portfolio tw (Some (bl_uuid_text libs (u_id u))) s = answer_result 200 (Portfolio (postgres_store (tw_pg wt))
      (trading_price (tw_price wt (envOrDefault et (lit ''MARKET_DATA_SERVICE_URL'') (lit ''http://localhost:8082'')))) (u_id u) s)"
    "handle_list (ba_pg bw) (ba_uuid bw) (Some (bl_uuid_text libs (u_id u))) runs_db = handle_result 200 (ListBacktests (bw_pg wb) (u_id u) runs_db)"
    using assms(9)
    by (simp_all add: handle_Portfolio_def handle_list_def TradingHandler.userID_def BacktestService.userID_def tw_def bw_def
        trading_wiring_def backtest_wiring_def)
  note gates = tg.session [OF ok l(6) assms(11), where api = "\<lambda>_. tw" and now = "tw_now wt" and s = s and c = c]
    bg.session [OF ok l(6) assms(11), where api = "\<lambda>_. bw" and now = "bw_now wb" and db = runs_db]
    ig.session [OF ok l(6) assms(11), where api = "\<lambda>_. insights_wiring libs ei (sv_redis ins) wi" and now = "iw_now wi" and w = rd]
  show ?thesis
    by (rule exI [of _ j], rule exI [of _ req], rule exI [of _ u])
      (use gates in \<open>simp add: l(1-4) tr bt ins acts\<close>)
qed

text \<open>C27. A session passes the gateway as its user: a protected read with the access token of an
  answered login is forwarded to the service of its path exactly once while the token lives, with the
  Authorization header as sent, on which the service decides again, and the identity header of the
  user whose password matched. An expired access token and the refresh token reach no service and
  are answered 401.\<close>

theorem session_crosses_the_gateway:
  assumes "auth_main libs ea = Some au" and "gateway_main glibs eg = Some gw"
    and "eg (lit ''JWT_SECRET'') = ea (lit ''JWT_SECRET'')" and "gl_jwt glibs = bl_jwt libs" and "jwt_ok (bl_jwt libs)"
    and "\<forall>u. bl_uuid_text libs u \<noteq> []" and "gl_known glibs (lit ''GET'')" and "route_of path = Protected svc"
    and "fst (sv_router au w (login_request body) (db, rv)) = TokenReply (Reply 200 tokens)" and "tp_access tokens \<noteq> []"
  shows "\<exists>j req u. body = BodyJSON j \<and> decode_login j = Some req
    \<and> GetUserByEmail (ae_pg w) (NormalizeEmail (ae_upper w) (lr_email req)) db = Inr u
    \<and> bc_check (ae_bcrypt w) (u_hash u) (lr_password req)
    \<and> (case Gateway.NewRouter (gp_router gw net) now (plain_get remote path (bearer (tp_access tokens))) s of (resp, s') \<Rightarrow>
         if now < access_expiry (bl_jwt libs) (ae_now w)
         then \<exists>out. gs_forwarded s' = gs_forwarded s @ [(svc, out)] \<and> g_method out = lit ''GET'' \<and> g_path out = path
           \<and> g_headers out (lit ''authorization'') = Some [bearer (tp_access tokens)]
           \<and> g_headers out UserIDHeader = Some [bl_uuid_text libs (u_id u)]
         else gs_forwarded s' = gs_forwarded s \<and> r_status resp = 401)
    \<and> (case Gateway.NewRouter (gp_router gw net) now (plain_get remote path (bearer (tp_refresh tokens))) s of (resp, s') \<Rightarrow>
         gs_forwarded s' = gs_forwarded s \<and> r_status resp = 401)"
proof -
  obtain j req u secret where l: "body = BodyJSON j" "decode_login j = Some req"
      "GetUserByEmail (ae_pg w) (NormalizeEmail (ae_upper w) (lr_email req)) db = Inr u"
      "bc_check (ae_bcrypt w) (u_hash u) (lr_password req)" "secret_of ea = Some secret"
      "issueTokenPair (w\<lparr>ae_lib := bl_jwt libs, ae_secret := secret, ae_uuid := bl_uuid libs, ae_uuid_text := bl_uuid_text libs\<rparr>) (u_id u) = Inr tokens"
    using login_issued [OF assms(1,9)] by blast
  let ?env = "w\<lparr>ae_lib := bl_jwt libs, ae_secret := secret, ae_uuid := bl_uuid libs, ae_uuid_text := bl_uuid_text libs\<rparr>"
  have ok: "jwt_ok (ae_lib ?env)" using assms(5) by simp
  have "secret = utf8 (ea (lit ''JWT_SECRET''))" using l(5) by (auto simp: secret_of_def Let_def split: if_splits)
  then have gw: "ge_secret (gp_router gw net) = secret" "ge_jwt (gp_router gw net) = bl_jwt libs" "ge_known (gp_router gw net) = gl_known glibs"
    using main_listens(6) [OF assms(2), of net] assms(2,3,4) by (auto simp: gateway_main_def Let_def split: if_splits bind_splits)
  have auths: "authenticate (bl_jwt libs) now secret (bearer (tp_access tokens)) =
      (if now < access_expiry (bl_jwt libs) (ae_now w) then Some (bl_uuid_text libs (u_id u)) else None)"
    "authenticate (bl_jwt libs) now secret (bearer (tp_refresh tokens)) = None"
    using issued_tokens [OF ok l(6) assms(10), of now] by simp_all
  note fwd = gateway_forwards [where env = "gp_router gw net" and now = now and remote = remote and path = path and svc = svc and s = s,
      unfolded gw, OF assms(7,8)]
  note ref = gateway_refuses [where env = "gp_router gw net" and now = now and remote = remote and path = path and svc = svc and s = s,
      unfolded gw, OF assms(7,8)]
  show ?thesis
    by (rule exI [of _ j], rule exI [of _ req], rule exI [of _ u])
      (use fwd [of "bearer (tp_access tokens)"] ref [of "bearer (tp_access tokens)"] ref [of "bearer (tp_refresh tokens)"] auths assms(6)
        in \<open>simp add: l(1-4) split_beta\<close>)
qed

section \<open>A deployment\<close>

definition pair_lib :: "secret \<Rightarrow> claims \<Rightarrow> claims \<Rightarrow> jwt_lib" where
  \<comment> \<open>a token library that knows two claims\<close>
  "pair_lib k a b =
     \<lparr>jl_sign = (\<lambda>k' c'. if k' = k then (if c' = a then Some [7] else if c' = b then Some [9] else None) else None),
      jl_parse = (\<lambda>kf now t. if kf HMAC = Some k then
         (if t = [7] \<and> (\<forall>e\<in>set_option (c_expires a). now < e) then Some (a, True)
          else if t = [9] \<and> (\<forall>e\<in>set_option (c_expires b). now < e) then Some (b, True) else None) else None),
      jl_numeric = id\<rparr>"

lemma pair_lib_ok: "jwt_ok (pair_lib k a b)"
  unfolding jwt_ok_def pair_lib_def by (auto split: if_splits)

definition demo_secret :: gostr where "demo_secret = replicate 32 97"

definition demo_pair :: "claims \<times> claims" where
  "demo_pair = (\<lparr>c_type = TokenTypeAccess, c_id = [5], c_subject = [0], c_issued = Some 0, c_expires = Some AccessTokenTTL\<rparr>,
     \<lparr>c_type = TokenTypeRefresh, c_id = [5], c_subject = [0], c_issued = Some 0, c_expires = Some RefreshTokenTTL\<rparr>)"

definition demo_boot :: boot_libs where
  "demo_boot = \<lparr>bl_pool = (\<lambda>_. True), bl_ping = (\<lambda>_. True),
     bl_redis = (\<lambda>_. Some \<lparr>ro_context_timeout = False, ro_read = 0, ro_write = 0, ro_dial = 0\<rparr>),
     bl_jwt = pair_lib (utf8 demo_secret) (fst demo_pair) (snd demo_pair), bl_upper = id,
     bl_uuid = (\<lambda>s. case s of [n] \<Rightarrow> Some n | _ \<Rightarrow> None), bl_uuid_text = (\<lambda>n. [n])\<rparr>"

definition demo_deployment :: environment where
  "demo_deployment = (\<lambda>name. if name = lit ''JWT_SECRET'' then demo_secret else if name = lit ''DATABASE_URL'' then lit ''postgres''
     else if name = lit ''REDIS_URL'' then lit ''redis'' else [])"

lemma demo_deployed: "demo_deployment (lit ''DATABASE_URL'') = lit ''postgres''" "demo_deployment (lit ''REDIS_URL'') = lit ''redis''"
    "secret_of demo_deployment = Some (utf8 demo_secret)"
proof -
  have "length (utf8 demo_secret) = 32" by (simp add: demo_secret_def utf8_def utf8_rune_def numeral_eq_Suc)
  moreover have "demo_secret \<noteq> []" by (simp add: demo_secret_def)
  ultimately show "secret_of demo_deployment = Some (utf8 demo_secret)"
    by (simp add: secret_of_def demo_deployment_def ValidateSecret_def MinSecretLength_def Let_def)
qed (simp_all add: demo_deployment_def lit_def)

lemma demo_boots: "\<exists>au. auth_main demo_boot demo_deployment = Some au" "\<exists>tr. trading_main demo_boot demo_deployment = Some tr"
    "\<exists>bt. backtesting_main demo_boot demo_deployment = Some bt" "\<exists>ins. ai_insights_main demo_boot demo_deployment = Some ins"
proof -
  have "lit ''postgres'' \<noteq> []" "lit ''redis'' \<noteq> []" by (simp_all add: lit_def)
  then show "\<exists>au. auth_main demo_boot demo_deployment = Some au" "\<exists>tr. trading_main demo_boot demo_deployment = Some tr"
    "\<exists>bt. backtesting_main demo_boot demo_deployment = Some bt" "\<exists>ins. ai_insights_main demo_boot demo_deployment = Some ins"
    by (simp_all add: auth_main_def trading_main_def backtesting_main_def ai_insights_main_def demo_deployed required_def
        guard_boot_def optional_redis_def demo_boot_def Let_def)
qed

definition demo_login_body :: auth_body where
  "demo_login_body = BodyJSON (JObj [(lit ''email'', JStr (lit ''A@b.co'')), (lit ''password'', JStr (lit ''quiet-harbor-nine''))])"

lemma demo_logged_in:
  assumes "auth_main demo_boot demo_deployment = Some au"
  shows "fst (sv_router au demo_auth (login_request demo_login_body) (\<lparr>users = [demo_user], user_accounts = [], user_rows = 1\<rparr>, Map.empty))
    = TokenReply (Reply 200 \<lparr>tp_access = [7], tp_refresh = [9], tp_expires_in = 900\<rparr>)"
proof -
  let ?env = "demo_auth\<lparr>ae_lib := bl_jwt demo_boot, ae_secret := utf8 demo_secret, ae_uuid := bl_uuid demo_boot, ae_uuid_text := bl_uuid_text demo_boot\<rparr>"
  have au: "sv_router au demo_auth = AuthHandler.NewRouter ?env"
    using assms by (auto simp: auth_main_def demo_deployed split: bind_splits)
  have dec: "decode_login (JObj [(lit ''email'', JStr (lit ''A@b.co'')), (lit ''password'', JStr (lit ''quiet-harbor-nine''))])
      = Some \<lparr>lr_email = lit ''A@b.co'', lr_password = lit ''quiet-harbor-nine''\<rparr>"
    by (simp add: decode_login_def dec_field_def dec_member_def names_field_def fold_rune_def lit_def dec_string_def)
  have "issueTokenPair ?env 0 = Inr \<lparr>tp_access = [7], tp_refresh = [9], tp_expires_in = 900\<rparr>"
    by (simp add: issueTokenPair_def GenerateToken_def demo_boot_def pair_lib_def demo_pair_def demo_auth_def token_types
        AccessTokenTTL_def second_def)
  then have "fst (Login ?env \<lparr>lr_email = lit ''A@b.co'', lr_password = lit ''quiet-harbor-nine''\<rparr> \<lparr>users = [demo_user], user_accounts = [], user_rows = 1\<rparr>)
      = Inr \<lparr>tp_access = [7], tp_refresh = [9], tp_expires_in = 900\<rparr>"
    by (simp add: Login_def GetUserByEmail_def demo_auth_def demo_user_def demo_norm)
  moreover have "lit ''POST'' \<noteq> lit ''GET''" "lit ''/auth/login'' \<noteq> lit ''/auth/register''" by (simp_all add: lit_def)
  ultimately show ?thesis
    by (simp add: au AuthHandler.NewRouter_def login_request_def demo_login_body_def handle_Login_def decodeJSON_def dec)
qed

definition demo_bw :: backtest_world where
  "demo_bw = \<lparr>bw_now = 1, bw_pg = demo_env, bw_history = (\<lambda>_ _ _. NoAnswer), bw_sched = (\<lambda>xs. [0..<length xs])\<rparr>"

theorem session_acts_everywhere_witness:
  "\<exists>bt. backtesting_main demo_boot demo_deployment = Some bt
    \<and> fst (sv_router bt demo_bw (runs_read (bearer [7])) \<lparr>runs = [], fills = []\<rparr>) = RunsReply (Reply 200 [])
    \<and> fst (sv_router bt (demo_bw\<lparr>bw_now := AccessTokenTTL\<rparr>) (runs_read (bearer [7])) \<lparr>runs = [], fills = []\<rparr>) = BacktestRefused writeUnauthorized
    \<and> fst (sv_router bt demo_bw (runs_read (bearer [9])) \<lparr>runs = [], fills = []\<rparr>) = BacktestRefused writeUnauthorized"
proof -
  obtain au tr bt ins where boot: "auth_main demo_boot demo_deployment = Some au" "trading_main demo_boot demo_deployment = Some tr"
      "backtesting_main demo_boot demo_deployment = Some bt" "ai_insights_main demo_boot demo_deployment = Some ins"
    using demo_boots by blast
  have libs: "jwt_ok (bl_jwt demo_boot)" "\<forall>u. bl_uuid demo_boot (bl_uuid_text demo_boot u) = Some u"
    by (simp_all add: demo_boot_def pair_lib_ok)
  note s = session_acts_everywhere [OF boot refl refl refl libs demo_logged_in [OF boot(1)]]
  have e: "access_expiry (bl_jwt demo_boot) (ae_now demo_auth) = AccessTokenTTL"
    by (simp add: access_expiry_def demo_boot_def pair_lib_def demo_auth_def)
  have t: "1 < AccessTokenTTL" by (simp add: AccessTokenTTL_def second_def)
  have l: "ListBacktests demo_env u \<lparr>runs = [], fills = []\<rparr> = Inr []" for u by (simp add: ListBacktests_def demo_env_def)
  show ?thesis
    using s [where wb = demo_bw and runs_db = "\<lparr>runs = [], fills = []\<rparr>" and wt = undefined and wi = undefined and s = undefined and c = undefined and rd = undefined]
      s [where wb = "demo_bw\<lparr>bw_now := AccessTokenTTL\<rparr>" and runs_db = "\<lparr>runs = [], fills = []\<rparr>" and wt = undefined and wi = undefined and s = undefined and c = undefined and rd = undefined]
      boot(3) by (auto simp: demo_bw_def e t l)
qed

theorem session_crosses_the_gateway_witness:
  "\<exists>gw. gateway_main (demo_libs\<lparr>gl_jwt := bl_jwt demo_boot\<rparr>) demo_environment = Some gw
    \<and> (\<exists>out. gs_forwarded (snd (Gateway.NewRouter (gp_router gw (\<lambda>_ _. None)) 1 (plain_get [] (lit ''/trading/portfolio'') (bearer [7])) gateway_start))
         = [(TradingEngine, out)] \<and> g_headers out UserIDHeader = Some [[0]])
    \<and> gs_forwarded (snd (Gateway.NewRouter (gp_router gw (\<lambda>_ _. None)) 1 (plain_get [] (lit ''/trading/portfolio'') (bearer [9])) gateway_start)) = []"
proof -
  let ?libs = "demo_libs\<lparr>gl_jwt := bl_jwt demo_boot\<rparr>" and ?path = "lit ''/trading/portfolio''"
  obtain gw where gw: "gateway_main ?libs demo_environment = Some gw" using demo_listens_with by blast
  obtain au where au: "auth_main demo_boot demo_deployment = Some au" using demo_boots by blast
  have secret: "demo_environment (lit ''JWT_SECRET'') = demo_deployment (lit ''JWT_SECRET'')"
    by (simp add: demo_unset demo_deployment_def demo_secret_def)
  have facts: "jwt_ok (bl_jwt demo_boot)" "\<forall>u. bl_uuid_text demo_boot u \<noteq> []" "gl_known ?libs (lit ''GET'')" "gl_jwt ?libs = bl_jwt demo_boot"
    by (simp_all add: demo_boot_def pair_lib_ok demo_libs_def)
  have route: "route_of ?path = Protected TradingEngine" by code_simp
  have e: "access_expiry (bl_jwt demo_boot) (ae_now demo_auth) = AccessTokenTTL"
    by (simp add: access_expiry_def demo_boot_def pair_lib_def demo_auth_def)
  have t: "1 < AccessTokenTTL" by (simp add: AccessTokenTTL_def second_def)
  have demo: "gs_forwarded gateway_start = []" "bl_uuid_text demo_boot (u_id demo_user) = [0]"
    by (simp_all add: gateway_start_def demo_boot_def demo_user_def)
  have u: "u = demo_user" if "GetUserByEmail (ae_pg demo_auth) k \<lparr>users = [demo_user], user_accounts = [], user_rows = 1\<rparr> = Inr u" for u k
    using that by (auto simp: GetUserByEmail_def split: if_splits)
  from session_crosses_the_gateway [OF au gw secret facts(4,1,2,3) route demo_logged_in [OF au],
      where net = "\<lambda>_ _. None" and now = 1 and remote = "[]" and s = gateway_start, unfolded e split_beta token_pair.simps if_P [OF t] demo append_Nil]
  obtain u where found: "\<exists>k. GetUserByEmail (ae_pg demo_auth) k \<lparr>users = [demo_user], user_accounts = [], user_rows = 1\<rparr> = Inr u"
    and fwd: "\<exists>out. gs_forwarded (snd (Gateway.NewRouter (gp_router gw (\<lambda>_ _. None)) 1 (plain_get [] ?path (bearer [7])) gateway_start)) = [(TradingEngine, out)]
       \<and> g_headers out UserIDHeader = Some [bl_uuid_text demo_boot (u_id u)]"
    and ref: "gs_forwarded (snd (Gateway.NewRouter (gp_router gw (\<lambda>_ _. None)) 1 (plain_get [] ?path (bearer [9])) gateway_start)) = []"
    by blast
  have "u = demo_user" using found u by blast
  then show ?thesis using gw fwd ref demo(2) by auto
qed

end
