(* ===== verification/Spec2Isabelle.thy ===== *)
theory Spec2Isabelle
  imports TradingHandlerProps BacktestProps GatewayProps InsightsProps NarrativeProps MarketProps AuthProps
    GatewayBootProps LlmProps BacktestRouter SystemProps
begin

text \<open>
  A verification library of QuantSim, a paper-trading simulator written as six Go services.

  \<^bold>\<open>The program.\<close> A browser talks to the gateway only. The gateway (services/gateway) throttles
  authentication, validates the access token of every other request, strips and injects headers
  and forwards to one of five services. auth registers users, issues and refreshes token pairs and
  revokes refresh tokens. market-data ingests daily bars from a provider into Postgres, polls the
  latest prices into Redis and serves both. trading-engine fills orders at the cached price in one
  transaction over accounts, positions, orders and trades, and drops the user's cached report.
  backtesting fetches histories from market-data, aligns them, runs a strategy over a shared pool
  of capital and stores the run. ai-insights reads the trade log and the portfolio of
  trading-engine and histories of market-data, reconstructs the equity curve, reconciles it with
  the live account, reports risk, benchmarks and behaviour, and lets a language model phrase the
  report under rules that keep every figure the report's own. trading-engine, backtesting and
  ai-insights validate the token again with pkg/auth.

  \<^bold>\<open>Theories and sources.\<close> A definition has the name of the Go declaration it models; where two
  services use one name the theory qualifies it.

  \<^item> Foundations: \<open>Prelude\<close> (strings as lists of code points, results, 64-bit integers, the
    exchange with another service, the fan-out over goroutines), \<open>F64\<close> and \<open>F64Facts\<close>
    (float64), \<open>GoTime\<close>, \<open>GoRFC3339\<close>, \<open>GoDuration\<close> (package time), \<open>GoStrconv\<close>, \<open>GoStrings\<close>
    (with chi's patterns), \<open>GoJSON\<close> and \<open>GoJSONFacts\<close> (encoding/json).
  \<^item> pkg/auth: \<open>PkgAuth\<close>. pkg/portfoliomath: \<open>PortfolioMath\<close>, \<open>PortfolioMathFacts\<close>. pkg/redisclient and
    infra/docker/healthcheck: \<open>ServiceBoot\<close>. pkg/cachekeys: \<open>Insights\<close> in \<open>TradingService\<close>.
  \<^item> services/trading-engine: \<open>TradingModel\<close> (types.go, money.go), \<open>TradingStore\<close>
    (postgres\_trading\_store.go), \<open>TradingService\<close> (trading.go, the price client, the invalidator),
    \<open>TradingHandler\<close> (handler). Facts: \<open>TradingStoreFacts\<close> (the abstract ledger and the refinement),
    \<open>TradingServiceFacts\<close>. Properties: \<open>TradingProps\<close>, \<open>TradingHandlerProps\<close>.
  \<^item> services/backtesting: \<open>BacktestModel\<close> (types.go), \<open>Strategy\<close> (indicators.go, strategy.go), \<open>Simulator\<close>
    (align.go, simulate\_portfolio.go, metrics.go), \<open>BacktestService\<close> (backtest.go, store, client,
    handler), \<open>BacktestRouter\<close> (router.go). Facts: \<open>StrategyFacts\<close> (the contract of a strategy as a
    locale), \<open>AlignFacts\<close>, \<open>SimulatorFacts\<close>, \<open>SimulatorLedger\<close>, \<open>BacktestFacts\<close>. Properties:
    \<open>BacktestProps\<close>, \<open>BacktestRouter\<close>.
  \<^item> services/gateway: \<open>Limiter\<close> (internal/limiter), \<open>Gateway\<close> (middleware, proxy, router),
    \<open>GatewayBoot\<close> (cmd/server/main.go). Facts: \<open>LimiterFacts\<close> (the store interface as a locale, the
    sharded store as its instance), \<open>GatewayFacts\<close> (what a chain of middleware preserves, as
    locales), \<open>GatewayBootFacts\<close>, \<open>LoginFlow\<close> (logins in flight, read by the gateway and by auth).
    Properties: \<open>GatewayProps\<close>, \<open>GatewayBootProps\<close>.
  \<^item> services/auth: \<open>AuthRules\<close> (validate.go, blocklist.go), \<open>AuthService\<close> (auth.go, the two stores),
    \<open>AuthHandler\<close>. Properties: \<open>AuthProps\<close>.
  \<^item> services/market-data: \<open>MarketData\<close> (alpaca, store, cache, service, poller, handler). Facts:
    \<open>MarketFacts\<close>. The JSON between the services: \<open>Wire\<close>, \<open>WireFacts\<close>. Properties: \<open>MarketProps\<close>.
  \<^item> services/ai-insights: \<open>InsightsModel\<close> (calendar, histories, reconstruct, reconcile),
    \<open>InsightsReport\<close> (risk, benchmark, behavior, insights, hash), \<open>Narrative\<close> (internal/narrative), \<open>Llm\<close>
    (internal/llm), \<open>InsightsHandler\<close> (caches, counter, handler). Facts: \<open>InsightsFacts\<close>,
    \<open>InsightsLedger\<close>, \<open>NarrativeFacts\<close>. Properties: \<open>InsightsProps\<close>, \<open>NarrativeProps\<close>, \<open>LlmProps\<close>.
  \<^item> The other processes: \<open>ServiceBoot\<close> (the five cmd/server/main.go). Facts: \<open>SystemFacts\<close> (a gated read as
    a locale, interpreted on the three engines). Properties over several services: \<open>SystemProps\<close>.

  \<^bold>\<open>How code is modelled.\<close> State is passed explicitly: the tables of a database, the entries of a
  Redis, the counters of the limiters. A handler is a function of the request and the state. An
  error is the left side of a sum with the source's errors as constructors; a \<open>log.Fatal\<close> is
  \<open>None\<close>; a panic is an answer of its own. Go's int is \<open>int\<close> with the wrap-around written out
  (\<open>wrap64\<close>) where values are not bounded; the hash of the sharded limiter is on words. A float64
  is a rational with round to nearest, ties to even, and the special values; no operation is
  fused, as Go compiles for amd64. A JSON body is its syntax tree with the exact value of a
  number, decoded with Go's rules for names, nulls and duplicates. A Go map is an association
  list whose order stands for the iteration order wherever code ranges over it, and theorems
  show that the order does not matter. \<open>sort.Slice\<close> is an insertion sort; where ties could show,
  keys are distinct. Goroutines that write their own slots run in the order of an arbitrary
  schedule. The paging loop of the provider's client is a partial function: not returning is
  \<open>None\<close>. Every other loop is total.

  \<^bold>\<open>Parameters.\<close> Code outside the repository is an argument: Postgres (which statements fail, how a
  commit or a batch ends, what NUMERIC, JSONB and TIMESTAMPTZ give back, identifiers and the
  clock; a transaction that is not committed leaves nothing, a lost answer of a commit leaves
  everything), Redis (which calls fail; a call that fails has no effect; \<open>keeps_for\<close>: an entry lives
  as long as asked to the millisecond), the JWT library (\<open>jwt_ok\<close>: a token parses only under a key
  the key function gives, before it expires, and always to the same claims, and a signed token
  reads back), bcrypt, the Unicode tables, net/netip, url.Parse, uuid.Parse, mail.ParseAddress,
  the syntax of JSON text, SHA-256, the digits of FormatFloat, the letters strconv.Quote prints, the
  price provider and the language model's SDK. Each hypothesis about one of them has a witness with a concrete instance.

  \<^bold>\<open>What the lemmas show.\<close>
  \<^item> Trading: every reachable store is solvent and its trades are its filled orders; an executed order
    is a step of an abstract ledger; every outcome of a transaction, a lost commit included, is one
    of the documented ones; without a fresh positive price nothing fills; only the token's user is
    acted for.
  \<^item> Backtesting: no lookahead; the pool is never overdrawn; fills answer the previous bar's signal;
    warm-up bounds without wrap-around; the statistics' ranges; a stored run is its owner's.
  \<^item> Gateway: what is forwarded is the client's request, its whole body included, with the gateway's
    own identity and forwarding headers; in any run of a process that started, with its sweeps at any
    time, the requests of an address are bounded by the environment, and so are, with any number of
    requests in flight, the logins that auth reads as guesses at one account.
  \<^item> auth: identities are unique in every reachable state; registered users can log in; a logged-out
    refresh token stays refused.
  \<^item> market-data and the wire: ingestion is idempotent, histories and trade logs arrive as stored,
    a price an order fills at was polled less than 45 seconds before; when the provider's pages end.
  \<^item> ai-insights: the curve is the ledger valued at the closes; the guard compares every trade exactly
    once; a failed fetch is an error and never a missing close; a narrative is a checked draft
    filled in from the report, whose own prose has no ASCII digit, unit sign or listed number word
    (other scripts and unlisted words pass), a rejected draft is retried once with a quote of its offence, the prompt offers exactly what
    will render, and paid generations are capped.
  \<^item> The deployment: with one signing secret, the tokens of a login act as its user at the gateway and
    at the three engines until they expire, and a refresh token is never accepted for access.

  \<^bold>\<open>Bounds.\<close> The end-to-end bound on guesses is stated for at most \<open>10^18\<close> earlier events, up to
  \<open>2^61\<close> configured failures and a maximum backoff of at most \<open>2^62\<close> nanoseconds (146 years): beyond it
  the doubling of the delay may wrap around before it is capped. Statistics over trades are stated
  for at most \<open>2^53\<close> trades, where counts are exact floats. Nothing uses fuel.

  \<^bold>\<open>Simplifications.\<close> A run of the gateway handles a request in one step, which is all that the
  counters of the addresses see of it; for the login throttle \<open>gateway_flow\<close> lets the answers come
  later, in any order, and \<open>LoginFlow\<close> shows that the one-step router is the flow whose answers come
  at once. The 48 hours the daily counters of narratives live are not modelled, as their keys hold
  the date. Operations of one request read one clock unless said otherwise. Locations
  of times are not kept. \<open>SimulatePortfolio\<close> is given the rectangular bars \<open>alignBars\<close> builds; what Go does
  with ragged ones, a panic, is left open. Requests to paths without a route are answered by chi and
  have one common answer. Texts of errors, log lines and the prose of findings are modelled only
  where another component reads them.

  \<^bold>\<open>Not modelled.\<close> Test doubles (the mock packages and the Redis set up for integration tests),
  because no service runs them; the frontend, which is not Go; transports, timeouts and connection
  pools, which are the standard library's; the migrations as such, whose constraints appear in the
  store models that rely on them.
\<close>

end
